(* ===== verification/Prelude.thy ===== *)
theory Prelude
  imports Complex_Main
begin

text \<open>
  Shared vocabulary of the development of \<open>src/server.py\<close>: the types that name the
  model's quantities, the collections of rewrite rules that the component theories fill,
  and the generic facts on lists and association lists that more than one component uses.
\<close>

section \<open>Types of the model\<close>

text \<open>
  \<open>datetime.now()\<close> has microsecond resolution; a point in time is the number of
  microseconds since some fixed epoch, an unbounded Python-like integer.
\<close>

type_synonym time = int

text \<open>The surrogate key \<open>id\<close> of table \<open>sensor_data\<close>, handed out by a sequence.\<close>

type_synonym row_key = nat

section \<open>Rule collections\<close>

named_theorems store_simps \<open>characteristic equations of the SQL statements on the table\<close>
named_theorems handler_simps \<open>equations that evaluate the request handler on one branch\<close>

section \<open>Lists updated in place\<close>

text \<open>
  An SQL \<open>UPDATE \<dots> WHERE\<close> rewrites the rows that satisfy its condition and keeps
  the others: a conditional \<open>map\<close>. These facts describe such a map.
\<close>

definition map_where :: "('a \<Rightarrow> bool) \<Rightarrow> ('a \<Rightarrow> 'a) \<Rightarrow> 'a list \<Rightarrow> 'a list" where
  "map_where P f xs = map (\<lambda>x. if P x then f x else x) xs"

lemma length_map_where [simp]: "length (map_where P f xs) = length xs"
  by (simp add: map_where_def)

lemma nth_map_where [simp]:
  "i < length xs \<Longrightarrow> map_where P f xs ! i = (if P (xs ! i) then f (xs ! i) else xs ! i)"
  by (simp add: map_where_def)

lemma map_where_Nil [simp]: "map_where P f [] = []"
  by (simp add: map_where_def)

lemma map_where_Cons [simp]:
  "map_where P f (x # xs) = (if P x then f x else x) # map_where P f xs"
  by (simp add: map_where_def)

lemma map_where_append [simp]:
  "map_where P f (xs @ ys) = map_where P f xs @ map_where P f ys"
  by (simp add: map_where_def)

lemma set_map_where:
  "set (map_where P f xs) = {f x | x. x \<in> set xs \<and> P x} \<union> {x. x \<in> set xs \<and> \<not> P x}"
  by (auto simp: map_where_def)

lemma map_where_id:
  "\<forall>x \<in> set xs. \<not> P x \<Longrightarrow> map_where P f xs = xs"
  by (induction xs) auto

lemma map_map_where_keep:
  "\<forall>x. g (f x) = g x \<Longrightarrow> map g (map_where P f xs) = map g xs"
  by (induction xs) auto

lemma filter_map_where_keep:
  "\<forall>x. Q (f x) = Q x \<Longrightarrow> \<forall>x \<in> set xs. P x \<longrightarrow> Q x \<Longrightarrow>
   filter (\<lambda>x. \<not> Q x) (map_where P f xs) = filter (\<lambda>x. \<not> Q x) xs"
  by (induction xs) auto

lemma filter_map_where_skip:
  "\<forall>x. Q (f x) = Q x \<Longrightarrow> \<forall>x \<in> set xs. P x \<longrightarrow> \<not> Q x \<Longrightarrow>
   filter Q (map_where P f xs) = filter Q xs"
  by (induction xs) auto

lemma filter_map_where:
  "\<forall>x. Q (f x) = Q x \<Longrightarrow> filter Q (map_where P f xs) = map_where P f (filter Q xs)"
  by (induction xs) auto

lemma list_all_list_update: "list_all P xs \<Longrightarrow> P y \<Longrightarrow> list_all P (xs[i := y])"
  by (auto simp: list_all_iff dest: set_update_subset_insert [THEN subsetD])

lemma map_where_unique_key:
  assumes "distinct (map g xs)" and "i < length xs" and "g (xs ! i) = k"
  shows "map_where (\<lambda>x. g x = k) f xs = xs[i := f (xs ! i)]"
proof (rule nth_equalityI)
  show "length (map_where (\<lambda>x. g x = k) f xs) = length (xs[i := f (xs ! i)])"
    by simp
next
  fix j
  assume "j < length (map_where (\<lambda>x. g x = k) f xs)"
  then have j: "j < length xs" by simp
  show "map_where (\<lambda>x. g x = k) f xs ! j = xs[i := f (xs ! i)] ! j"
  proof (cases "j = i")
    case True
    with assms j show ?thesis by simp
  next
    case False
    with assms j have "g (xs ! j) \<noteq> k"
      using nth_eq_iff_index_eq [of "map g xs" j i] by auto
    with False j show ?thesis by simp
  qed
qed

lemma distinct_map_eq_on_set:
  "distinct (map g xs) \<Longrightarrow> x \<in> set xs \<Longrightarrow> y \<in> set xs \<Longrightarrow> g x = g y \<Longrightarrow> x = y"
  by (metis distinct_map inj_onD)

lemma map_update_same:
  "f y = f (xs ! i) \<Longrightarrow> (map f xs)[i := f y] = map f xs"
  by (cases "i < length xs") (auto simp: list_eq_iff_nth_eq nth_list_update list_update_beyond)

section \<open>Association lists read from the right\<close>

text \<open>
  A JSON object with a repeated key keeps the value of its last occurrence when
  Python's \<open>json\<close> turns it into a \<open>dict\<close>: it is looked up in the reversed list.
\<close>

lemma map_of_rev_snoc [simp]:
  "map_of (rev (xs @ [(k, v)])) k = Some v"
  by simp

lemma map_of_rev_snoc_other:
  "k' \<noteq> k \<Longrightarrow> map_of (rev (xs @ [(k, v)])) k' = map_of (rev xs) k'"
  by simp

section \<open>Integer division\<close>

text \<open>
  Python's \<open>divmod\<close> by a positive divisor is floor division with a non-negative
  remainder, which is HOL's \<open>div\<close> and \<open>mod\<close> on \<open>int\<close>. The calendar and the
  \<open>timedelta\<close> normalisation are chains of such \<open>divmod\<close>s; these facts pin one
  quotient down by its bounds, which is faster and more robust than letting the
  simplifier evaluate divisions of symbolic sums.
\<close>

lemma int_div_eqI:
  assumes "0 < (k::int)" "k * q \<le> a" "a < k * q + k"
  shows "a div k = q"
proof -
  have "a = (a - k * q) + q * k" by simp
  then have "a div k = q + (a - k * q) div k"
    using assms(1) by (metis div_mult_self1 less_irrefl)
  moreover have "(a - k * q) div k = 0"
    using assms by (simp add: zdiv_eq_0_iff)
  ultimately show ?thesis by simp
qed

lemma int_mod_eqI:
  assumes "0 < (k::int)" "k * q \<le> a" "a < k * q + k"
  shows "a mod k = a - k * q"
  using int_div_eqI [OF assms] by (simp add: minus_div_mult_eq_mod [symmetric])

lemma int_div_pred:
  assumes "0 < (k::int)"
  shows "y div k = (y - 1) div k + (if y mod k = 0 then 1 else 0)"
proof (cases "y mod k = 0")
  case True
  then obtain m where m: "y = k * m" by (auto simp: mod_eq_0_iff_dvd elim: dvdE)
  have "(y - 1) div k = m - 1"
    using assms unfolding m by (intro int_div_eqI) (simp_all add: algebra_simps)
  moreover have "y div k = m" using assms unfolding m by simp
  ultimately show ?thesis using True by simp
next
  case False
  have m: "k * (y div k) + y mod k = y" by (rule mult_div_mod_eq)
  have "0 \<le> y mod k" "y mod k < k" using assms by simp_all
  with False m have "(y - 1) div k = y div k"
    using assms by (intro int_div_eqI) linarith+
  then show ?thesis using False by simp
qed

lemma divmod_parts:
  assumes "0 < (k::int)"
  shows "x = k * (x div k) + x mod k" "0 \<le> x mod k" "x mod k < k"
  using assms by simp_all

end
