(* ===== verification/Json.thy ===== *)
theory Json
  imports Prelude
begin

text \<open>
  The values the handler \<open>receive_data\<close> of \<open>src/server.py\<close> reads from a request:
  the JSON document Flask parses from the body (\<open>request.get_json()\<close>), Python's truth
  test on it (\<open>if sensor_id\<close>), \<open>dict.get\<close> on the parsed document, and Werkzeug's
  \<open>request.is_json\<close> test on the mimetype. These are library code, not code of the
  repository: they are modelled from the behaviour of Python, Flask and Werkzeug that the
  handler relies on.
\<close>

section \<open>JSON documents as Python values\<close>

text \<open>
  \<open>json.loads\<close> gives \<open>None\<close>, a \<open>bool\<close>, an \<open>int\<close> or \<open>float\<close>, a \<open>str\<close>, a
  \<open>list\<close> or a \<open>dict\<close>. Numbers are kept exactly as rationals (the rounding of
  floats is not modelled). An object keeps its members in document order, repeated keys
  included.
\<close>

datatype json =
    JNull
  | JBool bool
  | JNum rat
  | JStr string
  | JList "json list"
  | JObj "(string \<times> json) list"

text \<open>The Python exceptions that can leave the handler.\<close>

datatype py_exc =
    AttributeError    \<comment> \<open>\<open>.get\<close> called on a parsed document that is not a \<open>dict\<close>\<close>
  | BadRequest        \<comment> \<open>Werkzeug's error for a body that is not valid JSON\<close>
  | UnboundLocalError \<comment> \<open>a local variable read before its assignment\<close>
  | DatabaseError     \<comment> \<open>any \<open>psycopg2.Error\<close> raised by the database driver\<close>
  | OverflowError     \<comment> \<open>\<open>datetime\<close> arithmetic leaving the years 1 to 9999\<close>
  | ValueError        \<comment> \<open>\<open>int()\<close> of a string that is not a decimal integer\<close>

section \<open>Python's truth test\<close>

text \<open>
  \<open>if x:\<close> on a parsed value: \<open>None\<close>, \<open>False\<close>, zero, the empty string, the empty
  list and the empty dict are false. A JSON object is empty as a \<open>dict\<close> exactly when
  it has no members.
\<close>

fun py_truthy :: "json \<Rightarrow> bool" where
  "py_truthy JNull = False"
| "py_truthy (JBool b) = b"
| "py_truthy (JNum n) = (n \<noteq> 0)"
| "py_truthy (JStr s) = (s \<noteq> [])"
| "py_truthy (JList xs) = (xs \<noteq> [])"
| "py_truthy (JObj kvs) = (kvs \<noteq> [])"

section \<open>\<open>dict.get\<close> on a parsed document\<close>

text \<open>
  \<open>data.get(k)\<close> returns the value stored under \<open>k\<close>, or \<open>None\<close> when there is
  none; the value of a repeated key is that of its last occurrence. On anything but a
  \<open>dict\<close> the attribute \<open>get\<close> does not exist.
\<close>

definition obj_get :: "(string \<times> json) list \<Rightarrow> string \<Rightarrow> json" where
  "obj_get kvs k = (case map_of (rev kvs) k of None \<Rightarrow> JNull | Some v \<Rightarrow> v)"

fun dict_get :: "json \<Rightarrow> string \<Rightarrow> py_exc + json" where
  "dict_get (JObj kvs) k = Inr (obj_get kvs k)"
| "dict_get _ k = Inl AttributeError"

section \<open>The request\<close>

text \<open>
  What the handler sees of an HTTP request: its mimetype (the \<open>Content-Type\<close> without
  parameters, lower-cased by Werkzeug) and the result of parsing its body as JSON,
  \<open>None\<close> when the body is not a JSON document.
\<close>

record request =
  mimetype :: string
  payload :: "json option"

text \<open>
  Werkzeug's \<open>is_json\<close>: \<open>mt == "application/json" or
  (mt.startswith("application/") and mt.endswith("+json"))\<close>.
\<close>

definition is_json :: "request \<Rightarrow> bool" where
  "is_json req \<longleftrightarrow>
     mimetype req = ''application/json'' \<or>
     (take 12 (mimetype req) = ''application/'' \<and>
      drop (length (mimetype req) - 5) (mimetype req) = ''+json'')"

text \<open>
  \<open>request.get_json()\<close>, called only after \<open>is_json\<close> held: the parsed body, or
  \<open>BadRequest\<close> when it does not parse.
\<close>

definition get_json :: "request \<Rightarrow> py_exc + json" where
  "get_json req = (case payload req of None \<Rightarrow> Inl BadRequest | Some j \<Rightarrow> Inr j)"

end
