(* ===== verification/Store.thy ===== *)
theory Store
  imports Json
begin

text \<open>
  The table \<open>sensor_data(id, sensor_id, water_percentage, timestamp)\<close> that
  \<open>receive_data\<close> of \<open>src/server.py\<close> reads and writes, and the three statements it
  sends: the \<open>SELECT \<dots> ORDER BY timestamp DESC LIMIT 1\<close> of lines 62--69, the
  \<open>UPDATE \<dots> WHERE id = %s\<close> of lines 74--79 and the \<open>INSERT\<close> of lines 84--88.
  The table's schema is not part of the repository: it is modelled from the statements
  and the specification, with PostgreSQL's semantics for the key sequence (a sequence
  value once taken is not given back by a rollback). The table is a list of rows in scan
  order, which matters only for the choice among rows with equal timestamps.
\<close>

section \<open>Rows and the table\<close>

text \<open>The parameters are passed by psycopg2 as the handler received them.\<close>

record row =
  row_id :: row_key
  sensor_id :: json
  water_percentage :: json
  timestamp :: time

record db =
  rows :: "row list"
  next_id :: row_key

text \<open>A new table: no rows, and a key sequence that starts at 1.\<close>

definition empty_db :: db where
  "empty_db = \<lparr>rows = [], next_id = 1\<rparr>"

text \<open>
  Well-formed tables: the key is a key (no two rows share it) and every key was drawn
  from the sequence before its current value.
\<close>

definition wf_db :: "db \<Rightarrow> bool" where
  "wf_db d \<longleftrightarrow> distinct (map row_id (rows d)) \<and> (\<forall>r \<in> set (rows d). row_id r < next_id d)"

section \<open>The \<open>SELECT\<close>\<close>

text \<open>\<open>WHERE sensor_id = %s AND timestamp >= %s\<close>.\<close>

definition in_window :: "json \<Rightarrow> time \<Rightarrow> row \<Rightarrow> bool" where
  "in_window s w r \<longleftrightarrow> sensor_id r = s \<and> w \<le> timestamp r"

text \<open>
  \<open>ORDER BY timestamp DESC LIMIT 1\<close>: a row of greatest timestamp; among rows of equal
  timestamp the first in scan order.
\<close>

fun latest :: "row list \<Rightarrow> row option" where
  "latest [] = None"
| "latest (r # rs) =
     (case latest rs of
        None \<Rightarrow> Some r
      | Some r' \<Rightarrow> (if timestamp r < timestamp r' then Some r' else Some r))"

text \<open>\<open>SELECT id \<dots>\<close> followed by \<open>fetchone()\<close>: the key of that row, or nothing.\<close>

definition select_latest :: "row list \<Rightarrow> json \<Rightarrow> time \<Rightarrow> row_key option" where
  "select_latest rs s w = map_option row_id (latest (filter (in_window s w) rs))"

text \<open>
  What the statement promises, whichever row the database picks among equal
  timestamps: no answer exactly when no row matches, and otherwise the key of a matching
  row whose timestamp no matching row exceeds.
\<close>

definition select_spec :: "row list \<Rightarrow> json \<Rightarrow> time \<Rightarrow> row_key option \<Rightarrow> bool" where
  "select_spec rs s w res \<longleftrightarrow>
     (case res of
        None \<Rightarrow> \<not> (\<exists>r \<in> set rs. in_window s w r)
      | Some k \<Rightarrow> (\<exists>r \<in> set rs. row_id r = k \<and> in_window s w r \<and>
                    (\<forall>r' \<in> set rs. in_window s w r' \<longrightarrow> timestamp r' \<le> timestamp r)))"

section \<open>The \<open>UPDATE\<close> and the \<open>INSERT\<close>\<close>

text \<open>\<open>UPDATE sensor_data SET water_percentage = %s, timestamp = %s WHERE id = %s\<close>.\<close>

definition update_row :: "db \<Rightarrow> row_key \<Rightarrow> json \<Rightarrow> time \<Rightarrow> db" where
  "update_row d k wp t =
     d\<lparr>rows := map_where (\<lambda>r. row_id r = k)
                 (\<lambda>r. r\<lparr>water_percentage := wp, timestamp := t\<rparr>) (rows d)\<rparr>"

text \<open>
  \<open>INSERT INTO sensor_data (sensor_id, water_percentage, timestamp) VALUES (\<dots>)\<close>:
  the key is the next value of the sequence.
\<close>

definition insert_row :: "db \<Rightarrow> json \<Rightarrow> json \<Rightarrow> time \<Rightarrow> db" where
  "insert_row d s wp t =
     \<lparr>rows = rows d @ [\<lparr>row_id = next_id d, sensor_id = s, water_percentage = wp,
                         timestamp = t\<rparr>],
      next_id = Suc (next_id d)\<rparr>"

section \<open>Transactions\<close>

text \<open>
  psycopg2 opens a transaction with the first statement of a connection. \<open>commit()\<close>
  makes the working state of the transaction the committed one; \<open>rollback()\<close> keeps the
  committed rows, but the sequence stays where the transaction left it.
\<close>

definition rollback :: "db \<Rightarrow> db \<Rightarrow> db" where
  "rollback committed work = committed\<lparr>next_id := next_id work\<rparr>"

section \<open>Lemmas: the \<open>SELECT\<close>\<close>

lemma latest_None_iff [simp]: "latest rs = None \<longleftrightarrow> rs = []"
  by (induction rs) (auto split: option.splits)

lemma latest_Some_mem: "latest rs = Some r \<Longrightarrow> r \<in> set rs"
  by (induction rs arbitrary: r) (auto split: option.splits if_splits)

lemma latest_Some_max:
  "latest rs = Some r \<Longrightarrow> r' \<in> set rs \<Longrightarrow> timestamp r' \<le> timestamp r"
proof (induction rs arbitrary: r)
  case Nil
  then show ?case by simp
next
  case (Cons x rs)
  show ?case
  proof (cases "latest rs")
    case None
    with Cons.prems show ?thesis by simp
  next
    case (Some y)
    with Cons.IH [of y] Cons.prems show ?thesis
      by (auto split: if_splits)
  qed
qed

lemma select_latest_None_iff:
  "select_latest rs s w = None \<longleftrightarrow> (\<forall>r \<in> set rs. \<not> in_window s w r)"
  by (auto simp: select_latest_def filter_empty_conv)

lemma select_latest_SomeE:
  assumes "select_latest rs s w = Some k"
  obtains r where "r \<in> set rs" "row_id r = k" "in_window s w r"
    "\<And>r'. r' \<in> set rs \<Longrightarrow> in_window s w r' \<Longrightarrow> timestamp r' \<le> timestamp r"
proof -
  from assms obtain r where r: "latest (filter (in_window s w) rs) = Some r" "row_id r = k"
    by (auto simp: select_latest_def)
  from latest_Some_mem [OF r(1)] have "r \<in> set rs" "in_window s w r" by auto
  moreover have "timestamp r' \<le> timestamp r" if "r' \<in> set rs" "in_window s w r'" for r'
    using latest_Some_max [OF r(1)] that by simp
  ultimately show ?thesis using r(2) that by blast
qed

section \<open>Lemmas: the writes\<close>

lemma rows_update_row [store_simps]:
  "rows (update_row d k wp t) =
     map_where (\<lambda>r. row_id r = k) (\<lambda>r. r\<lparr>water_percentage := wp, timestamp := t\<rparr>) (rows d)"
  by (simp add: update_row_def)

lemma next_id_update_row [store_simps]: "next_id (update_row d k wp t) = next_id d"
  by (simp add: update_row_def)

lemma rows_insert_row [store_simps]:
  "rows (insert_row d s wp t) =
     rows d @ [\<lparr>row_id = next_id d, sensor_id = s, water_percentage = wp, timestamp = t\<rparr>]"
  by (simp add: insert_row_def)

lemma next_id_insert_row [store_simps]: "next_id (insert_row d s wp t) = Suc (next_id d)"
  by (simp add: insert_row_def)

lemma rows_rollback [store_simps]: "rows (rollback c w) = rows c"
  by (simp add: rollback_def)

lemma next_id_rollback [store_simps]: "next_id (rollback c w) = next_id w"
  by (simp add: rollback_def)

lemma map_row_id_update_row:
  "map row_id (rows (update_row d k wp t)) = map row_id (rows d)"
  by (simp add: store_simps map_map_where_keep)

lemma map_sensor_id_update_row:
  "map sensor_id (rows (update_row d k wp t)) = map sensor_id (rows d)"
  by (simp add: store_simps map_map_where_keep)

lemma set_rows_update_row:
  "set (rows (update_row d k wp t)) =
     {r\<lparr>water_percentage := wp, timestamp := t\<rparr> | r. r \<in> set (rows d) \<and> row_id r = k} \<union>
     {r. r \<in> set (rows d) \<and> row_id r \<noteq> k}"
  by (simp add: store_simps set_map_where)

lemma wf_update_row: "wf_db d \<Longrightarrow> wf_db (update_row d k wp t)"
  unfolding wf_db_def
  by (auto simp: map_row_id_update_row next_id_update_row set_rows_update_row)

lemma wf_insert_row: "wf_db d \<Longrightarrow> wf_db (insert_row d s wp t)"
  by (auto simp: wf_db_def store_simps)

lemma wf_rollback: "wf_db c \<Longrightarrow> next_id c \<le> next_id w \<Longrightarrow> wf_db (rollback c w)"
  by (auto simp: wf_db_def store_simps)

lemma wf_empty_db: "wf_db empty_db"
  by (simp add: wf_db_def empty_db_def)


section \<open>The \<open>SELECT\<close> meets its contract\<close>

text \<open>
  C8 (the query refines its SQL meaning). The executable \<open>SELECT \<dots> ORDER BY timestamp
  DESC LIMIT 1\<close> returns no key exactly when no row of the sensor has a timestamp at or
  after the window start, and otherwise the key of such a row whose timestamp no such row
  exceeds.
\<close>

lemma select_latest_meets_spec: "select_spec rs s w (select_latest rs s w)"
proof (cases "select_latest rs s w")
  case None
  then have "\<forall>r \<in> set rs. \<not> in_window s w r" by (simp add: select_latest_None_iff)
  with None show ?thesis by (simp add: select_spec_def)
next
  case (Some k)
  then obtain r where "r \<in> set rs" "row_id r = k" "in_window s w r"
    "\<And>r'. r' \<in> set rs \<Longrightarrow> in_window s w r' \<Longrightarrow> timestamp r' \<le> timestamp r"
    by (rule select_latest_SomeE) blast+
  with Some show ?thesis by (auto simp: select_spec_def)
qed

lemma select_latest_meets_spec_witness:
  "select_spec
     [\<lparr>row_id = 1, sensor_id = JStr ''tank-1'', water_percentage = JNum 42, timestamp = 0\<rparr>,
      \<lparr>row_id = 2, sensor_id = JStr ''tank-1'', water_percentage = JNum 50, timestamp = 95\<rparr>,
      \<lparr>row_id = 3, sensor_id = JStr ''tank-2'', water_percentage = JNum 7, timestamp = 99\<rparr>]
     (JStr ''tank-1'') 0 (Some 2)"
  using select_latest_meets_spec [of
     "[\<lparr>row_id = 1, sensor_id = JStr ''tank-1'', water_percentage = JNum 42, timestamp = 0\<rparr>,
       \<lparr>row_id = 2, sensor_id = JStr ''tank-1'', water_percentage = JNum 50, timestamp = 95\<rparr>,
       \<lparr>row_id = 3, sensor_id = JStr ''tank-2'', water_percentage = JNum 7, timestamp = 99\<rparr>]"
     "JStr ''tank-1''" 0]
  by (simp add: select_latest_def in_window_def)

text \<open>
  C9 (the choice among equal timestamps is the only freedom). When the table's keys are
  keys and no two matching rows share a timestamp, every answer the database may give
  under the contract is the one the model computes: the model's tie-break (scan order)
  decides nothing else.
\<close>

lemma select_spec_unique:
  assumes "select_spec rs s w res" and "distinct (map row_id rs)"
    and "\<forall>r \<in> set rs. \<forall>r' \<in> set rs. in_window s w r \<and> in_window s w r' \<and>
           timestamp r = timestamp r' \<longrightarrow> r = r'"
  shows "res = select_latest rs s w"
proof (cases res)
  case None
  with assms(1) have "\<forall>r \<in> set rs. \<not> in_window s w r" by (simp add: select_spec_def)
  then have "select_latest rs s w = None" by (simp add: select_latest_None_iff)
  with None show ?thesis by simp
next
  case (Some k)
  with assms(1) obtain r where r: "r \<in> set rs" "row_id r = k" "in_window s w r"
      "\<forall>r' \<in> set rs. in_window s w r' \<longrightarrow> timestamp r' \<le> timestamp r"
    by (auto simp: select_spec_def)
  then have "select_latest rs s w \<noteq> None"
    by (auto simp: select_latest_None_iff)
  then obtain k' where k': "select_latest rs s w = Some k'" by blast
  then obtain r' where r': "r' \<in> set rs" "row_id r' = k'" "in_window s w r'"
      "\<And>x. x \<in> set rs \<Longrightarrow> in_window s w x \<Longrightarrow> timestamp x \<le> timestamp r'"
    by (rule select_latest_SomeE) blast+
  have "timestamp r = timestamp r'"
    using r r' by (meson order_antisym)
  with assms(3) r r' have "r = r'" by blast
  with Some k' r r' show ?thesis by simp
qed

lemma select_spec_unique_witness:
  "select_spec
     [\<lparr>row_id = 1, sensor_id = JStr ''tank-1'', water_percentage = JNum 42, timestamp = 0\<rparr>,
      \<lparr>row_id = 2, sensor_id = JStr ''tank-1'', water_percentage = JNum 50, timestamp = 95\<rparr>]
     (JStr ''tank-1'') 0 (Some 2) \<and>
   Some 2 = select_latest
     [\<lparr>row_id = 1, sensor_id = JStr ''tank-1'', water_percentage = JNum 42, timestamp = 0\<rparr>,
      \<lparr>row_id = 2, sensor_id = JStr ''tank-1'', water_percentage = JNum 50, timestamp = 95\<rparr>]
     (JStr ''tank-1'') 0"
proof -
  let ?rs = "[\<lparr>row_id = 1, sensor_id = JStr ''tank-1'', water_percentage = JNum 42, timestamp = 0\<rparr>,
      \<lparr>row_id = 2, sensor_id = JStr ''tank-1'', water_percentage = JNum 50, timestamp = (95::time)\<rparr>]"
  have h1: "select_spec ?rs (JStr ''tank-1'') 0 (Some 2)"
    by (simp add: select_spec_def in_window_def)
  have h2: "distinct (map row_id ?rs)" by simp
  have h3: "\<forall>r \<in> set ?rs. \<forall>r' \<in> set ?rs. in_window (JStr ''tank-1'') 0 r \<and>
      in_window (JStr ''tank-1'') 0 r' \<and> timestamp r = timestamp r' \<longrightarrow> r = r'"
    by simp
  show ?thesis using h1 select_spec_unique [OF h1 h2 h3] by simp
qed

end
