(* ===== verification/Calendar.thy ===== *)
theory Calendar
  imports Prelude "HOL-Library.Product_Lexorder"
begin

text \<open>
  The proleptic Gregorian calendar of Python's \<open>datetime\<close> module, on which the
  arrival time \<open>datetime.now()\<close> of \<open>receive_data\<close> (\<open>src/server.py\<close>, line 49) and
  the window start \<open>current_time - timedelta(minutes=1)\<close> (line 59) are computed. A
  \<open>datetime\<close> stores its date as year, month and day and does its arithmetic on the
  ordinal of the day (1 January of year 1 is day 1). The module is not part of the
  repository; the definitions translate the helpers \<open>_is_leap\<close>,
  \<open>_days_before_year\<close>, \<open>_days_in_month\<close>, \<open>_days_before_month\<close>, \<open>_ymd2ord\<close> and
  \<open>_ord2ymd\<close> of CPython's reference implementation (\<open>Lib/datetime.py\<close>) line by line.
  The theory proves that \<open>_ord2ymd\<close>, which finds the year by peeling off 400-, 100-,
  4- and 1-year cycles and the month by the estimate \<open>(n + 50) >> 5\<close>, inverts
  \<open>_ymd2ord\<close> in both directions, and that \<open>_ymd2ord\<close> is strictly increasing in the
  lexicographic order of dates.
\<close>

section \<open>Definitions\<close>

text \<open>
  The tables \<open>_DAYS_IN_MONTH\<close> and \<open>_DAYS_BEFORE_MONTH\<close> keep the placeholder
  \<open>-1\<close> at index 0, as in the source, so that a month indexes them directly.
\<close>

definition is_leap :: "int \<Rightarrow> bool" where
  "is_leap year \<longleftrightarrow> year mod 4 = 0 \<and> (year mod 100 \<noteq> 0 \<or> year mod 400 = 0)"

definition days_before_year :: "int \<Rightarrow> int" where
  "days_before_year year = (let y = year - 1 in y * 365 + y div 4 - y div 100 + y div 400)"

definition DAYS_IN_MONTH :: "int list" where
  "DAYS_IN_MONTH = [-1, 31, 28, 31, 30, 31, 30, 31, 31, 30, 31, 30, 31]"

definition DAYS_BEFORE_MONTH :: "int list" where
  "DAYS_BEFORE_MONTH = [-1, 0, 31, 59, 90, 120, 151, 181, 212, 243, 273, 304, 334]"

definition days_in_month :: "int \<Rightarrow> int \<Rightarrow> int" where
  "days_in_month year month =
     (if month = 2 \<and> is_leap year then 29 else DAYS_IN_MONTH ! nat month)"

definition days_before_month :: "int \<Rightarrow> int \<Rightarrow> int" where
  "days_before_month year month =
     DAYS_BEFORE_MONTH ! nat month + (if month > 2 \<and> is_leap year then 1 else 0)"

definition ymd2ord :: "int \<Rightarrow> int \<Rightarrow> int \<Rightarrow> int" where
  "ymd2ord year month day = days_before_year year + days_before_month year month + day"

text \<open>
  \<open>_ord2ymd\<close>: the offset \<open>n - 1\<close> is split by \<open>divmod\<close> by the lengths \<open>_DI400Y\<close>,
  \<open>_DI100Y\<close> and \<open>_DI4Y\<close> of 400, 100 and 4 years (module constants, computed as
  \<open>_days_before_year(401)\<close>, \<open>(101)\<close> and \<open>(5)\<close>) and by 365, which counts the
  400-year, 100-year, 4-year and 1-year cycles before the day; a fourth 100-year or 1-year cycle can only be the last
  day of the cycle before (31 December). Otherwise the month is estimated as
  \<open>(n + 50) >> 5\<close> and lowered by one when the estimate is too large.
\<close>

definition ord2ymd :: "int \<Rightarrow> int \<times> int \<times> int" where
  "ord2ymd n0 =
     (let n = n0 - 1;
          n400 = n div days_before_year 401; n = n mod days_before_year 401;
          year = n400 * 400 + 1;
          n100 = n div days_before_year 101; n = n mod days_before_year 101;
          n4 = n div days_before_year 5; n = n mod days_before_year 5;
          n1 = n div 365; n = n mod 365;
          year = year + n100 * 100 + n4 * 4 + n1
      in if n1 = 4 \<or> n100 = 4 then (year - 1, 12, 31)
         else
           (let leapyear = (n1 = 3 \<and> (n4 \<noteq> 24 \<or> n100 = 3));
                month = drop_bit 5 (n + 50);
                preceding = DAYS_BEFORE_MONTH ! nat month + (if month > 2 \<and> leapyear then 1 else 0);
                (month, preceding) =
                  (if preceding > n
                   then (month - 1, preceding -
                          (DAYS_IN_MONTH ! nat (month - 1) + (if month - 1 = 2 \<and> leapyear then 1 else 0)))
                   else (month, preceding))
            in (year, month, n - preceding + 1)))"

text \<open>A date the constructor \<open>date(year, month, day)\<close> accepts, the year range apart.\<close>

definition valid_date :: "int \<Rightarrow> int \<Rightarrow> int \<Rightarrow> bool" where
  "valid_date y m d \<longleftrightarrow> 1 \<le> m \<and> m \<le> 12 \<and> 1 \<le> d \<and> d \<le> days_in_month y m"

section \<open>Years\<close>

lemma DI_values [simp]:
  "days_before_year 401 = 146097" "days_before_year 101 = 36524" "days_before_year 5 = 1461"
  by (simp_all add: days_before_year_def)

lemma days_before_year_Suc:
  "days_before_year (y + 1) = days_before_year y + 365 + (if is_leap y then 1 else 0)"
proof -
  have d1: "y mod 400 = 0 \<Longrightarrow> y mod 100 = 0" by (auto simp: mod_eq_0_iff_dvd elim: dvdE)
  have d2: "y mod 100 = 0 \<Longrightarrow> y mod 4 = 0" by (auto simp: mod_eq_0_iff_dvd elim: dvdE)
  have e: "days_before_year (y + 1) - days_before_year y =
      365 + (y div 4 - (y - 1) div 4) - (y div 100 - (y - 1) div 100) + (y div 400 - (y - 1) div 400)"
    by (simp add: days_before_year_def Let_def algebra_simps)
  have a: "y div 4 - (y - 1) div 4 = (if y mod 4 = 0 then 1 else 0)" using int_div_pred [of 4 y] by simp
  have b: "y div 100 - (y - 1) div 100 = (if y mod 100 = 0 then 1 else 0)"
    using int_div_pred [of 100 y] by simp
  have c: "y div 400 - (y - 1) div 400 = (if y mod 400 = 0 then 1 else 0)"
    using int_div_pred [of 400 y] by simp
  show ?thesis using e unfolding a b c is_leap_def using d1 d2 by (simp split: if_splits)
qed

lemma days_before_year_cycle:
  assumes "0 \<le> a" "a \<le> 3" "0 \<le> b" "b \<le> 24" "0 \<le> c" "c \<le> 3"
  shows "days_before_year (400 * q + 100 * a + 4 * b + c + 1) =
         146097 * q + 36524 * a + 1461 * b + 365 * c"
proof -
  let ?y = "400 * q + 100 * a + 4 * b + c"
  have "?y div 4 = 100 * q + 25 * a + b" using assms by (intro int_div_eqI) auto
  moreover have "?y div 100 = 4 * q + a" using assms by (intro int_div_eqI) auto
  moreover have "?y div 400 = q" using assms by (intro int_div_eqI) auto
  ultimately show ?thesis by (simp add: days_before_year_def)
qed

section \<open>Months: the estimate \<open>(n + 50) >> 5\<close>\<close>

lemma month_estimate:
  fixes n :: int
  assumes n: "0 \<le> n" "n < 365"
    and mo: "mo = drop_bit 5 (n + 50)"
    and pre: "pre = DAYS_BEFORE_MONTH ! nat mo + (if mo > 2 \<and> leap then 1 else 0)"
    and res: "(mo', pre') =
      (if pre > n then (mo - 1, pre - (DAYS_IN_MONTH ! nat (mo - 1) + (if mo - 1 = 2 \<and> leap then 1 else 0)))
       else (mo, pre))"
  shows "1 \<le> mo' \<and> mo' \<le> 12 \<and>
         pre' = DAYS_BEFORE_MONTH ! nat mo' + (if mo' > 2 \<and> leap then 1 else 0) \<and>
         pre' \<le> n \<and> n < pre' + DAYS_IN_MONTH ! nat mo' + (if mo' = 2 \<and> leap then 1 else 0)"
proof -
  have mo32: "mo = (n + 50) div 32" using mo by (simp add: drop_bit_eq_div)
  have e: "32 * ((n + 50) div 32) + (n + 50) mod 32 = n + 50" by (rule mult_div_mod_eq)
  have "0 \<le> (n + 50) mod 32" "(n + 50) mod 32 < 32" by simp_all
  then have lo: "32 * mo \<le> n + 50" and hi: "n + 50 < 32 * mo + 32"
    using e unfolding mo32 by linarith+
  have "1 \<le> mo" "mo \<le> 12" using n lo hi by linarith+
  then have "mo = 1 \<or> mo = 2 \<or> mo = 3 \<or> mo = 4 \<or> mo = 5 \<or> mo = 6 \<or> mo = 7 \<or> mo = 8 \<or>
             mo = 9 \<or> mo = 10 \<or> mo = 11 \<or> mo = 12" by presburger
  then show ?thesis
    using n lo hi res unfolding pre
    by (elim disjE) (cases leap; simp add: DAYS_BEFORE_MONTH_def DAYS_IN_MONTH_def split: if_splits)+
qed

section \<open>The leap-year test of \<open>_ord2ymd\<close>\<close>

text \<open>
  Inside a 400-year cycle, \<open>_ord2ymd\<close> decides leap years from the cycle counts
  (\<open>n1 == 3 and (n4 != 24 or n100 == 3)\<close>) instead of calling \<open>_is_leap\<close>; the two agree.
\<close>

lemma leap_cycle:
  assumes "0 \<le> a" "a \<le> 3" "0 \<le> b" "b \<le> 24" "0 \<le> c" "c \<le> 3"
  shows "is_leap (400 * q + 100 * a + 4 * b + c + 1) \<longleftrightarrow> c = 3 \<and> (b \<noteq> 24 \<or> a = 3)"
proof (cases "c = 3")
  case False
  then have "(400 * q + 100 * a + 4 * b + c + 1) mod 4 = c + 1"
    using assms by (subst int_mod_eqI [where q = "100 * q + 25 * a + b"]) auto
  with False assms show ?thesis by (simp add: is_leap_def)
next
  case c3: True
  have m4: "(400 * q + 100 * a + 4 * b + c + 1) mod 4 = 0"
    using assms c3 by (subst int_mod_eqI [where q = "100 * q + 25 * a + b + 1"]) auto
  show ?thesis
  proof (cases "b = 24")
    case False
    then have "(400 * q + 100 * a + 4 * b + c + 1) mod 100 = 4 * b + 4"
      using assms c3 by (subst int_mod_eqI [where q = "4 * q + a"]) auto
    with False c3 m4 assms show ?thesis by (simp add: is_leap_def)
  next
    case b24: True
    have m100: "(400 * q + 100 * a + 4 * b + c + 1) mod 100 = 0"
      using assms c3 b24 by (subst int_mod_eqI [where q = "4 * q + a + 1"]) auto
    show ?thesis
    proof (cases "a = 3")
      case True
      then have "(400 * q + 100 * a + 4 * b + c + 1) mod 400 = 0"
        using c3 b24 by (subst int_mod_eqI [where q = "q + 1"]) auto
      with True c3 b24 m4 show ?thesis by (simp add: is_leap_def)
    next
      case False
      then have "(400 * q + 100 * a + 4 * b + c + 1) mod 400 = 100 * a + 100"
        using assms c3 b24 by (subst int_mod_eqI [where q = q]) auto
      with False c3 b24 m100 assms show ?thesis by (simp add: is_leap_def)
    qed
  qed
qed

section \<open>\<open>_ord2ymd\<close> inverts \<open>_ymd2ord\<close>\<close>

lemma ord2ymd_correct:
  assumes res: "ord2ymd n = (y, m, d)"
  shows "valid_date y m d \<and> ymd2ord y m d = n"
proof -
  define q where "q = (n - 1) div 146097"
  define r where "r = (n - 1) mod 146097"
  define a where "a = r div 36524"
  define r1 where "r1 = r mod 36524"
  define b where "b = r1 div 1461"
  define r2 where "r2 = r1 mod 1461"
  define c where "c = r2 div 365"
  define e where "e = r2 mod 365"
  note p0 = divmod_parts [of 146097 "n - 1", OF zero_less_numeral, folded q_def r_def]
  note p1 = divmod_parts [of 36524 r, OF zero_less_numeral, folded a_def r1_def]
  note p2 = divmod_parts [of 1461 r1, OF zero_less_numeral, folded b_def r2_def]
  note p3 = divmod_parts [of 365 r2, OF zero_less_numeral, folded c_def e_def]
  have a4: "0 \<le> a" "a \<le> 4"
    unfolding a_def using p0(2,3) zdiv_mono1 [of r 146096 36524] by simp_all
  have b24: "0 \<le> b" "b \<le> 24"
    unfolding b_def using p1(2,3) zdiv_mono1 [of r1 36523 1461] by simp_all
  have c4: "0 \<le> c" "c \<le> 4"
    unfolding c_def using p2(2,3) zdiv_mono1 [of r2 1460 365] by simp_all
  have ord: "ord2ymd n =
     (if c = 4 \<or> a = 4 then (q * 400 + 1 + a * 100 + b * 4 + c - 1, 12, 31)
      else
        (let leapyear = (c = 3 \<and> (b \<noteq> 24 \<or> a = 3));
             month = drop_bit 5 (e + 50);
             preceding = DAYS_BEFORE_MONTH ! nat month + (if month > 2 \<and> leapyear then 1 else 0);
             (month, preceding) =
               (if preceding > e
                then (month - 1, preceding -
                       (DAYS_IN_MONTH ! nat (month - 1) + (if month - 1 = 2 \<and> leapyear then 1 else 0)))
                else (month, preceding))
         in (q * 400 + 1 + a * 100 + b * 4 + c, month, e - preceding + 1)))"
    unfolding ord2ymd_def Let_def DI_values q_def [symmetric] r_def [symmetric] a_def [symmetric]
      r1_def [symmetric] b_def [symmetric] r2_def [symmetric] c_def [symmetric] e_def [symmetric] ..
  let ?Y = "q * 400 + 1 + a * 100 + b * 4 + c"
  show ?thesis
  proof (cases "c = 4 \<or> a = 4")
    case True
    with res ord have ymd: "y = ?Y - 1" "m = 12" "d = 31" by simp_all
    have dby: "days_before_year (?Y - 1 + 1) = n"
    proof (cases "a = 4")
      case True
      have "r1 = 0" using p1(1) p1(2) p0(3) True by linarith
      then have z: "b = 0" "r2 = 0" using p2(1) p2(2) b24(1) by linarith+
      then have "c = 0" using p3(1) p3(2) c4(1) by linarith
      have Y: "?Y - 1 + 1 = 400 * (q + 1) + 100 * 0 + 4 * 0 + 0 + 1"
        using True z \<open>c = 0\<close> by simp
      have "n = 146097 * (q + 1) + 36524 * 0 + 1461 * 0 + 365 * 0"
        using p0(1) p1(1) True \<open>r1 = 0\<close> by (simp add: algebra_simps)
      then show ?thesis unfolding Y using days_before_year_cycle [of 0 0 0 "q + 1"] by simp
    next
      case False
      with \<open>c = 4 \<or> a = 4\<close> have "c = 4" by simp
      then have "e = 0" using p2(3) p3(1) p3(2) by linarith
      have "b \<le> 23" using p1(3) p2(1) p3(1) \<open>c = 4\<close> \<open>e = 0\<close> by linarith
      have Y: "?Y - 1 + 1 = 400 * q + 100 * a + 4 * (b + 1) + 0 + 1"
        using \<open>c = 4\<close> by simp
      have "n = 146097 * q + 36524 * a + 1461 * (b + 1) + 365 * 0"
        using p0(1) p1(1) p2(1) p3(1) \<open>c = 4\<close> \<open>e = 0\<close> by (simp add: algebra_simps)
      then show ?thesis unfolding Y
        using days_before_year_cycle [of a "b + 1" 0 q] a4(1) False a4(2) b24(1) \<open>b \<le> 23\<close>
        by simp
    qed
    have "ymd2ord (?Y - 1) 12 31 = days_before_year (?Y - 1 + 1)"
      by (simp only: days_before_year_Suc) (simp add: ymd2ord_def days_before_month_def
          DAYS_BEFORE_MONTH_def)
    then have "ymd2ord (?Y - 1) 12 31 = n" using dby by (rule trans)
    then show ?thesis using ymd
      by (simp add: valid_date_def days_in_month_def DAYS_IN_MONTH_def)
  next
    case False
    then have a3: "a \<le> 3" and c3: "c \<le> 3" using a4 c4 by simp_all
    let ?L = "c = 3 \<and> (b \<noteq> 24 \<or> a = 3)"
    have Yf: "?Y = 400 * q + 100 * a + 4 * b + c + 1" by simp
    have leap: "is_leap ?Y \<longleftrightarrow> ?L"
      unfolding Yf using leap_cycle a4(1) a3 b24 c4(1) c3 by blast
    have dby: "days_before_year ?Y = n - 1 - e"
      unfolding Yf using days_before_year_cycle a4(1) a3 b24 c4(1) c3 p0 p1 p2 p3 by simp
    define mo where "mo = drop_bit 5 (e + 50)"
    define pre where "pre = DAYS_BEFORE_MONTH ! nat mo + (if mo > 2 \<and> ?L then 1 else 0)"
    obtain mo' pre' where mp: "(mo', pre') =
      (if pre > e then (mo - 1, pre - (DAYS_IN_MONTH ! nat (mo - 1) + (if mo - 1 = 2 \<and> ?L then 1 else 0)))
       else (mo, pre))"
      by (metis surj_pair)
    have "ord2ymd n = (?Y, mo', e - pre' + 1)"
      unfolding ord using False mp [symmetric]
      by (simp only: Let_def mo_def [symmetric] pre_def [symmetric] if_False) simp
    with res have ymd: "y = ?Y" "m = mo'" "d = e - pre' + 1" by simp_all
    have est: "1 \<le> mo' \<and> mo' \<le> 12 \<and>
         pre' = DAYS_BEFORE_MONTH ! nat mo' + (if mo' > 2 \<and> ?L then 1 else 0) \<and>
         pre' \<le> e \<and> e < pre' + DAYS_IN_MONTH ! nat mo' + (if mo' = 2 \<and> ?L then 1 else 0)"
      using p3(2,3) mo_def pre_def mp by (rule month_estimate)
    have dim: "days_in_month ?Y mo' = DAYS_IN_MONTH ! nat mo' + (if mo' = 2 \<and> ?L then 1 else 0)"
      using leap by (simp add: days_in_month_def DAYS_IN_MONTH_def)
    have dbm: "days_before_month ?Y mo' = pre'"
      using leap est by (simp add: days_before_month_def)
    show ?thesis using ymd est dim dbm dby
      by (simp add: valid_date_def ymd2ord_def)
  qed
qed

section \<open>\<open>_ymd2ord\<close> is increasing\<close>

lemma days_before_year_mono:
  assumes "y \<le> y'"
  shows "days_before_year y \<le> days_before_year y'"
  using assms
proof (induction y' rule: int_ge_induct)
  case (step i)
  then show ?case using days_before_year_Suc [of i] by simp
qed simp

lemma month_cases:
  assumes "1 \<le> m" "m \<le> (12::int)"
  shows "m = 1 \<or> m = 2 \<or> m = 3 \<or> m = 4 \<or> m = 5 \<or> m = 6 \<or> m = 7 \<or> m = 8 \<or>
         m = 9 \<or> m = 10 \<or> m = 11 \<or> m = 12"
  using assms by presburger

lemma days_before_month_Suc:
  assumes "1 \<le> m" "m < 12"
  shows "days_before_month y (m + 1) = days_before_month y m + days_in_month y m"
  using month_cases [of m] assms
  by (auto simp: days_before_month_def days_in_month_def DAYS_BEFORE_MONTH_def DAYS_IN_MONTH_def)

lemma days_before_month_12:
  "days_before_month y 12 + days_in_month y 12 = 365 + (if is_leap y then 1 else 0)"
  by (simp add: days_before_month_def days_in_month_def DAYS_BEFORE_MONTH_def DAYS_IN_MONTH_def)

lemma days_in_month_pos:
  assumes "1 \<le> m" "m \<le> 12"
  shows "28 \<le> days_in_month y m"
  using month_cases [OF assms]
  by (elim disjE) (simp_all add: days_in_month_def DAYS_IN_MONTH_def)

lemma days_before_month_mono:
  assumes "1 \<le> m" "m < m'" "m' \<le> 12"
  shows "days_before_month y m + days_in_month y m \<le> days_before_month y m'"
proof -
  have "m' \<le> 12 \<longrightarrow> days_before_month y m + days_in_month y m \<le> days_before_month y m'"
  proof (rule int_gr_induct [OF assms(2)])
    show "m + 1 \<le> 12 \<longrightarrow> days_before_month y m + days_in_month y m \<le> days_before_month y (m + 1)"
      using assms(1) days_before_month_Suc [of m y] by simp
  next
    fix i assume "m < i" "i \<le> 12 \<longrightarrow> days_before_month y m + days_in_month y m \<le> days_before_month y i"
    then show "i + 1 \<le> 12 \<longrightarrow> days_before_month y m + days_in_month y m \<le> days_before_month y (i + 1)"
      using days_before_month_Suc [of i y] days_in_month_pos [of i y] assms(1) by auto
  qed
  with assms show ?thesis by simp
qed

lemma days_before_month_nonneg:
  assumes "1 \<le> m" "m \<le> 12"
  shows "0 \<le> days_before_month y m"
  using month_cases [OF assms] by (auto simp: days_before_month_def DAYS_BEFORE_MONTH_def)

lemma ymd2ord_in_year:
  assumes "valid_date y m d"
  shows "days_before_year y < ymd2ord y m d \<and> ymd2ord y m d \<le> days_before_year (y + 1)"
proof -
  have m: "1 \<le> m" "m \<le> 12" "1 \<le> d" "d \<le> days_in_month y m"
    using assms by (simp_all add: valid_date_def)
  have "days_before_month y m + days_in_month y m \<le> 365 + (if is_leap y then 1 else 0)"
  proof (cases "m = 12")
    case False
    then show ?thesis using days_before_month_mono [of m 12 y] days_before_month_12 [of y] m
      days_in_month_pos [of 12 y] by (cases "is_leap y") simp_all
  qed (simp add: days_before_month_12)
  then show ?thesis using m days_before_month_nonneg [of m y] days_before_year_Suc [of y]
    by (simp add: ymd2ord_def)
qed

lemma ymd2ord_less:
  assumes v: "valid_date y m d" "valid_date y' m' d'"
    and lt: "(y, m, d) < (y', m', d')"
  shows "ymd2ord y m d < ymd2ord y' m' d'"
proof -
  consider "y < y'" | "y = y'" "m < m'" | "y = y'" "m = m'" "d < d'"
    using lt by (auto simp: less_prod_def le_less)
  then show ?thesis
  proof cases
    case 1
    then show ?thesis using ymd2ord_in_year [OF v(1)] ymd2ord_in_year [OF v(2)]
      days_before_year_mono [of "y + 1" y'] by simp
  next
    case 2
    then show ?thesis using v days_before_month_mono [of m m' y]
      by (simp add: valid_date_def ymd2ord_def)
  next
    case 3
    then show ?thesis by (simp add: ymd2ord_def)
  qed
qed

lemma ymd2ord_inj:
  assumes "valid_date y m d" "valid_date y' m' d'" "ymd2ord y m d = ymd2ord y' m' d'"
  shows "(y, m, d) = (y', m', d')"
  using ymd2ord_less [OF assms(1,2)] ymd2ord_less [OF assms(2,1)] assms(3)
  by (cases "(y, m, d)" "(y', m', d')" rule: linorder_cases) auto

section \<open>Round trips\<close>

text \<open>
  For every valid date (any year), converting it to its ordinal with \<open>_ymd2ord\<close> and
  back with \<open>_ord2ymd\<close> gives the same year, month and day (the other direction is
  \<open>ord2ymd_correct\<close>).
\<close>

lemma ord2ymd_ymd2ord:
  assumes "valid_date y m d"
  shows "ord2ymd (ymd2ord y m d) = (y, m, d)"
proof -
  obtain y' m' d' where r: "ord2ymd (ymd2ord y m d) = (y', m', d')" by (metis prod_cases3)
  from ord2ymd_correct [OF r] have "valid_date y' m' d'" "ymd2ord y' m' d' = ymd2ord y m d"
    by simp_all
  with assms r show ?thesis using ymd2ord_inj by metis
qed

end
