(* ===== verification/Datetime.thy ===== *)
theory Datetime
  imports Calendar Json
begin

text \<open>
  The time arithmetic of \<open>receive_data\<close> (\<open>src/server.py\<close>): \<open>current_time =
  datetime.now()\<close> (line 49) and \<open>one_minute_ago = current_time - timedelta(minutes=1)\<close>
  (line 59), the bound the \<open>SELECT\<close> compares the stored timestamps with. The classes
  \<open>timedelta\<close> and \<open>datetime\<close> are translated from CPython's reference implementation
  (\<open>Lib/datetime.py\<close>): the integer path of \<open>timedelta.__new__\<close>, \<open>timedelta.__add__\<close>,
  \<open>timedelta.__neg__\<close>, \<open>datetime.toordinal\<close>, \<open>datetime.__add__\<close> and
  \<open>datetime.__sub__\<close> with a \<open>timedelta\<close> operand, over the calendar of theory
  \<open>Calendar\<close>. Naive datetimes only: \<open>datetime.now()\<close> carries no time zone.

  The rest of the development measures time as an integer number of microseconds
  (type \<open>time\<close>), which is how PostgreSQL stores a \<open>timestamp\<close>. The function
  \<open>dt_us\<close> reads a \<open>datetime\<close> that way; the theorems show that \<open>datetime\<close>
  arithmetic is exact on that reading (a refinement), that it fails with
  \<open>OverflowError\<close> exactly when the result leaves the years 1 to 9999, and hence that
  line 59 computes \<open>dt_us now - one_minute\<close>, the window start the reconciler uses.
\<close>

section \<open>\<open>timedelta\<close>\<close>

text \<open>
  A \<open>timedelta\<close> is kept normalised: \<open>0 \<le> seconds < 86400\<close> and
  \<open>0 \<le> microseconds < 10^6\<close>, the days unbounded but for the check \<open>|d| \<le> 999999999\<close>.
\<close>

record timedelta =
  days :: int
  seconds :: int
  microseconds :: int

text \<open>
  \<open>timedelta(days, seconds, microseconds)\<close> with integer arguments, after the
  keyword arguments are folded in (\<open>seconds += minutes*60 + hours*3600\<close>). The
  fractional parts of the source are zero on this path; \<open>round(microseconds + 0.0)\<close>
  returns \<open>microseconds\<close>, which lies in \<open>[0, 10^6)\<close> at that point.
\<close>

definition timedelta_new :: "int \<Rightarrow> int \<Rightarrow> int \<Rightarrow> py_exc + timedelta" where
  "timedelta_new days0 seconds0 microseconds0 =
     (let d = days0;
          (dd, ss) = (seconds0 div (24 * 3600), seconds0 mod (24 * 3600));
          d = d + dd; s = ss;
          (ss, us0) = (microseconds0 div 1000000, microseconds0 mod 1000000);
          (dd, ss) = (ss div (24 * 3600), ss mod (24 * 3600));
          d = d + dd; s = s + ss;
          (ss, us) = (us0 div 1000000, us0 mod 1000000);
          s = s + ss;
          (dd, s) = (s div (24 * 3600), s mod (24 * 3600));
          d = d + dd
      in if 999999999 < \<bar>d\<bar> then Inl OverflowError
         else Inr \<lparr>days = d, seconds = s, microseconds = us\<rparr>)"

text \<open>\<open>timedelta.__add__\<close> and \<open>timedelta.__neg__\<close> add or negate the fields and normalise.\<close>

definition timedelta_add :: "timedelta \<Rightarrow> timedelta \<Rightarrow> py_exc + timedelta" where
  "timedelta_add self other =
     timedelta_new (days self + days other) (seconds self + seconds other)
       (microseconds self + microseconds other)"

definition timedelta_neg :: "timedelta \<Rightarrow> py_exc + timedelta" where
  "timedelta_neg self = timedelta_new (- days self) (- seconds self) (- microseconds self)"

section \<open>\<open>datetime\<close>\<close>

record datetime =
  year :: int
  month :: int
  day :: int
  hour :: int
  minute :: int
  second :: int
  microsecond :: int

definition MAXORDINAL :: int where
  "MAXORDINAL = 3652059"

definition toordinal :: "datetime \<Rightarrow> int" where
  "toordinal self = ymd2ord (year self) (month self) (day self)"

definition datetime_add :: "datetime \<Rightarrow> timedelta \<Rightarrow> py_exc + datetime" where
  "datetime_add self other =
     (case timedelta_new (toordinal self)
             (second self + minute self * 60 + hour self * 3600) (microsecond self) of
        Inl e \<Rightarrow> Inl e
      | Inr delta \<Rightarrow>
          (case timedelta_add delta other of
             Inl e \<Rightarrow> Inl e
           | Inr delta \<Rightarrow>
               (let (hr, rem) = (seconds delta div 3600, seconds delta mod 3600);
                    (mi, se) = (rem div 60, rem mod 60)
                in if 0 < days delta \<and> days delta \<le> MAXORDINAL
                   then (case ord2ymd (days delta) of (y, m, d) \<Rightarrow>
                          Inr \<lparr>year = y, month = m, day = d, hour = hr, minute = mi, second = se,
                               microsecond = microseconds delta\<rparr>)
                   else Inl OverflowError)))"

definition datetime_sub :: "datetime \<Rightarrow> timedelta \<Rightarrow> py_exc + datetime" where
  "datetime_sub self other =
     (case timedelta_neg other of Inl e \<Rightarrow> Inl e | Inr neg \<Rightarrow> datetime_add self neg)"

section \<open>The window start of \<open>receive_data\<close>\<close>

text \<open>\<open>timedelta(minutes=1)\<close>, as the microseconds the table's timestamps count.\<close>

definition one_minute :: time where
  "one_minute = 60 * 1000000"

definition one_minute_ago :: "datetime \<Rightarrow> py_exc + datetime" where
  "one_minute_ago current_time =
     (case timedelta_new 0 (0 + 1 * 60 + 0 * 3600) 0 of
        Inl e \<Rightarrow> Inl e
      | Inr delta \<Rightarrow> datetime_sub current_time delta)"

section \<open>Reading times as microseconds\<close>

text \<open>
  \<open>valid_datetime\<close> is what the constructor's \<open>_check_date_fields\<close> and
  \<open>_check_time_fields\<close> accept. \<open>td_us\<close> and \<open>dt_us\<close> read a \<open>timedelta\<close> and a
  \<open>datetime\<close> as a number of microseconds (the latter counted from the start of the
  day before 1 January of year 1, PostgreSQL's \<open>timestamp\<close> up to a constant offset);
  \<open>timedelta_of_us\<close> is the normal form of a number of microseconds.
\<close>

definition valid_datetime :: "datetime \<Rightarrow> bool" where
  "valid_datetime dt \<longleftrightarrow> 1 \<le> year dt \<and> year dt \<le> 9999 \<and> valid_date (year dt) (month dt) (day dt) \<and>
     0 \<le> hour dt \<and> hour dt \<le> 23 \<and> 0 \<le> minute dt \<and> minute dt \<le> 59 \<and>
     0 \<le> second dt \<and> second dt \<le> 59 \<and> 0 \<le> microsecond dt \<and> microsecond dt \<le> 999999"

definition td_us :: "timedelta \<Rightarrow> int" where
  "td_us td = (days td * 86400 + seconds td) * 1000000 + microseconds td"

definition dt_us :: "datetime \<Rightarrow> int" where
  "dt_us dt = (toordinal dt * 86400 + (hour dt * 3600 + minute dt * 60 + second dt)) * 1000000 +
     microsecond dt"


definition timedelta_of_us :: "int \<Rightarrow> timedelta" where
  "timedelta_of_us t = \<lparr>days = t div 1000000 div 86400, seconds = t div 1000000 mod 86400,
     microseconds = t mod 1000000\<rparr>"

section \<open>The normal form of \<open>timedelta\<close>\<close>

lemma timedelta_new_eq:
  "timedelta_new a b c =
     (let t = (a * 86400 + b) * 1000000 + c in
      if 999999999 < \<bar>t div 1000000 div 86400\<bar> then Inl OverflowError else Inr (timedelta_of_us t))"
proof -
  let ?t = "(a * 86400 + b) * 1000000 + c"
  have e3: "?t mod 1000000 = c mod 1000000"
    by (rule mod_mult_self3)
  have d: "?t div 1000000 = b + c div 1000000 + a * 86400"
  proof -
    have "?t div 1000000 = (a * 86400 + b) + c div 1000000"
      by (rule div_mult_self3) simp
    then show ?thesis by (simp only: ac_simps)
  qed
  have e1: "?t div 1000000 div 86400 =
      a + b div 86400 + c div 1000000 div 86400 + (b mod 86400 + c div 1000000 mod 86400) div 86400"
  proof -
    have "(b + c div 1000000 + a * 86400) div 86400 = a + (b + c div 1000000) div 86400"
      by (rule div_mult_self1) simp
    also have "(b + c div 1000000) div 86400 =
        b div 86400 + c div 1000000 div 86400 + (b mod 86400 + c div 1000000 mod 86400) div 86400"
      by (rule div_add1_eq)
    finally show ?thesis unfolding d by (simp only: add.assoc)
  qed
  have e2: "?t div 1000000 mod 86400 = (b mod 86400 + c div 1000000 mod 86400) mod 86400"
  proof -
    have "(b + c div 1000000 + a * 86400) mod 86400 = (b + c div 1000000) mod 86400"
      by (rule mod_mult_self1)
    also have "\<dots> = (b mod 86400 + c div 1000000 mod 86400) mod 86400" by (rule mod_add_eq [symmetric])
    finally show ?thesis unfolding d .
  qed
  have z: "c mod 1000000 div 1000000 = 0" "c mod 1000000 mod 1000000 = c mod 1000000"
    "(24 * 3600 :: int) = 86400" by simp_all
  show ?thesis
    unfolding timedelta_new_def timedelta_of_us_def Let_def prod.case e1 e2 e3 z add_0_right ..
qed

lemma timedelta_of_us_sel [simp]:
  "days (timedelta_of_us t) = t div 1000000 div 86400"
  "seconds (timedelta_of_us t) = t div 1000000 mod 86400"
  "microseconds (timedelta_of_us t) = t mod 1000000"
  by (simp_all add: timedelta_of_us_def)

lemma td_us_of_us [simp]: "td_us (timedelta_of_us t) = t"
proof -
  have "t div 1000000 div 86400 * 86400 + t div 1000000 mod 86400 = t div 1000000"
    by (rule div_mult_mod_eq)
  moreover have "t div 1000000 * 1000000 + t mod 1000000 = t" by (rule div_mult_mod_eq)
  ultimately show ?thesis by (simp add: td_us_def timedelta_of_us_def)
qed

lemma of_us_td_us:
  assumes "0 \<le> seconds td" "seconds td < 86400" "0 \<le> microseconds td" "microseconds td < 1000000"
  shows "timedelta_of_us (td_us td) = td"
proof -
  have a: "td_us td div 1000000 = days td * 86400 + seconds td"
    unfolding td_us_def using assms by (intro int_div_eqI) (simp_all add: algebra_simps)
  have b: "td_us td mod 1000000 = microseconds td"
    unfolding td_us_def using assms
    by (subst int_mod_eqI [where q = "days td * 86400 + seconds td"]) (simp_all add: algebra_simps)
  have c: "(days td * 86400 + seconds td) div 86400 = days td"
    using assms by (intro int_div_eqI) (simp_all add: algebra_simps)
  have e: "(days td * 86400 + seconds td) mod 86400 = seconds td"
    using assms by (subst int_mod_eqI [where q = "days td"]) (simp_all add: algebra_simps)
  show ?thesis using assms by (simp add: timedelta_of_us_def a b c e mod_pos_pos_trivial)
qed

section \<open>\<open>datetime.__add__\<close> on microseconds\<close>

lemma days_before_year_10000: "days_before_year 10000 = MAXORDINAL"
  by (simp add: days_before_year_def MAXORDINAL_def)

lemma ord2ymd_year_range:
  assumes "1 \<le> n" "n \<le> MAXORDINAL" "ord2ymd n = (y, m, d)"
  shows "1 \<le> y \<and> y \<le> 9999"
proof -
  from ord2ymd_correct [OF assms(3)] have v: "valid_date y m d" and o: "ymd2ord y m d = n" by simp_all
  from ymd2ord_in_year [OF v] o have A: "days_before_year y < n" "n \<le> days_before_year (y + 1)"
    by simp_all
  have dby1: "days_before_year 1 = 0" by (simp add: days_before_year_def)
  show ?thesis
  proof
    show "1 \<le> y"
    proof (rule ccontr)
      assume "\<not> 1 \<le> y"
      then have "days_before_year (y + 1) \<le> days_before_year 1" by (intro days_before_year_mono) simp
      with A assms(1) dby1 show False by simp
    qed
    show "y \<le> 9999"
    proof (rule ccontr)
      assume "\<not> y \<le> 9999"
      then have "days_before_year 10000 \<le> days_before_year y" by (intro days_before_year_mono) simp
      with A assms(2) days_before_year_10000 show False by simp
    qed
  qed
qed

lemma toordinal_range:
  assumes "valid_datetime dt"
  shows "1 \<le> toordinal dt \<and> toordinal dt \<le> MAXORDINAL"
proof -
  have v: "valid_date (year dt) (month dt) (day dt)" and y: "1 \<le> year dt" "year dt \<le> 9999"
    using assms by (simp_all add: valid_datetime_def)
  have "days_before_year 1 \<le> days_before_year (year dt)" "days_before_year (year dt + 1) \<le> days_before_year 10000"
    using y by (simp_all add: days_before_year_mono)
  then show ?thesis using ymd2ord_in_year [OF v] days_before_year_10000
    by (simp add: toordinal_def days_before_year_def)
qed

lemma dt_us_td_us:
  "dt_us dt = td_us \<lparr>days = toordinal dt, seconds = second dt + minute dt * 60 + hour dt * 3600,
                      microseconds = microsecond dt\<rparr>"
  by (simp add: dt_us_def td_us_def algebra_simps)

lemma timedelta_of_dt_us:
  assumes "valid_datetime dt"
  shows "timedelta_of_us (dt_us dt) = \<lparr>days = toordinal dt, seconds = second dt + minute dt * 60 + hour dt * 3600,
                      microseconds = microsecond dt\<rparr>"
  unfolding dt_us_td_us using assms by (intro of_us_td_us) (simp_all add: valid_datetime_def)

lemma datetime_add_eq:
  assumes "valid_datetime self"
  shows "datetime_add self other =
    (let T = dt_us self + td_us other; dd = T div 1000000 div 86400; s = T div 1000000 mod 86400 in
     if 0 < dd \<and> dd \<le> MAXORDINAL
     then (case ord2ymd dd of (y, m, d) \<Rightarrow>
             Inr \<lparr>year = y, month = m, day = d, hour = s div 3600, minute = s mod 3600 div 60,
                  second = s mod 3600 mod 60, microsecond = T mod 1000000\<rparr>)
     else Inl OverflowError)"
proof -
  let ?d0 = "\<lparr>days = toordinal self, seconds = second self + minute self * 60 + hour self * 3600,
              microseconds = microsecond self\<rparr>"
  have r: "1 \<le> toordinal self" "toordinal self \<le> MAXORDINAL" using toordinal_range [OF assms] by simp_all
  have t0: "dt_us self div 1000000 div 86400 = toordinal self"
    using timedelta_of_dt_us [OF assms] by (simp add: timedelta_of_us_def)
  have n0: "timedelta_new (toordinal self) (second self + minute self * 60 + hour self * 3600)
              (microsecond self) = Inr ?d0"
  proof -
    have "(toordinal self * 86400 + (second self + minute self * 60 + hour self * 3600)) * 1000000 +
          microsecond self = dt_us self" by (simp add: dt_us_def algebra_simps)
    then show ?thesis
      unfolding timedelta_new_eq Let_def using r t0 timedelta_of_dt_us [OF assms]
      by (simp add: MAXORDINAL_def)
  qed
  have n1: "timedelta_add ?d0 other =
      (let T = dt_us self + td_us other in
       if 999999999 < \<bar>T div 1000000 div 86400\<bar> then Inl OverflowError else Inr (timedelta_of_us T))"
    unfolding timedelta_add_def timedelta_new_eq dt_us_td_us by (simp add: td_us_def algebra_simps)
  show ?thesis
    unfolding datetime_add_def n0 sum.case n1 by (auto simp: Let_def timedelta_of_us_def MAXORDINAL_def split: prod.split)
qed

lemma time_of_day_parts:
  assumes "0 \<le> (s::int)" "s < 86400"
  shows "0 \<le> s div 3600 \<and> s div 3600 \<le> 23 \<and> 0 \<le> s mod 3600 div 60 \<and> s mod 3600 div 60 \<le> 59 \<and>
         0 \<le> s mod 3600 mod 60 \<and> s mod 3600 mod 60 \<le> 59 \<and>
         s div 3600 * 3600 + s mod 3600 div 60 * 60 + s mod 3600 mod 60 = s"
proof -
  note p1 = divmod_parts [of 3600 s] and p2 = divmod_parts [of 60 "s mod 3600"]
  have "s div 3600 \<le> 23" using zdiv_mono1 [of s 86399 3600] assms by simp
  moreover have "s mod 3600 div 60 \<le> 59" using zdiv_mono1 [of "s mod 3600" 3599 60] p1 by simp
  ultimately show ?thesis using p1 p2 assms by (simp add: pos_imp_zdiv_nonneg_iff algebra_simps)
qed

lemma datetime_add_Inr:
  assumes v: "valid_datetime self" and r: "datetime_add self other = Inr dt"
  shows "valid_datetime dt \<and> dt_us dt = dt_us self + td_us other"
proof -
  define T where "T = dt_us self + td_us other"
  define dd where "dd = T div 1000000 div 86400"
  define s where "s = T div 1000000 mod 86400"
  obtain y m d where o: "ord2ymd dd = (y, m, d)" by (metis prod_cases3)
  have ok: "0 < dd \<and> dd \<le> MAXORDINAL"
    using r unfolding datetime_add_eq [OF v] by (auto simp: Let_def T_def [symmetric] dd_def split: if_splits)
  with r o have dt: "dt = \<lparr>year = y, month = m, day = d, hour = s div 3600, minute = s mod 3600 div 60,
                  second = s mod 3600 mod 60, microsecond = T mod 1000000\<rparr>"
    unfolding datetime_add_eq [OF v] by (simp add: Let_def T_def [symmetric] dd_def [symmetric] s_def)
  have c: "valid_date y m d \<and> ymd2ord y m d = dd" using ord2ymd_correct [OF o] .
  have yr: "1 \<le> y \<and> y \<le> 9999" using ok o by (intro ord2ymd_year_range) auto
  have s: "0 \<le> s" "s < 86400" by (simp_all add: s_def)
  note tod = time_of_day_parts [OF s]
  have us: "0 \<le> T mod 1000000" "T mod 1000000 < 1000000" by simp_all
  have "dd * 86400 + s = T div 1000000" by (simp add: dd_def s_def)
  moreover have "T div 1000000 * 1000000 + T mod 1000000 = T" by (rule div_mult_mod_eq)
  ultimately have "dt_us dt = T"
    using c tod by (simp add: dt dt_us_def toordinal_def algebra_simps)
  moreover have "valid_datetime dt" using c yr tod us by (simp add: dt valid_datetime_def)
  ultimately show ?thesis by (simp add: T_def)
qed

lemma datetime_add_Inl:
  assumes v: "valid_datetime self"
  shows "datetime_add self other = Inl e \<longleftrightarrow>
         e = OverflowError \<and>
         \<not> (0 < (dt_us self + td_us other) div 1000000 div 86400 \<and>
            (dt_us self + td_us other) div 1000000 div 86400 \<le> MAXORDINAL)"
  unfolding datetime_add_eq [OF v] by (auto simp: Let_def split: prod.split)

lemma timedelta_minutes_1: "timedelta_new 0 60 0 = Inr (timedelta_of_us one_minute)"
  by (simp add: timedelta_new_eq one_minute_def)

lemma one_minute_ago_add:
  "one_minute_ago now = datetime_add now (timedelta_of_us (- one_minute))"
proof -
  have "timedelta_neg (timedelta_of_us one_minute) = Inr (timedelta_of_us (- one_minute))"
    by (simp add: timedelta_neg_def timedelta_new_eq timedelta_of_us_def one_minute_def)
  then show ?thesis by (simp add: one_minute_ago_def timedelta_minutes_1 datetime_sub_def)
qed

lemma dt_us_day:
  assumes "valid_datetime dt"
  shows "dt_us dt div 1000000 div 86400 = toordinal dt"
  using timedelta_of_dt_us [OF assms] by (simp add: timedelta_of_us_def)


text \<open>
  The window start of line 59 on a valid arrival time: it raises \<open>OverflowError\<close>
  exactly when the result would fall before the first day of the calendar, and otherwise
  is a valid \<open>datetime\<close> one minute earlier.
\<close>

lemma one_minute_ago_window:
  assumes v: "valid_datetime now"
  shows "(one_minute_ago now = Inl e \<longleftrightarrow>
            e = OverflowError \<and> dt_us now - one_minute < 86400 * 1000000) \<and>
         (one_minute_ago now = Inr w \<longrightarrow> valid_datetime w \<and> dt_us w = dt_us now - one_minute)"
proof -
  let ?T = "dt_us now + td_us (timedelta_of_us (- one_minute))"
  have T: "?T = dt_us now - one_minute" by simp
  have up: "?T div 1000000 div 86400 \<le> MAXORDINAL"
  proof -
    have "?T div 1000000 \<le> dt_us now div 1000000" by (simp add: zdiv_mono1 one_minute_def)
    then have "?T div 1000000 div 86400 \<le> dt_us now div 1000000 div 86400" by (rule zdiv_mono1) simp
    then show ?thesis using dt_us_day [OF v] toordinal_range [OF v] by simp
  qed
  have lo: "0 < ?T div 1000000 div 86400 \<longleftrightarrow> \<not> dt_us now - one_minute < 86400 * 1000000"
  proof -
    have "?T div 1000000 div 86400 = ?T div (1000000 * 86400)" by (rule zdiv_zmult2_eq [symmetric]) simp
    then show ?thesis unfolding T by (simp add: pos_imp_zdiv_pos_iff not_less)
  qed
  have inl: "datetime_add now (timedelta_of_us (- one_minute)) = Inl e \<longleftrightarrow>
      e = OverflowError \<and> dt_us now - one_minute < 86400 * 1000000" for e
    using datetime_add_Inl [OF v, of "timedelta_of_us (- one_minute)" e] up lo by (simp only:) blast
  have inr: "datetime_add now (timedelta_of_us (- one_minute)) = Inr w \<Longrightarrow>
      valid_datetime w \<and> dt_us w = dt_us now - one_minute" for w
    using datetime_add_Inr [OF v] T by (simp only:)
  show ?thesis
    unfolding one_minute_ago_add using inl inr by blast
qed

section \<open>Properties\<close>

text \<open>
  C28 (the window start within a day). When the arrival time is at least one minute past
  midnight, \<open>current_time - timedelta(minutes=1)\<close> keeps the date (the round trip
  through \<open>_ymd2ord\<close> and \<open>_ord2ymd\<close> gives it back) and the microseconds, and moves the
  time of day one minute back.
\<close>

lemma one_minute_ago_same_day:
  assumes v: "valid_datetime now" and m: "60 \<le> hour now * 3600 + minute now * 60 + second now"
  shows "one_minute_ago now =
           (let s = hour now * 3600 + minute now * 60 + second now - 60
            in Inr (now\<lparr>hour := s div 3600, minute := s mod 3600 div 60, second := s mod 3600 mod 60\<rparr>))"
proof -
  define s where "s = hour now * 3600 + minute now * 60 + second now - 60"
  let ?td = "\<lparr>days = toordinal now, seconds = s, microseconds = microsecond now\<rparr>"
  have b: "0 \<le> s" "s < 86400" "0 \<le> microsecond now" "microsecond now < 1000000"
    using v m by (simp_all add: s_def valid_datetime_def)
  have T: "dt_us now - one_minute = td_us ?td"
    by (simp add: dt_us_def td_us_def s_def one_minute_def algebra_simps)
  have o: "timedelta_of_us (td_us ?td) = ?td" using b by (intro of_us_td_us) simp_all
  then have f: "td_us ?td div 1000000 div 86400 = toordinal now"
      "td_us ?td div 1000000 mod 86400 = s" "td_us ?td mod 1000000 = microsecond now"
    by (metis timedelta.select_convs timedelta_of_us_sel)+
  have ymd: "ord2ymd (toordinal now) = (year now, month now, day now)"
    using v by (simp add: toordinal_def valid_datetime_def ord2ymd_ymd2ord)
  show ?thesis
    using toordinal_range [OF v] ymd
    by (simp only: one_minute_ago_add datetime_add_eq [OF v] td_us_of_us diff_conv_add_uminus [symmetric]
        T f Let_def s_def [symmetric]) simp
qed

text \<open>
  C29 (the window start across midnight). In the first minute of any day but the first
  of the calendar, \<open>current_time - timedelta(minutes=1)\<close> is a valid \<open>datetime\<close> on the
  day before (its proleptic ordinal is one less: across month ends, leap days and year
  ends alike), at 23:59 with the same seconds and microseconds.
\<close>

lemma one_minute_ago_day_boundary:
  assumes v: "valid_datetime now" and m: "hour now = 0" "minute now = 0"
    and o: "1 < toordinal now"
  shows "\<exists>w. one_minute_ago now = Inr w \<and> valid_datetime w \<and> toordinal w = toordinal now - 1 \<and>
             hour w = 23 \<and> minute w = 59 \<and> second w = second now \<and>
             microsecond w = microsecond now"
proof -
  let ?td = "\<lparr>days = toordinal now - 1, seconds = 86340 + second now, microseconds = microsecond now\<rparr>"
  have b: "0 \<le> second now" "second now \<le> 59" "0 \<le> microsecond now" "microsecond now < 1000000"
    using v by (simp_all add: valid_datetime_def)
  have T: "dt_us now - one_minute = td_us ?td"
    by (simp add: dt_us_def td_us_def one_minute_def m algebra_simps)
  have td: "timedelta_of_us (td_us ?td) = ?td" using b by (intro of_us_td_us) simp_all
  have x: "86400 \<le> (toordinal now - 1) * 86400 + (86340 + second now)"
    unfolding left_diff_distrib using o b(1) by linarith
  then have "86400 * 1000000 \<le> ((toordinal now - 1) * 86400 + (86340 + second now)) * (1000000::int)"
    by (rule mult_right_mono) simp
  then have no: "\<not> dt_us now - one_minute < 86400 * 1000000"
    using b(3) unfolding T td_us_def timedelta.select_convs by linarith
  show ?thesis
  proof (cases "one_minute_ago now")
    case (Inl e)
    then show ?thesis using one_minute_ago_window [OF v, of e] no by blast
  next
    case (Inr w)
    then have w: "valid_datetime w" "dt_us w = dt_us now - one_minute"
      using one_minute_ago_window [OF v, of OverflowError w] by simp_all
    have "timedelta_of_us (dt_us w) = ?td" using w(2) T td by simp
    then have f: "toordinal w = toordinal now - 1"
        "second w + minute w * 60 + hour w * 3600 = 86340 + second now"
        "microsecond w = microsecond now"
      using timedelta_of_dt_us [OF w(1)] by simp_all
    have wb: "0 \<le> hour w" "hour w \<le> 23" "0 \<le> minute w" "minute w \<le> 59"
        "0 \<le> second w" "second w \<le> 59"
      using w(1) by (simp_all add: valid_datetime_def)
    have h: "hour w = 23"
    proof (rule ccontr)
      assume "hour w \<noteq> 23"
      with wb(2) have "hour w \<le> 22" by simp
      with f(2) wb(3-6) b(1) show False by linarith
    qed
    have mi: "minute w = 59"
    proof (rule ccontr)
      assume "minute w \<noteq> 59"
      with wb(4) have "minute w \<le> 58" by simp
      with f(2) h wb(5,6) b(1,2) show False by linarith
    qed
    have "second w = second now" using f(2) h mi by simp
    with h mi have "hour w = 23 \<and> minute w = 59 \<and> second w = second now" by simp
    with Inr w(1) f(1,3) show ?thesis by blast
  qed
qed

lemma one_minute_ago_day_boundary_witness:
  "ord2ymd (toordinal \<lparr>year = 2024, month = 3, day = 1, hour = 0, minute = 0, second = 30,
                      microsecond = 0\<rparr> - 1) = (2024, 2, 29) \<and>
   (\<exists>w. one_minute_ago \<lparr>year = 2024, month = 3, day = 1, hour = 0, minute = 0, second = 30,
                          microsecond = 0\<rparr> = Inr w \<and>
        toordinal w = toordinal \<lparr>year = 2024, month = 3, day = 1, hour = 0, minute = 0, second = 30,
                                 microsecond = 0\<rparr> - 1 \<and>
        hour w = 23 \<and> minute w = 59 \<and> second w = 30)"
proof -
  let ?a = "\<lparr>year = 2024, month = 3, day = 1, hour = 0, minute = 0, second = 30, microsecond = 0\<rparr>"
  have v: "valid_datetime ?a"
    by (simp add: valid_datetime_def valid_date_def days_in_month_def is_leap_def DAYS_IN_MONTH_def)
  have ord: "toordinal ?a = 738946"
    by (simp add: toordinal_def ymd2ord_def days_before_year_def days_before_month_def
        DAYS_BEFORE_MONTH_def is_leap_def)
  have o: "1 < toordinal ?a" by (simp add: ord)
  have m: "hour ?a = 0" "minute ?a = 0" by simp_all
  have "ord2ymd 738945 = (2024, 2, 29)"
    by (simp add: ord2ymd_def days_before_year_def days_before_month_def DAYS_BEFORE_MONTH_def
        DAYS_IN_MONTH_def days_in_month_def is_leap_def Let_def)
  then show ?thesis
    using one_minute_ago_day_boundary [OF v m o] ord by auto
qed

text \<open>
  C30 (the window start, line 59). For a valid arrival time \<open>now\<close>,
  \<open>now - timedelta(minutes=1)\<close> is the valid \<open>datetime\<close> one minute earlier, read in
  microseconds \<open>dt_us now - one_minute\<close>, the window start of the reconciler; it raises
  \<open>OverflowError\<close> only when \<open>now\<close> lies within one day and one minute of the start of
  year 1, where the result would leave the calendar.
\<close>

lemma one_minute_ago_refines:
  assumes v: "valid_datetime now"
  shows "map_sum id dt_us (one_minute_ago now) =
           (if dt_us now - one_minute < 86400 * 1000000 then Inl OverflowError
            else Inr (dt_us now - one_minute)) \<and>
         (\<forall>w. one_minute_ago now = Inr w \<longrightarrow> valid_datetime w)"
proof (cases "one_minute_ago now")
  case (Inl e)
  then show ?thesis using one_minute_ago_window [OF v, of e] by auto
next
  case (Inr w)
  then show ?thesis using one_minute_ago_window [OF v, of OverflowError w] by auto
qed

lemma one_minute_ago_refines_witness:
  "valid_datetime \<lparr>year = 2024, month = 3, day = 1, hour = 0, minute = 0, second = 30,
                   microsecond = 0\<rparr> \<and>
   map_sum id dt_us (one_minute_ago \<lparr>year = 2024, month = 3, day = 1, hour = 0, minute = 0,
                                    second = 30, microsecond = 0\<rparr>) =
     Inr (dt_us \<lparr>year = 2024, month = 3, day = 1, hour = 0, minute = 0, second = 30,
                 microsecond = 0\<rparr> - one_minute)"
proof -
  let ?a = "\<lparr>year = 2024, month = 3, day = 1, hour = 0, minute = 0, second = 30, microsecond = 0\<rparr>"
  have v: "valid_datetime ?a"
    by (simp add: valid_datetime_def valid_date_def days_in_month_def is_leap_def DAYS_IN_MONTH_def)
  have "\<not> dt_us ?a - one_minute < 86400 * 1000000"
    by (simp add: dt_us_def toordinal_def ymd2ord_def days_before_year_def days_before_month_def
        DAYS_BEFORE_MONTH_def is_leap_def one_minute_def)
  then show ?thesis using v one_minute_ago_refines [OF v] by simp
qed

lemma one_minute_ago_same_day_witness:
  "valid_datetime \<lparr>year = 2024, month = 2, day = 29, hour = 12, minute = 30, second = 15,
                   microsecond = 500000\<rparr> \<and>
   (60::int) \<le> 12 * 3600 + 30 * 60 + 15 \<and>
   one_minute_ago \<lparr>year = 2024, month = 2, day = 29, hour = 12, minute = 30, second = 15,
                   microsecond = 500000\<rparr> =
     Inr \<lparr>year = 2024, month = 2, day = 29, hour = 12, minute = 29, second = 15,
          microsecond = 500000\<rparr>"
proof -
  let ?a = "\<lparr>year = 2024, month = 2, day = 29, hour = 12, minute = 30, second = 15,
             microsecond = 500000\<rparr>"
  have v: "valid_datetime ?a"
    by (simp add: valid_datetime_def valid_date_def days_in_month_def is_leap_def DAYS_IN_MONTH_def)
  have m: "60 \<le> hour ?a * 3600 + minute ?a * 60 + second ?a" by simp
  show ?thesis using v m one_minute_ago_same_day [OF v m] by (simp add: Let_def)
qed

end
