(* ===== verification/Reconciler.thy ===== *)
theory Reconciler
  imports Store Datetime
begin

text \<open>
  The reading reconciler: the body of the \<open>try\<close> block of \<open>receive_data\<close> in
  \<open>src/server.py\<close> (lines 57--90) run to its end, without faults. It computes the start
  of the one-minute window, asks for the latest row of the sensor inside it, and updates
  that row or inserts a new one. The theory proves what the specification's
  properties P1, P2, P3 and P6 say of it, the exact boundary of the window, that each
  call writes exactly one row, and the invariant behind "one live record per sensor".
\<close>

section \<open>The upsert\<close>

text \<open>Which branch was taken, with the key of the row written (logging value only).\<close>

datatype branch = Updated row_key | Inserted row_key

definition reconcile :: "db \<Rightarrow> json \<Rightarrow> json \<Rightarrow> time \<Rightarrow> branch \<times> db" where
  "reconcile d s wp now =
     (case select_latest (rows d) s (now - one_minute) of
        Some k \<Rightarrow> (Updated k, update_row d k wp now)
      | None \<Rightarrow> (Inserted (next_id d), insert_row d s wp now))"

text \<open>
  The server handling its requests one after another: each reading
  \<open>(sensor, value, arrival time)\<close> reconciled against the table the previous one left.
\<close>

fun reconcile_all :: "db \<Rightarrow> (json \<times> json \<times> time) list \<Rightarrow> db" where
  "reconcile_all d [] = d"
| "reconcile_all d ((s, wp, t) # reqs) = reconcile_all (snd (reconcile d s wp t)) reqs"

section \<open>The invariant\<close>

text \<open>
  Every row lies in the past of \<open>now\<close>, and two rows of one sensor lie more than a
  minute apart. The specification's "at most one live record per sensor" follows.
\<close>

definition live_inv :: "db \<Rightarrow> time \<Rightarrow> bool" where
  "live_inv d now \<longleftrightarrow> wf_db d \<and> (\<forall>r \<in> set (rows d). timestamp r \<le> now) \<and>
     (\<forall>r \<in> set (rows d). \<forall>r' \<in> set (rows d).
        sensor_id r = sensor_id r' \<and> row_id r \<noteq> row_id r' \<longrightarrow>
        timestamp r + one_minute < timestamp r' \<or> timestamp r' + one_minute < timestamp r)"

text \<open>A table with one row of each of two sensors, for the examples below.\<close>

definition sample_db :: db where
  "sample_db =
     \<lparr>rows = [\<lparr>row_id = 1, sensor_id = JStr ''tank-1'', water_percentage = JNum 42, timestamp = 0\<rparr>,
              \<lparr>row_id = 2, sensor_id = JStr ''tank-2'', water_percentage = JNum 70,
               timestamp = 5000000\<rparr>],
      next_id = 3\<rparr>"

section \<open>Lemmas: the two branches\<close>

lemma reconcile_Some:
  "select_latest (rows d) s (now - one_minute) = Some k \<Longrightarrow>
   reconcile d s wp now = (Updated k, update_row d k wp now)"
  by (simp add: reconcile_def)

lemma reconcile_None:
  "select_latest (rows d) s (now - one_minute) = None \<Longrightarrow>
   reconcile d s wp now = (Inserted (next_id d), insert_row d s wp now)"
  by (simp add: reconcile_def)

lemma reconcile_no_live_row:
  "\<forall>r \<in> set (rows d). sensor_id r = s \<longrightarrow> timestamp r < now - one_minute \<Longrightarrow>
   reconcile d s wp now = (Inserted (next_id d), insert_row d s wp now)"
  by (rule reconcile_None) (force simp: select_latest_None_iff in_window_def)

lemma reconcile_live_row:
  assumes "r \<in> set (rows d)" "sensor_id r = s" "now - one_minute \<le> timestamp r"
  obtains k where "reconcile d s wp now = (Updated k, update_row d k wp now)"
proof (cases "select_latest (rows d) s (now - one_minute)")
  case None
  with assms show ?thesis by (auto simp: select_latest_None_iff in_window_def)
next
  case (Some k)
  then show ?thesis using that reconcile_Some by blast
qed

lemma wf_reconcile: "wf_db d \<Longrightarrow> wf_db (snd (reconcile d s wp now))"
  by (auto simp: reconcile_def wf_update_row wf_insert_row split: option.splits)

lemma live_inv_wf: "live_inv d now \<Longrightarrow> wf_db d"
  by (simp add: live_inv_def)

text \<open>
  The one fact of arithmetic the invariant needs: a row of the sensor inside the window
  and another row of it more than a minute apart leave the other one more than a minute
  behind \<open>now\<close>.
\<close>

lemma window_gap:
  fixes a b now :: time
  assumes "now - one_minute \<le> a" "a \<le> now" "b \<le> now"
    and "a + one_minute < b \<or> b + one_minute < a"
  shows "b + one_minute < now"
  using assms by linarith

lemma set_rows_update_row_key:
  assumes "wf_db d" "r0 \<in> set (rows d)" "row_id r0 = k"
  shows "set (rows (update_row d k wp t)) =
           insert (r0\<lparr>water_percentage := wp, timestamp := t\<rparr>) {r \<in> set (rows d). row_id r \<noteq> k}"
proof -
  have uniq: "r = r0" if "r \<in> set (rows d)" "row_id r = k" for r
    using assms that unfolding wf_db_def by (metis distinct_map_eq_on_set)
  have "{r\<lparr>water_percentage := wp, timestamp := t\<rparr> | r. r \<in> set (rows d) \<and> row_id r = k} =
        {r0\<lparr>water_percentage := wp, timestamp := t\<rparr>}"
    using uniq assms(2,3) by blast
  then show ?thesis by (simp add: set_rows_update_row)
qed
lemma live_inv_reconcile:
  assumes inv: "live_inv d t" and mono: "t \<le> now"
  shows "live_inv (snd (reconcile d s wp now)) now"
proof (cases "select_latest (rows d) s (now - one_minute)")
  case None
  then have ins: "reconcile d s wp now = (Inserted (next_id d), insert_row d s wp now)"
    by (rule reconcile_None)
  from None have old: "\<forall>r \<in> set (rows d). sensor_id r = s \<longrightarrow> timestamp r + one_minute < now"
    by (auto simp: select_latest_None_iff in_window_def)
  from inv have fresh: "\<forall>r \<in> set (rows d). row_id r \<noteq> next_id d"
    by (auto simp: live_inv_def wf_db_def)
  show ?thesis
    using inv mono old fresh wf_insert_row [OF live_inv_wf [OF inv]]
    unfolding ins live_inv_def by (auto simp: store_simps)
next
  case (Some k)
  then have upd: "reconcile d s wp now = (Updated k, update_row d k wp now)"
    by (rule reconcile_Some)
  from Some obtain r0 where r0: "r0 \<in> set (rows d)" "row_id r0 = k"
      "in_window s (now - one_minute) r0"
    by (rule select_latest_SomeE)
  have wf: "wf_db d" by (rule live_inv_wf [OF inv])
  let ?n = "r0\<lparr>water_percentage := wp, timestamp := now\<rparr>"
  have set': "set (rows (update_row d k wp now)) = insert ?n {r \<in> set (rows d). row_id r \<noteq> k}"
    by (rule set_rows_update_row_key [OF wf r0(1,2)])
  have past: "\<forall>r \<in> set (rows d). timestamp r \<le> now"
    using inv mono by (auto simp: live_inv_def)
  have sep: "sensor_id r = sensor_id r' \<Longrightarrow> row_id r \<noteq> row_id r' \<Longrightarrow>
      timestamp r + one_minute < timestamp r' \<or> timestamp r' + one_minute < timestamp r"
    if "r \<in> set (rows d)" "r' \<in> set (rows d)" for r r'
    using inv that by (auto simp: live_inv_def)
  have gap: "timestamp r + one_minute < now"
    if "r \<in> set (rows d)" "row_id r \<noteq> k" "sensor_id r = sensor_id r0" for r
  proof (rule window_gap)
    show "now - one_minute \<le> timestamp r0" "timestamp r0 \<le> now" "timestamp r \<le> now"
      using r0 past that by (auto simp: in_window_def)
    show "timestamp r0 + one_minute < timestamp r \<or> timestamp r + one_minute < timestamp r0"
      using sep [OF r0(1) that(1)] that r0(2) by auto
  qed
  have "wf_db (update_row d k wp now)" by (rule wf_update_row [OF wf])
  then show ?thesis
    unfolding upd live_inv_def snd_conv set'
    using past sep gap r0(2) by auto
qed

section \<open>Properties of one call and of serial runs\<close>

text \<open>
  C1 (insert on gap, P1). When no row of the sensor lies inside the window, the
  reconciler takes the insert branch and appends exactly one row, with the next key,
  the sensor, the value and the arrival time.
\<close>

lemma reconcile_insert_on_gap:
  assumes "\<forall>r \<in> set (rows d). sensor_id r = s \<longrightarrow> timestamp r < now - one_minute"
  shows "reconcile d s wp now = (Inserted (next_id d), insert_row d s wp now) \<and>
         rows (snd (reconcile d s wp now)) =
           rows d @ [\<lparr>row_id = next_id d, sensor_id = s, water_percentage = wp, timestamp = now\<rparr>]"
  using reconcile_no_live_row [OF assms] by (simp add: store_simps)

lemma reconcile_insert_on_gap_witness:
  "rows (snd (reconcile
     \<lparr>rows = [\<lparr>row_id = 1, sensor_id = JStr ''tank-1'', water_percentage = JNum 42,
               timestamp = 0\<rparr>], next_id = 2\<rparr> (JStr ''tank-1'') (JNum 50) 95000000)) =
     [\<lparr>row_id = 1, sensor_id = JStr ''tank-1'', water_percentage = JNum 42, timestamp = 0\<rparr>,
      \<lparr>row_id = 2, sensor_id = JStr ''tank-1'', water_percentage = JNum 50,
       timestamp = 95000000\<rparr>]"
proof -
  let ?d = "\<lparr>rows = [\<lparr>row_id = 1, sensor_id = JStr ''tank-1'', water_percentage = JNum 42,
               timestamp = 0\<rparr>], next_id = 2\<rparr>"
  have h: "\<forall>r \<in> set (rows ?d). sensor_id r = JStr ''tank-1'' \<longrightarrow>
             timestamp r < 95000000 - one_minute"
    by (simp add: one_minute_def)
  show ?thesis
    using reconcile_insert_on_gap [OF h, of "JNum 50"] by (simp add: store_simps)
qed

text \<open>
  C2 (coalesce within the window, P2). Two readings of a sensor that has no row yet,
  the second at most a minute after the first, leave exactly one row of the sensor: the
  row the first inserted, carrying the value and time of the second. The bound is
  inclusive, as the \<open>>=\<close> of the query is: at exactly one minute apart the readings
  still coalesce.
\<close>

lemma reconcile_coalesce:
  assumes "\<forall>r \<in> set (rows d). sensor_id r \<noteq> s" and "t2 \<le> t1 + one_minute"
  shows "filter (\<lambda>r. sensor_id r = s) (rows (reconcile_all d [(s, wp1, t1), (s, wp2, t2)])) =
           [\<lparr>row_id = next_id d, sensor_id = s, water_percentage = wp2, timestamp = t2\<rparr>]"
proof -
  let ?r1 = "\<lparr>row_id = next_id d, sensor_id = s, water_percentage = wp1, timestamp = t1\<rparr>"
  let ?d1 = "insert_row d s wp1 t1"
  have step1: "reconcile d s wp1 t1 = (Inserted (next_id d), ?d1)"
    using assms(1) by (intro reconcile_no_live_row) auto
  have "select_latest (rows ?d1) s (t2 - one_minute) = Some (next_id d)"
    using assms by (simp add: select_latest_def store_simps in_window_def)
  then have step2: "reconcile ?d1 s wp2 t2 = (Updated (next_id d), update_row ?d1 (next_id d) wp2 t2)"
    by (rule reconcile_Some)
  have other: "filter (\<lambda>r. sensor_id r = s)
      (map_where (\<lambda>r. row_id r = next_id d) (\<lambda>r. r\<lparr>water_percentage := wp2, timestamp := t2\<rparr>) (rows d)) = []"
    using assms(1) by (induction "rows d") (auto simp: filter_empty_conv set_map_where)
  show ?thesis
    using other by (simp add: step1 step2 store_simps)
qed

lemma reconcile_coalesce_witness:
  "(60000000::time) \<le> 0 + one_minute \<and>
   filter (\<lambda>r. sensor_id r = JStr ''tank-1'')
     (rows (reconcile_all empty_db [(JStr ''tank-1'', JNum 42, 0), (JStr ''tank-1'', JNum 45, 60000000)])) =
     [\<lparr>row_id = 1, sensor_id = JStr ''tank-1'', water_percentage = JNum 45, timestamp = 60000000\<rparr>]"
proof -
  have h1: "\<forall>r \<in> set (rows empty_db). sensor_id r \<noteq> JStr ''tank-1''"
    by (simp add: empty_db_def)
  have h2: "(60000000::time) \<le> 0 + one_minute"
    by (simp add: one_minute_def)
  show ?thesis
    using h2 reconcile_coalesce [OF h1 h2, of "JNum 42" "JNum 45"]
    by (simp add: empty_db_def)
qed

text \<open>
  C3 (split across the window, P3). Two readings of a sensor that has no row yet, the
  second more than a minute after the first, leave two rows of the sensor with
  consecutive keys, each carrying its own reading.
\<close>

lemma reconcile_split:
  assumes "\<forall>r \<in> set (rows d). sensor_id r \<noteq> s" and "t1 + one_minute < t2"
  shows "filter (\<lambda>r. sensor_id r = s) (rows (reconcile_all d [(s, wp1, t1), (s, wp2, t2)])) =
           [\<lparr>row_id = next_id d, sensor_id = s, water_percentage = wp1, timestamp = t1\<rparr>,
            \<lparr>row_id = Suc (next_id d), sensor_id = s, water_percentage = wp2, timestamp = t2\<rparr>]"
proof -
  let ?d1 = "insert_row d s wp1 t1"
  have step1: "reconcile d s wp1 t1 = (Inserted (next_id d), ?d1)"
    using assms(1) by (intro reconcile_no_live_row) auto
  have "\<forall>r \<in> set (rows ?d1). sensor_id r = s \<longrightarrow> timestamp r < t2 - one_minute"
    using assms by (auto simp: store_simps)
  then have step2: "reconcile ?d1 s wp2 t2 = (Inserted (next_id ?d1), insert_row ?d1 s wp2 t2)"
    by (rule reconcile_no_live_row)
  have "filter (\<lambda>r. sensor_id r = s) (rows d) = []"
    using assms(1) by (simp add: filter_empty_conv)
  then show ?thesis
    by (simp add: step1 step2 store_simps)
qed

lemma reconcile_split_witness:
  "30000000 + one_minute < (95000000::time) \<and>
   filter (\<lambda>r. sensor_id r = JStr ''tank-1'')
     (rows (reconcile_all empty_db [(JStr ''tank-1'', JNum 45, 30000000), (JStr ''tank-1'', JNum 50, 95000000)])) =
     [\<lparr>row_id = 1, sensor_id = JStr ''tank-1'', water_percentage = JNum 45, timestamp = 30000000\<rparr>,
      \<lparr>row_id = 2, sensor_id = JStr ''tank-1'', water_percentage = JNum 50, timestamp = 95000000\<rparr>]"
proof -
  have h1: "\<forall>r \<in> set (rows empty_db). sensor_id r \<noteq> JStr ''tank-1''"
    by (simp add: empty_db_def)
  have h2: "30000000 + one_minute < (95000000::time)"
    by (simp add: one_minute_def)
  show ?thesis
    using h2 reconcile_split [OF h1 h2, of "JNum 45" "JNum 50"]
    by (simp add: empty_db_def)
qed

text \<open>
  C4 (invariant). If every row lies in the past of the last arrival time \<open>t\<close> and two
  rows of a sensor lie more than a minute apart, a reading that arrives at \<open>now \<ge> t\<close>
  keeps both facts, with \<open>now\<close> as the new last arrival time.
\<close>

lemma reconcile_preserves_live_inv:
  assumes "live_inv d t" and "t \<le> now"
  shows "live_inv (snd (reconcile d s wp now)) now"
  using assms by (rule live_inv_reconcile)

text \<open>
  Under the invariant, two rows of one sensor whose timestamps both lie in the trailing
  minute before \<open>now\<close> are the same row.
\<close>

lemma live_inv_one_live_record:
  assumes "live_inv d now" "r \<in> set (rows d)" "r' \<in> set (rows d)"
    and "sensor_id r = sensor_id r'"
    and "now - one_minute \<le> timestamp r" "now - one_minute \<le> timestamp r'"
  shows "r = r'"
proof -
  from assms have "row_id r = row_id r'"
    unfolding live_inv_def by force
  with assms show ?thesis
    unfolding live_inv_def wf_db_def by (metis distinct_map_eq_on_set)
qed

lemma live_inv_empty_db: "live_inv empty_db t"
  by (simp add: live_inv_def wf_db_def empty_db_def)

lemma reconcile_all_live_inv:
  "live_inv d t \<Longrightarrow> sorted (t # map (\<lambda>q. snd (snd q)) reqs) \<Longrightarrow>
   live_inv (reconcile_all d reqs) (last (t # map (\<lambda>q. snd (snd q)) reqs))"
proof (induction reqs arbitrary: d t)
  case Nil
  then show ?case by simp
next
  case (Cons q reqs)
  obtain s wp t' where q: "q = (s, wp, t')" by (cases q) auto
  with Cons.prems have "t \<le> t'" and sorted': "sorted (t' # map (\<lambda>q. snd (snd q)) reqs)"
    by auto
  from Cons.prems(1) \<open>t \<le> t'\<close> have "live_inv (snd (reconcile d s wp t')) t'"
    by (rule live_inv_reconcile)
  from Cons.IH [OF this sorted'] show ?case
    by (simp add: q)
qed

text \<open>
  C5 (one live record per sensor, the specification's invariant of section 3). After
  any sequence of readings handled one after another, with arrival times that never go
  back, starting from an empty table: two rows of one sensor whose timestamps both lie
  within the minute before the last arrival are the same row.
\<close>

theorem serial_one_live_record:
  assumes "sorted (map (\<lambda>q. snd (snd q)) reqs)" and "reqs \<noteq> []"
    and "r \<in> set (rows (reconcile_all empty_db reqs))"
    and "r' \<in> set (rows (reconcile_all empty_db reqs))"
    and "sensor_id r = sensor_id r'"
    and "snd (snd (last reqs)) - one_minute \<le> timestamp r"
    and "snd (snd (last reqs)) - one_minute \<le> timestamp r'"
  shows "r = r'"
proof -
  let ?t0 = "snd (snd (hd reqs))"
  have "sorted (?t0 # map (\<lambda>q. snd (snd q)) reqs)"
    using assms(1,2) by (cases reqs) auto
  with live_inv_empty_db have "live_inv (reconcile_all empty_db reqs)
      (last (?t0 # map (\<lambda>q. snd (snd q)) reqs))"
    by (rule reconcile_all_live_inv)
  moreover have "last (?t0 # map (\<lambda>q. snd (snd q)) reqs) = snd (snd (last reqs))"
    using assms(2) by (simp add: last_map)
  ultimately show ?thesis
    using assms(3-7) live_inv_one_live_record by metis
qed

text \<open>
  C6 (isolation across sensors, P6). For a table whose keys are keys, a reading of
  sensor \<open>s\<close> leaves the rows of every other sensor exactly as they were, in order.
\<close>

lemma reconcile_isolation:
  assumes wf: "wf_db d"
  shows "filter (\<lambda>r. sensor_id r \<noteq> s) (rows (snd (reconcile d s wp now))) =
         filter (\<lambda>r. sensor_id r \<noteq> s) (rows d)"
proof (cases "select_latest (rows d) s (now - one_minute)")
  case None
  then show ?thesis by (simp add: reconcile_None store_simps)
next
  case (Some k)
  from Some obtain r0 where r0: "r0 \<in> set (rows d)" "row_id r0 = k"
      "in_window s (now - one_minute) r0"
    by (rule select_latest_SomeE)
  have "\<forall>r \<in> set (rows d). row_id r = k \<longrightarrow> sensor_id r = s"
    using wf r0 unfolding wf_db_def in_window_def by (metis distinct_map_eq_on_set)
  then show ?thesis
    by (simp add: reconcile_Some [OF Some] store_simps filter_map_where_keep)
qed

text \<open>
  C7 (exactly one write). For a table whose keys are keys, a reading either appends one
  row with the next key, or rewrites the value and timestamp of exactly one existing row
  of its sensor and nothing else; the branch reported names the key written.
\<close>

lemma reconcile_one_write:
  assumes wf: "wf_db d"
  shows "(reconcile d s wp now =
            (Inserted (next_id d), insert_row d s wp now) \<and>
          rows (snd (reconcile d s wp now)) =
            rows d @ [\<lparr>row_id = next_id d, sensor_id = s, water_percentage = wp, timestamp = now\<rparr>]) \<or>
         (\<exists>i < length (rows d). sensor_id (rows d ! i) = s \<and>
            fst (reconcile d s wp now) = Updated (row_id (rows d ! i)) \<and>
            rows (snd (reconcile d s wp now)) =
              (rows d)[i := (rows d ! i)\<lparr>water_percentage := wp, timestamp := now\<rparr>] \<and>
            next_id (snd (reconcile d s wp now)) = next_id d)"
proof (cases "select_latest (rows d) s (now - one_minute)")
  case None
  then show ?thesis by (simp add: reconcile_None store_simps)
next
  case (Some k)
  from Some obtain r0 where r0: "r0 \<in> set (rows d)" "row_id r0 = k"
      "in_window s (now - one_minute) r0"
    by (rule select_latest_SomeE)
  from r0(1) obtain i where i: "i < length (rows d)" "rows d ! i = r0"
    by (auto simp: in_set_conv_nth)
  have "map_where (\<lambda>r. row_id r = k) (\<lambda>r. r\<lparr>water_percentage := wp, timestamp := now\<rparr>) (rows d) =
        (rows d)[i := (rows d ! i)\<lparr>water_percentage := wp, timestamp := now\<rparr>]"
    using wf i r0(2) unfolding wf_db_def by (intro map_where_unique_key) auto
  with i r0 show ?thesis
    by (auto simp: reconcile_Some [OF Some] store_simps in_window_def)
qed

lemma reconcile_preserves_live_inv_witness:
  "live_inv sample_db 5000000 \<and> (5000000::time) \<le> 30000000 \<and>
   live_inv (snd (reconcile sample_db (JStr ''tank-1'') (JNum 45) 30000000)) 30000000"
proof -
  have h1: "live_inv sample_db 5000000"
    by (simp add: live_inv_def wf_db_def sample_db_def one_minute_def)
  have h2: "(5000000::time) \<le> 30000000" by simp
  show ?thesis using h1 h2 reconcile_preserves_live_inv [OF h1 h2] by simp
qed

lemma serial_one_live_record_witness:
  "sorted (map (\<lambda>q. snd (snd q))
      [(JStr ''tank-1'', JNum 42, 0), (JStr ''tank-1'', JNum 45, 30000000),
       (JStr ''tank-1'', JNum 50, 95000000::time)]) \<and>
   \<lparr>row_id = 2, sensor_id = JStr ''tank-1'', water_percentage = JNum 50, timestamp = 95000000\<rparr>
     \<in> set (rows (reconcile_all empty_db
      [(JStr ''tank-1'', JNum 42, 0), (JStr ''tank-1'', JNum 45, 30000000),
       (JStr ''tank-1'', JNum 50, 95000000)])) \<and>
   95000000 - one_minute \<le> (95000000::time) \<and>
   \<lparr>row_id = 2, sensor_id = JStr ''tank-1'', water_percentage = JNum 50, timestamp = 95000000\<rparr> =
   \<lparr>row_id = 2, sensor_id = JStr ''tank-1'', water_percentage = JNum 50, timestamp = 95000000\<rparr>"
proof -
  let ?reqs = "[(JStr ''tank-1'', JNum 42, 0), (JStr ''tank-1'', JNum 45, 30000000),
       (JStr ''tank-1'', JNum 50, 95000000::time)]"
  let ?r = "\<lparr>row_id = 2, sensor_id = JStr ''tank-1'', water_percentage = JNum 50,
              timestamp = 95000000\<rparr>"
  have h1: "sorted (map (\<lambda>q. snd (snd q)) ?reqs)" by simp
  have h2: "?reqs \<noteq> []" by simp
  have h3: "?r \<in> set (rows (reconcile_all empty_db ?reqs))"
    by (simp add: reconcile_def select_latest_def in_window_def one_minute_def empty_db_def
        update_row_def insert_row_def)
  have h4: "snd (snd (last ?reqs)) - one_minute \<le> timestamp ?r"
    by (simp add: one_minute_def)
  have "?r = ?r"
    by (rule serial_one_live_record [OF h1 h2 h3 h3 refl h4 h4])
  with h1 h3 h4 show ?thesis by simp
qed

lemma reconcile_isolation_witness:
  "wf_db sample_db \<and>
   filter (\<lambda>r. sensor_id r \<noteq> JStr ''tank-1'')
     (rows (snd (reconcile sample_db (JStr ''tank-1'') (JNum 45) 30000000))) =
   [\<lparr>row_id = 2, sensor_id = JStr ''tank-2'', water_percentage = JNum 70, timestamp = 5000000\<rparr>]"
proof -
  have h: "wf_db sample_db" by (simp add: wf_db_def sample_db_def)
  show ?thesis
    using h reconcile_isolation [OF h, of "JStr ''tank-1''" "JNum 45" 30000000]
    by (simp add: sample_db_def)
qed

lemma reconcile_one_write_witness:
  "wf_db sample_db \<and>
   (\<exists>i < length (rows sample_db). sensor_id (rows sample_db ! i) = JStr ''tank-1'' \<and>
      fst (reconcile sample_db (JStr ''tank-1'') (JNum 45) 30000000) =
        Updated (row_id (rows sample_db ! i)) \<and>
      rows (snd (reconcile sample_db (JStr ''tank-1'') (JNum 45) 30000000)) =
        (rows sample_db)[i := (rows sample_db ! i)\<lparr>water_percentage := JNum 45,
                                                    timestamp := 30000000\<rparr>] \<and>
      next_id (snd (reconcile sample_db (JStr ''tank-1'') (JNum 45) 30000000)) =
        next_id sample_db)"
proof -
  have h: "wf_db sample_db" by (simp add: wf_db_def sample_db_def)
  have ins: "reconcile sample_db (JStr ''tank-1'') (JNum 45) 30000000 \<noteq>
      (Inserted (next_id sample_db), insert_row sample_db (JStr ''tank-1'') (JNum 45) 30000000)"
    by (simp add: reconcile_def select_latest_def in_window_def one_minute_def sample_db_def)
  show ?thesis
    using h ins reconcile_one_write [OF h, of "JStr ''tank-1''" "JNum 45" 30000000] by blast
qed

text \<open>
  C27 (wall clock going back). The arrival time is \<open>datetime.now()\<close>, the local wall
  clock, which may be set back (a clock correction, the end of daylight saving time). When
  it reads \<open>now\<close> below the timestamp of a row of the sensor, while an older row of the
  sensor lies inside the window, the query (which has no upper bound) picks a row from the
  future and the update moves it back to \<open>now\<close>; the older row stays. Two rows of the
  sensor then lie inside the trailing minute: the one-live-record property needs arrival
  times that do not decrease.
\<close>

lemma reconcile_clock_backwards:
  assumes wf: "wf_db d"
    and r1: "r1 \<in> set (rows d)" "sensor_id r1 = s"
    and r2: "r2 \<in> set (rows d)" "sensor_id r2 = s"
    and order: "now - one_minute \<le> timestamp r1" "timestamp r1 < timestamp r2"
    and future: "now < timestamp r2"
  shows "\<exists>r \<in> set (rows d). sensor_id r = s \<and> now < timestamp r \<and> r \<noteq> r1 \<and>
           r\<lparr>water_percentage := wp, timestamp := now\<rparr> \<in> set (rows (snd (reconcile d s wp now))) \<and>
           r1 \<in> set (rows (snd (reconcile d s wp now)))"
proof -
  have w1: "in_window s (now - one_minute) r1" using r1 order(1) by (simp add: in_window_def)
  have w2: "in_window s (now - one_minute) r2" using r2 future by (simp add: in_window_def one_minute_def)
  obtain k where k: "select_latest (rows d) s (now - one_minute) = Some k"
    using w1 r1(1) select_latest_None_iff [of "rows d" s "now - one_minute"] by fastforce
  obtain r where r0: "r \<in> set (rows d)" "row_id r = k" "in_window s (now - one_minute) r"
      and max: "\<And>r'. r' \<in> set (rows d) \<Longrightarrow> in_window s (now - one_minute) r' \<Longrightarrow>
                      timestamp r' \<le> timestamp r"
    using select_latest_SomeE [OF k] by blast
  have r: "r \<in> set (rows d)" "row_id r = k" "in_window s (now - one_minute) r"
      "timestamp r2 \<le> timestamp r"
    using r0 max [OF r2(1) w2] by simp_all
  have ne: "r \<noteq> r1" using r(4) order(2) by auto
  have key: "row_id r1 \<noteq> k"
    using wf r(1,2) r1(1) ne unfolding wf_db_def by (metis distinct_map_eq_on_set)
  have "rows (snd (reconcile d s wp now)) =
        map_where (\<lambda>x. row_id x = k) (\<lambda>x. x\<lparr>water_percentage := wp, timestamp := now\<rparr>) (rows d)"
    by (simp add: reconcile_Some [OF k] store_simps)
  then have "r\<lparr>water_percentage := wp, timestamp := now\<rparr> \<in> set (rows (snd (reconcile d s wp now))) \<and>
             r1 \<in> set (rows (snd (reconcile d s wp now)))"
    using r(1,2) r1(1) key by (auto simp: set_map_where)
  moreover have "sensor_id r = s" "now < timestamp r" using r(3,4) future by (simp_all add: in_window_def)
  ultimately show ?thesis using r(1) ne by blast
qed

lemma reconcile_clock_backwards_witness:
  "\<lparr>row_id = 2, sensor_id = JStr ''tank-1'', water_percentage = JNum 50, timestamp = 30000000\<rparr>
     \<in> set (rows (snd (reconcile (reconcile_all empty_db
          [(JStr ''tank-1'', JNum 42, 0), (JStr ''tank-1'', JNum 45, 100000000)])
        (JStr ''tank-1'') (JNum 50) 30000000))) \<and>
   \<lparr>row_id = 1, sensor_id = JStr ''tank-1'', water_percentage = JNum 42, timestamp = 0\<rparr>
     \<in> set (rows (snd (reconcile (reconcile_all empty_db
          [(JStr ''tank-1'', JNum 42, 0), (JStr ''tank-1'', JNum 45, 100000000)])
        (JStr ''tank-1'') (JNum 50) 30000000)))"
proof -
  let ?d = "reconcile_all empty_db [(JStr ''tank-1'', JNum 42, 0), (JStr ''tank-1'', JNum 45, 100000000)]"
  let ?r1 = "\<lparr>row_id = 1, sensor_id = JStr ''tank-1'', water_percentage = JNum 42, timestamp = 0\<rparr>"
  let ?r2 = "\<lparr>row_id = 2, sensor_id = JStr ''tank-1'', water_percentage = JNum 45, timestamp = 100000000\<rparr>"
  have d: "?d = \<lparr>rows = [?r1, ?r2], next_id = 3\<rparr>"
    by (simp add: reconcile_def select_latest_def in_window_def one_minute_def empty_db_def insert_row_def)
  have wf: "wf_db ?d" unfolding d by (simp add: wf_db_def)
  have h: "?r1 \<in> set (rows ?d)" "?r2 \<in> set (rows ?d)" unfolding d by simp_all
  have sn: "sensor_id ?r1 = JStr ''tank-1''" "sensor_id ?r2 = JStr ''tank-1''" by simp_all
  have o: "30000000 - one_minute \<le> timestamp ?r1" "timestamp ?r1 < timestamp ?r2"
      "(30000000::time) < timestamp ?r2"
    by (simp_all add: one_minute_def)
  from reconcile_clock_backwards [OF wf h(1) sn(1) h(2) sn(2) o, of "JNum 50"]
  obtain r where r: "r \<in> set (rows ?d)" "r \<noteq> ?r1"
      "r\<lparr>water_percentage := JNum 50, timestamp := 30000000\<rparr> \<in>
         set (rows (snd (reconcile ?d (JStr ''tank-1'') (JNum 50) 30000000)))"
      "?r1 \<in> set (rows (snd (reconcile ?d (JStr ''tank-1'') (JNum 50) 30000000)))"
    by blast
  then have "r = ?r2" unfolding d by auto
  with r show ?thesis by simp
qed

end
