(* ===== verification/Handler.thy ===== *)
theory Handler
  imports Reconciler
begin

text \<open>
  The view function \<open>receive_data\<close> of \<open>src/server.py\<close> (lines 43--112) and the
  helper \<open>connect_db\<close> it calls (lines 19--40), with the configuration they read from
  the environment (lines 12--16). The handler is modelled whole: the content-type test,
  the JSON decoding, the validation, the connection, the \<open>try\<close>/\<open>except\<close>/\<open>finally\<close>
  around the statements, the commit and the rollback, the messages it prints and the
  responses it returns. What the database driver and the server do is not known to the
  code: which of its calls succeed is an oracle, a record \<open>faults\<close> of answers, so that
  every path through the handler is a value of the model. An exception that leaves the
  view is turned by Flask into its own error page: status 400 for Werkzeug's
  \<open>BadRequest\<close>, 500 for anything else. The arrival time is taken in microseconds;
  theory \<open>Clock\<close> runs the same view on the \<open>datetime\<close> of line 49.
\<close>

section \<open>Configuration and connection\<close>

text \<open>\<open>os.getenv\<close> of the five \<open>PG*\<close> variables: a string, or \<open>None\<close> when unset.\<close>

record config =
  pg_host :: "string option"
  pg_database :: "string option"
  pg_user :: "string option"
  pg_password :: "string option"
  pg_port :: "string option"

text \<open>\<open>if not PG_HOST\<close>: unset or empty.\<close>

definition env_unset :: "string option \<Rightarrow> bool" where
  "env_unset v \<longleftrightarrow> v = None \<or> v = Some []"

text \<open>What the handler prints, one constructor per \<open>print\<close> of the source.\<close>

datatype log_entry =
    Connected                 \<comment> \<open>line 30\<close>
  | Connect_error             \<comment> \<open>line 33\<close>
  | Env_unset string          \<comment> \<open>lines 35--39, naming the variable\<close>
  | Updated_record row_key    \<comment> \<open>line 81\<close>
  | Inserted_record           \<comment> \<open>line 90\<close>
  | Db_error                  \<comment> \<open>line 96\<close>
  | Invalid_data              \<comment> \<open>line 108\<close>
  | Not_json                  \<comment> \<open>line 111\<close>

definition unset_vars :: "config \<Rightarrow> log_entry list" where
  "unset_vars cfg =
     (if env_unset (pg_host cfg) then [Env_unset ''PGHOST''] else []) @
     (if env_unset (pg_database cfg) then [Env_unset ''PGDATABASE''] else []) @
     (if env_unset (pg_user cfg) then [Env_unset ''PGUSER''] else []) @
     (if env_unset (pg_password cfg) then [Env_unset ''PGPASSWORD''] else []) @
     (if env_unset (pg_port cfg) then [Env_unset ''PGPORT''] else [])"

text \<open>
  \<open>connect_db()\<close>: whether a connection was opened (the server's answer
  \<open>accepts\<close> to \<open>psycopg2.connect\<close>), and what was printed. A failed attempt
  returns \<open>None\<close> after printing the error and every unset variable.
\<close>

definition connect_db :: "config \<Rightarrow> bool \<Rightarrow> bool \<times> log_entry list" where
  "connect_db cfg accepts =
     (if accepts then (True, [Connected]) else (False, Connect_error # unset_vars cfg))"

section \<open>The driver's answers\<close>

text \<open>
  How \<open>conn.commit()\<close> ends: it succeeds, it raises with the transaction not
  committed, or it raises although the server did commit (the acknowledgement was lost
  with the connection).
\<close>

datatype commit_outcome = Commit_ok | Commit_fails | Commit_ack_lost

record faults =
  connect_ok :: bool
  cursor_ok :: bool
  select_ok :: bool
  write_ok :: bool
  commit_result :: commit_outcome
  rollback_ok :: bool

definition no_faults :: faults where
  "no_faults = \<lparr>connect_ok = True, cursor_ok = True, select_ok = True, write_ok = True,
                commit_result = Commit_ok, rollback_ok = True\<rparr>"

section \<open>Responses\<close>

datatype body = Message string | Error string

datatype response =
    Json_response nat body    \<comment> \<open>\<open>jsonify(...), status\<close> returned by the view\<close>
  | Flask_error nat           \<comment> \<open>Flask's error page for an exception that left the view\<close>

fun status :: "response \<Rightarrow> nat" where
  "status (Json_response c _) = c"
| "status (Flask_error c) = c"

text \<open>Flask's handling of an exception raised by the view.\<close>

fun flask_error :: "py_exc \<Rightarrow> response" where
  "flask_error BadRequest = Flask_error 400"
| "flask_error _ = Flask_error 500"

text \<open>
  What one request leaves behind: the response, the committed table, the printed lines,
  and whether the handler itself closed every connection it opened.
\<close>

record outcome =
  response :: response
  store :: db
  logs :: "log_entry list"
  conn_closed :: bool

section \<open>The transaction (lines 54--104)\<close>

text \<open>
  The \<open>except\<close> branch after a failure of a statement or of the commit, with the
  cursor assigned: print, \<open>conn.rollback()\<close>, return 500; the \<open>finally\<close> block then
  closes cursor and connection. If \<open>rollback()\<close> raises, the exception leaves the view
  after the same \<open>finally\<close>. \<open>committed\<close> is what the server holds committed;
  \<open>work\<close> the transaction's state when it failed (its sequence draws persist).
\<close>

definition tx_abort :: "faults \<Rightarrow> db \<Rightarrow> db \<Rightarrow> log_entry list \<Rightarrow> outcome" where
  "tx_abort f committed work printed =
     \<lparr>response = (if rollback_ok f then Json_response 500 (Error ''Failed to process data in DB'')
                 else flask_error DatabaseError),
      store = rollback committed work,
      logs = printed @ [Db_error],
      conn_closed = True\<rparr>"

text \<open>
  \<open>conn.commit()\<close> after the write, and the 200 response when it succeeds.
\<close>

definition tx_commit :: "faults \<Rightarrow> db \<Rightarrow> db \<Rightarrow> log_entry list \<Rightarrow> outcome" where
  "tx_commit f d work printed =
     (case commit_result f of
        Commit_ok \<Rightarrow>
          \<lparr>response = Json_response 200 (Message ''Data received and processed (upserted) in DB''),
           store = work, logs = printed, conn_closed = True\<rparr>
      | Commit_fails \<Rightarrow> tx_abort f d work printed
      | Commit_ack_lost \<Rightarrow> tx_abort f work work printed)"

text \<open>
  The \<open>try\<close> block. A failing \<open>conn.cursor()\<close> leaves \<open>cursor\<close> unassigned: the
  \<open>except\<close> branch prints and rolls back, and the \<open>finally\<close> block's
  \<open>if cursor:\<close> raises \<open>UnboundLocalError\<close>, which replaces the pending return and
  skips \<open>conn.close()\<close>. The select and the write follow lines 59--90; the printed line
  comes after the statement it reports.
\<close>

definition db_transaction :: "faults \<Rightarrow> db \<Rightarrow> json \<Rightarrow> json \<Rightarrow> time \<Rightarrow> outcome" where
  "db_transaction f d s wp now =
     (if \<not> cursor_ok f then
        \<lparr>response = flask_error UnboundLocalError, store = d, logs = [Db_error],
         conn_closed = False\<rparr>
      else if \<not> select_ok f then tx_abort f d d []
      else
        (case select_latest (rows d) s (now - one_minute) of
           Some k \<Rightarrow>
             (if \<not> write_ok f then tx_abort f d d []
              else tx_commit f d (update_row d k wp now) [Updated_record k])
         | None \<Rightarrow>
             (if \<not> write_ok f then tx_abort f d d []
              else tx_commit f d (insert_row d s wp now) [Inserted_record])))"

section \<open>The view function\<close>

text \<open>\<open>if sensor_id and water_percentage is not None\<close>.\<close>

definition valid_reading :: "json \<Rightarrow> json \<Rightarrow> bool" where
  "valid_reading s wp \<longleftrightarrow> py_truthy s \<and> wp \<noteq> JNull"

text \<open>An early return that touches neither the database nor a connection.\<close>

definition early :: "response \<Rightarrow> db \<Rightarrow> log_entry list \<Rightarrow> outcome" where
  "early r d printed = \<lparr>response = r, store = d, logs = printed, conn_closed = True\<rparr>"

definition receive_data :: "config \<Rightarrow> faults \<Rightarrow> time \<Rightarrow> request \<Rightarrow> db \<Rightarrow> outcome" where
  "receive_data cfg f now req d =
     (if \<not> is_json req then
        early (Json_response 400 (Error ''Request must be JSON'')) d [Not_json]
      else
        (case get_json req of
           Inl e \<Rightarrow> early (flask_error e) d []
         | Inr data \<Rightarrow>
             (case dict_get data ''sensor_id'' of
                Inl e \<Rightarrow> early (flask_error e) d []
              | Inr s \<Rightarrow>
                  (case dict_get data ''water_percentage'' of
                     Inl e \<Rightarrow> early (flask_error e) d []
                   | Inr wp \<Rightarrow>
                       (if valid_reading s wp then
                          (let (opened, printed) = connect_db cfg (connect_ok f) in
                           if opened then
                             (let res = db_transaction f d s wp now in res\<lparr>logs := printed @ logs res\<rparr>)
                           else early (Json_response 500 (Error ''Database connection failed'')) d printed)
                        else
                          early (Json_response 400
                            (Error ''Invalid data format. Missing sensor_id or water_percentage.''))
                            d [Invalid_data])))))"


text \<open>The line printed after a successful write (lines 81 and 90).\<close>

fun branch_log :: "branch \<Rightarrow> log_entry" where
  "branch_log (Updated k) = Updated_record k"
| "branch_log (Inserted k) = Inserted_record"

text \<open>The reading a request carries when its body is a JSON object.\<close>

definition reading_of :: "request \<Rightarrow> (json \<times> json) option" where
  "reading_of req =
     (case payload req of
        Some (JObj kvs) \<Rightarrow> Some (obj_get kvs ''sensor_id'', obj_get kvs ''water_percentage'')
      | _ \<Rightarrow> None)"

text \<open>Requests and a configuration for the examples below.\<close>

definition json_request :: "json \<Rightarrow> request" where
  "json_request j = \<lparr>mimetype = ''application/json'', payload = Some j\<rparr>"

definition reading_request :: "json \<Rightarrow> json \<Rightarrow> request" where
  "reading_request s wp = json_request (JObj [(''sensor_id'', s), (''water_percentage'', wp)])"

definition full_config :: config where
  "full_config = \<lparr>pg_host = Some ''db'', pg_database = Some ''railway'', pg_user = Some ''postgres'',
                  pg_password = Some ''secret'', pg_port = Some ''5432''\<rparr>"

section \<open>Lemmas: the branches of the view\<close>

lemma receive_data_not_json [handler_simps]:
  "\<not> is_json req \<Longrightarrow>
   receive_data cfg f now req d = early (Json_response 400 (Error ''Request must be JSON'')) d [Not_json]"
  by (simp add: receive_data_def)

lemma receive_data_bad_body [handler_simps]:
  "is_json req \<Longrightarrow> payload req = None \<Longrightarrow>
   receive_data cfg f now req d = early (Flask_error 400) d []"
  by (simp add: receive_data_def get_json_def)

lemma receive_data_not_object [handler_simps]:
  "is_json req \<Longrightarrow> payload req = Some j \<Longrightarrow> (\<forall>kvs. j \<noteq> JObj kvs) \<Longrightarrow>
   receive_data cfg f now req d = early (Flask_error 500) d []"
  by (cases j) (simp_all add: receive_data_def get_json_def)

lemma receive_data_object:
  "is_json req \<Longrightarrow> payload req = Some (JObj kvs) \<Longrightarrow>
   receive_data cfg f now req d =
     (if valid_reading (obj_get kvs ''sensor_id'') (obj_get kvs ''water_percentage'') then
        (if connect_ok f then
           (db_transaction f d (obj_get kvs ''sensor_id'') (obj_get kvs ''water_percentage'') now)
             \<lparr>logs := Connected # logs (db_transaction f d (obj_get kvs ''sensor_id'')
                                          (obj_get kvs ''water_percentage'') now)\<rparr>
         else early (Json_response 500 (Error ''Database connection failed'')) d
                (Connect_error # unset_vars cfg))
      else early (Json_response 400
             (Error ''Invalid data format. Missing sensor_id or water_percentage.'')) d [Invalid_data])"
  by (simp add: receive_data_def get_json_def connect_db_def Let_def)

lemma receive_data_cases:
  obtains (not_json) "\<not> is_json req"
    | (bad_body) "is_json req" "payload req = None"
    | (not_object) j where "is_json req" "payload req = Some j" "\<forall>kvs. j \<noteq> JObj kvs"
    | (object) kvs where "is_json req" "payload req = Some (JObj kvs)"
proof (cases "is_json req")
  case True
  show ?thesis
  proof (cases "payload req")
    case (Some j)
    with True that show ?thesis by (cases j) auto
  qed (use True that in auto)
qed (use that in auto)

section \<open>Lemmas: the transaction\<close>

lemmas tx_defs = tx_abort_def tx_commit_def early_def

lemma db_transaction_no_faults:
  "db_transaction no_faults d s wp now =
     \<lparr>response = Json_response 200 (Message ''Data received and processed (upserted) in DB''),
      store = snd (reconcile d s wp now), logs = [branch_log (fst (reconcile d s wp now))],
      conn_closed = True\<rparr>"
  by (simp add: db_transaction_def no_faults_def tx_defs reconcile_def split: option.splits)

lemma db_transaction_status:
  "status (response (db_transaction f d s wp now)) \<in> {200, 500}"
  by (simp add: db_transaction_def tx_defs split: option.splits commit_outcome.splits)

lemma db_transaction_rows:
  "commit_result f \<noteq> Commit_ack_lost \<Longrightarrow> status (response (db_transaction f d s wp now)) \<noteq> 200 \<Longrightarrow>
   rows (store (db_transaction f d s wp now)) = rows d"
  by (simp add: db_transaction_def tx_defs store_simps
      split: option.splits commit_outcome.splits if_splits)

lemma db_transaction_200:
  "status (response (db_transaction f d s wp now)) = 200 \<Longrightarrow>
   store (db_transaction f d s wp now) = snd (reconcile d s wp now)"
  by (simp add: db_transaction_def tx_defs reconcile_def split: option.splits commit_outcome.splits if_splits)

lemma db_transaction_closed:
  "cursor_ok f \<Longrightarrow> conn_closed (db_transaction f d s wp now)"
  by (simp add: db_transaction_def tx_defs split: option.splits commit_outcome.splits)

lemma db_transaction_logs:
  "status (response (db_transaction f d s wp now)) \<noteq> 200 \<Longrightarrow>
   Db_error \<in> set (logs (db_transaction f d s wp now))"
  by (simp add: db_transaction_def tx_defs split: option.splits commit_outcome.splits if_splits)


lemma reading_ofE:
  assumes "reading_of req = Some (s, wp)"
  obtains kvs where "payload req = Some (JObj kvs)" "s = obj_get kvs ''sensor_id''"
    "wp = obj_get kvs ''water_percentage''"
  using assms by (auto simp: reading_of_def split: option.splits json.splits)

lemma receive_data_reading:
  assumes "is_json req" "reading_of req = Some (s, wp)"
  shows "receive_data cfg f now req d =
     (if valid_reading s wp then
        (if connect_ok f then
           (db_transaction f d s wp now)\<lparr>logs := Connected # logs (db_transaction f d s wp now)\<rparr>
         else early (Json_response 500 (Error ''Database connection failed'')) d
                (Connect_error # unset_vars cfg))
      else early (Json_response 400
             (Error ''Invalid data format. Missing sensor_id or water_percentage.'')) d [Invalid_data])"
  using assms(2) by (rule reading_ofE) (simp add: receive_data_object [OF assms(1)])

lemma is_json_json_request [simp]: "is_json (json_request j)"
  by (simp add: is_json_def json_request_def)

lemma is_json_reading_request [simp]: "is_json (reading_request s wp)"
  by (simp add: reading_request_def)

lemma reading_of_reading_request [simp]:
  "reading_of (reading_request s wp) = Some (s, wp)"
  by (simp add: reading_of_def reading_request_def json_request_def obj_get_def)

text \<open>
  Whatever the driver does, the committed table after the transaction is either the
  reconciler's result (on a reading the view accepted), or has the rows it had before with the key sequence possibly
  advanced (a rolled-back \<open>INSERT\<close> keeps its sequence draw).
\<close>

lemma db_transaction_store:
  "store (db_transaction f d s wp now) = snd (reconcile d s wp now) \<or>
   (rows (store (db_transaction f d s wp now)) = rows d \<and>
    next_id d \<le> next_id (store (db_transaction f d s wp now)))"
  by (simp add: db_transaction_def tx_defs reconcile_def store_simps
      split: option.splits commit_outcome.splits)

lemma receive_data_store:
  "(\<exists>s wp. valid_reading s wp \<and> store (receive_data cfg f now req d) = snd (reconcile d s wp now)) \<or>
   (rows (store (receive_data cfg f now req d)) = rows d \<and>
    next_id d \<le> next_id (store (receive_data cfg f now req d)))"
proof (cases req rule: receive_data_cases)
  case (object kvs)
  then show ?thesis
    using db_transaction_store [of f d "obj_get kvs ''sensor_id''" "obj_get kvs ''water_percentage''" now]
    by (auto simp: receive_data_object early_def)
qed (simp_all add: handler_simps early_def)

section \<open>Properties of the view\<close>

text \<open>
  C10 (validation, P4). A JSON object whose \<open>sensor_id\<close> is missing or false (empty,
  zero, \<open>null\<close>) or whose \<open>water_percentage\<close> is missing or \<open>null\<close> is answered
  400 with the handler's error message, prints one line, opens no connection and leaves
  the table as it was.
\<close>

theorem receive_data_rejects_invalid:
  assumes "is_json req" and "payload req = Some (JObj kvs)"
    and "\<not> py_truthy (obj_get kvs ''sensor_id'') \<or> obj_get kvs ''water_percentage'' = JNull"
  shows "receive_data cfg f now req d =
     \<lparr>response = Json_response 400 (Error ''Invalid data format. Missing sensor_id or water_percentage.''),
      store = d, logs = [Invalid_data], conn_closed = True\<rparr>"
  using assms by (auto simp: receive_data_object early_def valid_reading_def)

lemma receive_data_rejects_invalid_witness:
  "receive_data full_config no_faults 0 (json_request (JObj [(''water_percentage'', JNum 42)])) empty_db =
     \<lparr>response = Json_response 400 (Error ''Invalid data format. Missing sensor_id or water_percentage.''),
      store = empty_db, logs = [Invalid_data], conn_closed = True\<rparr>"
proof -
  have h1: "is_json (json_request (JObj [(''water_percentage'', JNum 42)]))" by simp
  have h2: "payload (json_request (JObj [(''water_percentage'', JNum 42)])) =
      Some (JObj [(''water_percentage'', JNum 42)])"
    by (simp add: json_request_def)
  have h3: "\<not> py_truthy (obj_get [(''water_percentage'', JNum 42)] ''sensor_id'') \<or>
      obj_get [(''water_percentage'', JNum 42)] ''water_percentage'' = JNull"
    by (simp add: obj_get_def)
  show ?thesis by (rule receive_data_rejects_invalid [OF h1 h2 h3])
qed

text \<open>
  C11 (content type). A request whose mimetype is neither \<open>application/json\<close> nor
  \<open>application/\<dots>+json\<close> is answered 400 \<open>Request must be JSON\<close> without reading
  its body or touching the table.
\<close>

theorem receive_data_rejects_non_json:
  assumes "\<not> is_json req"
  shows "receive_data cfg f now req d =
     \<lparr>response = Json_response 400 (Error ''Request must be JSON''), store = d, logs = [Not_json],
      conn_closed = True\<rparr>"
  using assms by (simp add: receive_data_not_json early_def)

lemma receive_data_rejects_non_json_witness:
  "receive_data full_config no_faults 0
     \<lparr>mimetype = ''text/plain'', payload = Some (JObj [(''sensor_id'', JStr ''tank-1'')])\<rparr> empty_db =
     \<lparr>response = Json_response 400 (Error ''Request must be JSON''), store = empty_db, logs = [Not_json],
      conn_closed = True\<rparr>"
proof -
  have h: "\<not> is_json \<lparr>mimetype = ''text/plain'', payload = Some (JObj [(''sensor_id'', JStr ''tank-1'')])\<rparr>"
    by (simp add: is_json_def)
  show ?thesis by (rule receive_data_rejects_non_json [OF h])
qed

text \<open>
  C12 (atomicity, P5). Unless the server committed and only the acknowledgement of the
  commit was lost, a request that is not answered 200 leaves the rows of the table as
  they were: no partial update and no orphan insert survive a failed statement, a failed
  commit or a failed rollback.
\<close>

theorem receive_data_atomic:
  assumes "commit_result f \<noteq> Commit_ack_lost"
    and "status (response (receive_data cfg f now req d)) \<noteq> 200"
  shows "rows (store (receive_data cfg f now req d)) = rows d"
proof (cases req rule: receive_data_cases)
  case (object kvs)
  let ?s = "obj_get kvs ''sensor_id''" and ?wp = "obj_get kvs ''water_percentage''"
  show ?thesis
  proof (cases "valid_reading ?s ?wp \<and> connect_ok f")
    case True
    with assms(2) object have "status (response (db_transaction f d ?s ?wp now)) \<noteq> 200"
      by (simp add: receive_data_object)
    with assms(1) have "rows (store (db_transaction f d ?s ?wp now)) = rows d"
      by (rule db_transaction_rows)
    with True object show ?thesis by (simp add: receive_data_object)
  next
    case False
    with object show ?thesis by (auto simp: receive_data_object early_def)
  qed
qed (simp_all add: handler_simps early_def)

lemma receive_data_atomic_witness:
  "rows (store (receive_data full_config (no_faults\<lparr>write_ok := False\<rparr>) 30000000
      (reading_request (JStr ''tank-1'') (JNum 45)) sample_db)) = rows sample_db \<and>
   response (receive_data full_config (no_faults\<lparr>write_ok := False\<rparr>) 30000000
      (reading_request (JStr ''tank-1'') (JNum 45)) sample_db) =
     Json_response 500 (Error ''Failed to process data in DB'')"
proof -
  let ?o = "receive_data full_config (no_faults\<lparr>write_ok := False\<rparr>) 30000000
      (reading_request (JStr ''tank-1'') (JNum 45)) sample_db"
  have h1: "commit_result (no_faults\<lparr>write_ok := False\<rparr>) \<noteq> Commit_ack_lost"
    by (simp add: no_faults_def)
  have r: "response ?o = Json_response 500 (Error ''Failed to process data in DB'')"
    by (simp add: receive_data_reading valid_reading_def no_faults_def db_transaction_def tx_defs
        split: option.splits)
  then have h2: "status (response ?o) \<noteq> 200" by simp
  show ?thesis using receive_data_atomic [OF h1 h2] r by simp
qed

text \<open>
  C13 (success). Without faults, a request carrying a valid reading is answered 200
  with the handler's message; the committed table is the reconciler's result, and the
  handler prints the connection line and the line of the branch it took.
\<close>

theorem receive_data_success:
  assumes "is_json req" and "reading_of req = Some (s, wp)" and "py_truthy s" and "wp \<noteq> JNull"
  shows "receive_data cfg no_faults now req d =
     \<lparr>response = Json_response 200 (Message ''Data received and processed (upserted) in DB''),
      store = snd (reconcile d s wp now),
      logs = [Connected, branch_log (fst (reconcile d s wp now))], conn_closed = True\<rparr>"
  using assms(3,4)
  by (simp add: receive_data_reading [OF assms(1,2)] db_transaction_no_faults valid_reading_def)
     (simp add: no_faults_def)

lemma receive_data_success_witness:
  "receive_data full_config no_faults 30000000 (reading_request (JStr ''tank-1'') (JNum 45)) sample_db =
     \<lparr>response = Json_response 200 (Message ''Data received and processed (upserted) in DB''),
      store = snd (reconcile sample_db (JStr ''tank-1'') (JNum 45) 30000000),
      logs = [Connected, branch_log (fst (reconcile sample_db (JStr ''tank-1'') (JNum 45) 30000000))],
      conn_closed = True\<rparr>"
proof -
  have h1: "is_json (reading_request (JStr ''tank-1'') (JNum 45))"
    by (simp add: reading_request_def)
  have h2: "reading_of (reading_request (JStr ''tank-1'') (JNum 45)) = Some (JStr ''tank-1'', JNum 45)"
    by simp
  have h3: "py_truthy (JStr ''tank-1'')" by simp
  have h4: "JNum 45 \<noteq> JNull" by simp
  show ?thesis by (rule receive_data_success [OF h1 h2 h3 h4])
qed


text \<open>
  C14 (a 200 answer means one committed reconciliation). Whatever the driver does, a
  request answered 200 carried a valid reading, and the committed table is the
  reconciler's result for it: by C7, one row appended or one row rewritten.
\<close>

theorem receive_data_200_reconciled:
  assumes "status (response (receive_data cfg f now req d)) = 200"
  shows "\<exists>s wp. reading_of req = Some (s, wp) \<and> py_truthy s \<and> wp \<noteq> JNull \<and>
           store (receive_data cfg f now req d) = snd (reconcile d s wp now)"
proof (cases req rule: receive_data_cases)
  case (object kvs)
  let ?s = "obj_get kvs ''sensor_id''" and ?wp = "obj_get kvs ''water_percentage''"
  have rd: "reading_of req = Some (?s, ?wp)"
    using object by (simp add: reading_of_def)
  show ?thesis
  proof (cases "valid_reading ?s ?wp \<and> connect_ok f")
    case True
    with assms object have "status (response (db_transaction f d ?s ?wp now)) = 200"
      by (simp add: receive_data_object)
    then have "store (db_transaction f d ?s ?wp now) = snd (reconcile d ?s ?wp now)"
      by (rule db_transaction_200)
    with True object rd show ?thesis by (simp add: receive_data_object valid_reading_def)
  next
    case False
    with assms object show ?thesis
      by (auto simp: receive_data_object early_def split: if_splits)
  qed
qed (use assms in \<open>simp_all add: handler_simps early_def\<close>)

lemma receive_data_200_reconciled_witness:
  "reading_of (reading_request (JStr ''tank-1'') (JNum 45)) = Some (JStr ''tank-1'', JNum 45) \<and>
   store (receive_data full_config no_faults 30000000 (reading_request (JStr ''tank-1'') (JNum 45))
     sample_db) = snd (reconcile sample_db (JStr ''tank-1'') (JNum 45) 30000000)"
proof -
  let ?o = "receive_data full_config no_faults 30000000 (reading_request (JStr ''tank-1'') (JNum 45))
     sample_db"
  have ok: "?o = \<lparr>response = Json_response 200 (Message ''Data received and processed (upserted) in DB''),
      store = snd (reconcile sample_db (JStr ''tank-1'') (JNum 45) 30000000),
      logs = [Connected, branch_log (fst (reconcile sample_db (JStr ''tank-1'') (JNum 45) 30000000))],
      conn_closed = True\<rparr>"
    by (simp add: receive_data_reading valid_reading_def db_transaction_no_faults)
       (simp add: no_faults_def)
  then have h: "status (response ?o) = 200" by simp
  from receive_data_200_reconciled [OF h] show ?thesis by auto
qed

text \<open>
  C15 (a JSON body that is not an object). A well-formed JSON body that is a list, a
  string, a number, a boolean or \<open>null\<close> makes \<open>data.get\<close> raise
  \<open>AttributeError\<close>: Flask answers with its generic 500 page, not the handler's 400, and
  the table is untouched.
\<close>

theorem receive_data_non_object_500:
  assumes "is_json req" and "payload req = Some j" and "\<forall>kvs. j \<noteq> JObj kvs"
  shows "response (receive_data cfg f now req d) = Flask_error 500 \<and>
         store (receive_data cfg f now req d) = d"
  using assms by (simp add: receive_data_not_object early_def)

lemma receive_data_non_object_500_witness:
  "response (receive_data full_config no_faults 0 (json_request (JList [JNum 42])) empty_db) =
     Flask_error 500 \<and>
   store (receive_data full_config no_faults 0 (json_request (JList [JNum 42])) empty_db) = empty_db"
proof -
  have h1: "is_json (json_request (JList [JNum 42]))" by simp
  have h2: "payload (json_request (JList [JNum 42])) = Some (JList [JNum 42])"
    by (simp add: json_request_def)
  have h3: "\<forall>kvs. JList [JNum 42] \<noteq> JObj kvs" by simp
  show ?thesis by (rule receive_data_non_object_500 [OF h1 h2 h3])
qed

text \<open>
  C16 (a failing \<open>conn.cursor()\<close>). If the connection opens but \<open>conn.cursor()\<close>
  raises, the \<open>finally\<close> block reads the unassigned \<open>cursor\<close>: the view ends with
  Flask's generic 500 instead of its JSON error, and \<open>conn.close()\<close> is never called.
\<close>

theorem receive_data_cursor_failure:
  assumes "is_json req" and "reading_of req = Some (s, wp)" and "py_truthy s" and "wp \<noteq> JNull"
    and "connect_ok f" and "\<not> cursor_ok f"
  shows "response (receive_data cfg f now req d) = Flask_error 500 \<and>
         store (receive_data cfg f now req d) = d \<and>
         \<not> conn_closed (receive_data cfg f now req d)"
  using assms(3-6)
  by (simp add: receive_data_reading [OF assms(1,2)] db_transaction_def valid_reading_def)

lemma receive_data_cursor_failure_witness:
  "response (receive_data full_config (no_faults\<lparr>cursor_ok := False\<rparr>) 0
      (reading_request (JStr ''tank-1'') (JNum 42)) empty_db) = Flask_error 500 \<and>
   store (receive_data full_config (no_faults\<lparr>cursor_ok := False\<rparr>) 0
      (reading_request (JStr ''tank-1'') (JNum 42)) empty_db) = empty_db \<and>
   \<not> conn_closed (receive_data full_config (no_faults\<lparr>cursor_ok := False\<rparr>) 0
      (reading_request (JStr ''tank-1'') (JNum 42)) empty_db)"
proof -
  have h1: "is_json (reading_request (JStr ''tank-1'') (JNum 42))" by simp
  have h2: "reading_of (reading_request (JStr ''tank-1'') (JNum 42)) = Some (JStr ''tank-1'', JNum 42)"
    by simp
  have h3: "py_truthy (JStr ''tank-1'')" by simp
  have h4: "JNum 42 \<noteq> JNull" by simp
  have h5: "connect_ok (no_faults\<lparr>cursor_ok := False\<rparr>)" by (simp add: no_faults_def)
  have h6: "\<not> cursor_ok (no_faults\<lparr>cursor_ok := False\<rparr>)" by simp
  show ?thesis by (rule receive_data_cursor_failure [OF h1 h2 h3 h4 h5 h6])
qed

text \<open>
  C17 (connections are released). Whenever \<open>conn.cursor()\<close> succeeds, every path
  through the view, successful or not, closes the connection it opened (the
  \<open>finally\<close> block), and paths that open none have nothing to close.
\<close>

theorem receive_data_releases_connection:
  assumes "cursor_ok f"
  shows "conn_closed (receive_data cfg f now req d)"
proof (cases req rule: receive_data_cases)
  case (object kvs)
  then show ?thesis
    using db_transaction_closed [OF assms] by (simp add: receive_data_object early_def)
qed (simp_all add: handler_simps early_def)

lemma receive_data_releases_connection_witness:
  "conn_closed (receive_data full_config (no_faults\<lparr>commit_result := Commit_fails\<rparr>) 0
     (reading_request (JStr ''tank-1'') (JNum 42)) empty_db)"
proof -
  have h: "cursor_ok (no_faults\<lparr>commit_result := Commit_fails\<rparr>)" by (simp add: no_faults_def)
  show ?thesis by (rule receive_data_releases_connection [OF h])
qed

text \<open>
  C18 (failures are logged). Every error response the view itself returns comes with a
  printed line that names its cause: not JSON, invalid data, no connection, or a
  database error.
\<close>

theorem receive_data_error_logged:
  assumes "response (receive_data cfg f now req d) = Json_response c b" and "c \<noteq> 200"
  shows "Not_json \<in> set (logs (receive_data cfg f now req d)) \<or>
         Invalid_data \<in> set (logs (receive_data cfg f now req d)) \<or>
         Connect_error \<in> set (logs (receive_data cfg f now req d)) \<or>
         Db_error \<in> set (logs (receive_data cfg f now req d))"
proof (cases req rule: receive_data_cases)
  case (object kvs)
  let ?s = "obj_get kvs ''sensor_id''" and ?wp = "obj_get kvs ''water_percentage''"
  show ?thesis
  proof (cases "valid_reading ?s ?wp \<and> connect_ok f")
    case True
    with assms object have "status (response (db_transaction f d ?s ?wp now)) \<noteq> 200"
      by (simp add: receive_data_object)
    then have "Db_error \<in> set (logs (db_transaction f d ?s ?wp now))"
      by (rule db_transaction_logs)
    with True object show ?thesis by (simp add: receive_data_object)
  next
    case False
    with object show ?thesis by (auto simp: receive_data_object early_def)
  qed
qed (use assms in \<open>simp_all add: handler_simps early_def\<close>)

lemma receive_data_error_logged_witness:
  "Connect_error \<in> set (logs (receive_data full_config (no_faults\<lparr>connect_ok := False\<rparr>) 0
     (reading_request (JStr ''tank-1'') (JNum 42)) empty_db))"
proof -
  let ?o = "receive_data full_config (no_faults\<lparr>connect_ok := False\<rparr>) 0
     (reading_request (JStr ''tank-1'') (JNum 42)) empty_db"
  have r: "?o = early (Json_response 500 (Error ''Database connection failed'')) empty_db
      (Connect_error # unset_vars full_config)"
    by (simp add: receive_data_reading valid_reading_def no_faults_def)
  then have h: "response ?o = Json_response 500 (Error ''Database connection failed'')"
    by (simp add: early_def)
  have "Not_json \<in> set (logs ?o) \<or> Invalid_data \<in> set (logs ?o) \<or>
        Connect_error \<in> set (logs ?o) \<or> Db_error \<in> set (logs ?o)"
    by (rule receive_data_error_logged [OF h]) simp
  with r show ?thesis by (simp add: early_def)
qed

text \<open>
  C19 (a lost commit acknowledgement). If the server commits but \<open>conn.commit()\<close>
  raises, the client is answered 500 although the reading was written: a failure
  answer does not mean that nothing was written.
\<close>

theorem receive_data_commit_ack_lost:
  assumes "is_json req" and "reading_of req = Some (s, wp)" and "py_truthy s" and "wp \<noteq> JNull"
  shows "response (receive_data cfg (no_faults\<lparr>commit_result := Commit_ack_lost\<rparr>) now req d) =
           Json_response 500 (Error ''Failed to process data in DB'') \<and>
         store (receive_data cfg (no_faults\<lparr>commit_result := Commit_ack_lost\<rparr>) now req d) =
           snd (reconcile d s wp now)"
  using assms(3,4)
  by (simp add: receive_data_reading [OF assms(1,2)] no_faults_def db_transaction_def tx_defs
      reconcile_def rollback_def valid_reading_def split: option.splits)

lemma receive_data_commit_ack_lost_witness:
  "response (receive_data full_config (no_faults\<lparr>commit_result := Commit_ack_lost\<rparr>) 0
      (reading_request (JStr ''tank-1'') (JNum 42)) empty_db) =
     Json_response 500 (Error ''Failed to process data in DB'') \<and>
   rows (store (receive_data full_config (no_faults\<lparr>commit_result := Commit_ack_lost\<rparr>) 0
      (reading_request (JStr ''tank-1'') (JNum 42)) empty_db)) =
     [\<lparr>row_id = 1, sensor_id = JStr ''tank-1'', water_percentage = JNum 42, timestamp = 0\<rparr>]"
proof -
  have h1: "is_json (reading_request (JStr ''tank-1'') (JNum 42))" by simp
  have h2: "reading_of (reading_request (JStr ''tank-1'') (JNum 42)) = Some (JStr ''tank-1'', JNum 42)"
    by simp
  have h3: "py_truthy (JStr ''tank-1'')" by simp
  have h4: "JNum 42 \<noteq> JNull" by simp
  show ?thesis
    using receive_data_commit_ack_lost [OF h1 h2 h3 h4]
    by (simp add: reconcile_def select_latest_def empty_db_def insert_row_def)
qed

text \<open>The view answers 200, 400 or 500.\<close>

lemma receive_data_status_range:
  "status (response (receive_data cfg f now req d)) \<in> {200, 400, 500}"
proof (cases req rule: receive_data_cases)
  case (object kvs)
  then show ?thesis
    using db_transaction_status [of f d "obj_get kvs ''sensor_id''" "obj_get kvs ''water_percentage''" now]
    by (auto simp: receive_data_object early_def)
qed (simp_all add: handler_simps early_def)


text \<open>
  C33 (malformed JSON). A request whose content type is JSON but whose body does not
  parse makes \<open>request.get_json()\<close> (line 46) raise Werkzeug's \<open>BadRequest\<close>: Flask
  answers with its own 400 error page, never with the handler's JSON
  \<open>{"error": ...}\<close> object, prints nothing and leaves the table untouched.
\<close>

lemma receive_data_malformed_json:
  assumes "is_json req" "payload req = None"
  shows "response (receive_data cfg f now req d) = Flask_error 400 \<and>
         (\<forall>b. response (receive_data cfg f now req d) \<noteq> Json_response 400 b) \<and>
         store (receive_data cfg f now req d) = d \<and> logs (receive_data cfg f now req d) = []"
  using assms by (simp add: receive_data_bad_body early_def)

lemma receive_data_malformed_json_witness:
  "is_json \<lparr>mimetype = ''application/json'', payload = None\<rparr> \<and>
   payload \<lparr>mimetype = ''application/json'', payload = None\<rparr> = None \<and>
   response (receive_data full_config no_faults 0 \<lparr>mimetype = ''application/json'', payload = None\<rparr>
     empty_db) = Flask_error 400"
proof -
  have h: "is_json \<lparr>mimetype = ''application/json'', payload = None\<rparr>" by (simp add: is_json_def)
  show ?thesis
    using h receive_data_malformed_json [OF h, of full_config no_faults 0 empty_db] by simp
qed

end
