(* ===== verification/App.thy ===== *)
theory App
  imports Handler
begin

text \<open>
  The Flask application around the view (\<open>src/server.py\<close>, lines 7 and 43).
  \<open>app = Flask(__name__)\<close> creates the URL map with Flask's static rule
  \<open>/static/<path:filename>\<close> (a \<open>GET\<close> view serving files of the folder \<open>static\<close>
  beside the module, which the repository does not have), and
  \<open>@app.route('/data', methods=['POST'])\<close> adds the rule of the view. Werkzeug matches
  a request's path and method against the rules in the order they were added: no rule for
  the path is \<open>NotFound\<close> (404), rules for the path but none for the method is
  \<open>MethodNotAllowed\<close> (405). Flask adds \<open>OPTIONS\<close> to every rule and answers it itself,
  and Werkzeug adds \<open>HEAD\<close> to a rule with \<open>GET\<close>. Modelled from the Flask and Werkzeug
  documentation, with Werkzeug's redirect for repeated slashes; its other redirects are not.
\<close>

datatype http_method = GET | HEAD | POST | PUT | PATCH | DELETE | OPTIONS

record http_request =
  http_method :: http_method
  http_path :: string
  http_body :: request

datatype endpoint = Static_endpoint | Data_endpoint

text \<open>\<open>add_url_rule\<close>: the methods of a rule, with \<open>HEAD\<close> for \<open>GET\<close> and \<open>OPTIONS\<close>.\<close>

definition rule_methods :: "http_method list \<Rightarrow> http_method list" where
  "rule_methods ms = remdups (ms @ (if GET \<in> set ms then [HEAD] else []) @ [OPTIONS])"

text \<open>The paths of the two rules; a \<open>path\<close> converter takes a name not starting with a slash.\<close>

fun match_rule :: "endpoint \<Rightarrow> string \<Rightarrow> bool" where
  "match_rule Static_endpoint p \<longleftrightarrow> take 8 p = ''/static/'' \<and> 8 < length p \<and> p ! 8 \<noteq> CHR ''/''"
| "match_rule Data_endpoint p \<longleftrightarrow> p = ''/data''"

fun endpoint_methods :: "endpoint \<Rightarrow> http_method list" where
  "endpoint_methods Static_endpoint = rule_methods [GET]"
| "endpoint_methods Data_endpoint = rule_methods [POST]"

text \<open>The URL map, in the order the rules are added: line 7, then line 43.\<close>

definition url_rules :: "endpoint list" where
  "url_rules = [Static_endpoint, Data_endpoint]"

text \<open>
  Werkzeug's \<open>merge_slashes\<close> (on by default): a path with repeated slashes that
  matches a rule once they are merged is redirected to the merged path.
\<close>

fun merge_slashes :: "string \<Rightarrow> string" where
  "merge_slashes (a # b # cs) =
     (if a = CHR ''/'' \<and> b = CHR ''/'' then merge_slashes (b # cs) else a # merge_slashes (b # cs))"
| "merge_slashes cs = cs"

text \<open>
  One matching attempt: the first rule for the path that allows the method, or else the
  methods of the rules for the path (none when no rule matches the path).
\<close>

definition match_rules :: "string \<Rightarrow> http_method \<Rightarrow> http_method list + endpoint" where
  "match_rules p m =
     (let es = filter (\<lambda>e. match_rule e p) url_rules
      in (case filter (\<lambda>e. m \<in> set (endpoint_methods e)) es of
            [] \<Rightarrow> Inl (concat (map endpoint_methods es))
          | e # _ \<Rightarrow> Inr e))"

text \<open>
  \<open>MapAdapter.match\<close>: the endpoint, or the status of the exception it raises:
  \<open>RequestRedirect\<close> (308) to the merged path, \<open>MethodNotAllowed\<close> (405) when some rule
  matched the path, \<open>NotFound\<close> (404) otherwise.
\<close>

definition url_match :: "string \<Rightarrow> http_method \<Rightarrow> nat + endpoint" where
  "url_match p m =
     (case match_rules p m of
        Inr e \<Rightarrow> Inr e
      | Inl ms \<Rightarrow>
          (if merge_slashes p = p then (if ms = [] then Inl 404 else Inl 405)
           else (case match_rules (merge_slashes p) m of
                   Inr e \<Rightarrow> Inl 308
                 | Inl ms' \<Rightarrow> (if ms @ ms' = [] then Inl 404 else Inl 405))))"

text \<open>
  What the application answers: the view's outcome, Flask's automatic reply to
  \<open>OPTIONS\<close> (200 with the allowed methods), or an HTTP error page.
\<close>

datatype app_result = Served outcome | Options_reply "http_method list" | Http_error nat

definition wsgi_app :: "config \<Rightarrow> faults \<Rightarrow> time \<Rightarrow> http_request \<Rightarrow> db \<Rightarrow> app_result" where
  "wsgi_app cfg f now hr d =
     (case url_match (http_path hr) (http_method hr) of
        Inl c \<Rightarrow> Http_error c
      | Inr e \<Rightarrow>
          (if http_method hr = OPTIONS then Options_reply (endpoint_methods e)
           else (case e of
                   Data_endpoint \<Rightarrow> Served (receive_data cfg f now (http_body hr) d)
                 | Static_endpoint \<Rightarrow> Http_error 404)))"

fun app_status :: "app_result \<Rightarrow> nat" where
  "app_status (Served res) = status (response res)"
| "app_status (Options_reply ms) = 200"
| "app_status (Http_error c) = c"

fun app_store :: "db \<Rightarrow> app_result \<Rightarrow> db" where
  "app_store d (Served res) = store res"
| "app_store d _ = d"

section \<open>Lemmas: matching\<close>

lemma url_match_status: "url_match p m = Inl c \<Longrightarrow> c = 308 \<or> c = 404 \<or> c = 405"
  by (auto simp: url_match_def split: sum.splits if_splits)

lemma match_rules_data:
  "match_rules ''/data'' m = (if m \<in> {POST, OPTIONS} then Inr Data_endpoint else Inl [POST, OPTIONS])"
  by (cases m) (simp_all add: match_rules_def url_rules_def rule_methods_def)

text \<open>Merging only removes slashes.\<close>

lemma merge_slashes_non_slash:
  "filter (\<lambda>c. c \<noteq> CHR ''/'') (merge_slashes p) = filter (\<lambda>c. c \<noteq> CHR ''/'') p"
  by (induction p rule: merge_slashes.induct) auto

lemma merge_slashes_data_not_static:
  assumes "merge_slashes p = ''/data''"
  shows "take 8 p \<noteq> ''/static/''"
proof
  assume t: "take 8 p = ''/static/''"
  have "filter (\<lambda>c. c \<noteq> CHR ''/'') p =
        filter (\<lambda>c. c \<noteq> CHR ''/'') (take 8 p @ drop 8 p)" by simp
  also have "\<dots> = ''static'' @ filter (\<lambda>c. c \<noteq> CHR ''/'') (drop 8 p)" by (simp only: t) simp
  finally have "filter (\<lambda>c. c \<noteq> CHR ''/'') p = ''static'' @ filter (\<lambda>c. c \<noteq> CHR ''/'') (drop 8 p)" .
  with merge_slashes_non_slash [of p] assms show False by simp
qed

lemma url_match_not_data:
  "p \<noteq> ''/data'' \<Longrightarrow> url_match p m \<noteq> Inr Data_endpoint"
  by (auto simp: url_match_def match_rules_def url_rules_def split: sum.splits list.splits if_splits)

section \<open>Properties\<close>



end
