(* ===== verification/Clock.thy ===== *)
theory Clock
  imports Handler
begin

text \<open>
  The view on the wall clock: theory \<open>Handler\<close>'s view composed with theory
  \<open>Datetime\<close>'s arithmetic of lines 49 and 59, and the proof that the two views agree.
\<close>

section \<open>The view on a \<open>datetime\<close>\<close>

text \<open>
  \<open>current_time = datetime.now()\<close> (line 49) is a \<open>datetime\<close>, and its window start
  \<open>current_time - timedelta(minutes=1)\<close> (line 59) is computed inside the \<open>try\<close>
  block, after \<open>conn.cursor()\<close> and before the \<open>SELECT\<close>. When it raises
  \<open>OverflowError\<close>, \<open>except Exception\<close> (line 94) prints, rolls back and answers 500;
  otherwise the \<open>SELECT\<close> runs with the computed window start and the writes with the
  arrival time, both passed to PostgreSQL as \<open>timestamp\<close> values, read here in
  microseconds (\<open>dt_us\<close>).
\<close>

definition db_transaction_at :: "faults \<Rightarrow> db \<Rightarrow> json \<Rightarrow> json \<Rightarrow> datetime \<Rightarrow> outcome" where
  "db_transaction_at f d s wp current_time =
     (if \<not> cursor_ok f then
        \<lparr>response = flask_error UnboundLocalError, store = d, logs = [Db_error],
         conn_closed = False\<rparr>
      else
        (case one_minute_ago current_time of
           Inl e \<Rightarrow> tx_abort f d d []
         | Inr window_start \<Rightarrow>
             (if \<not> select_ok f then tx_abort f d d []
              else
                (case select_latest (rows d) s (dt_us window_start) of
                   Some k \<Rightarrow>
                     (if \<not> write_ok f then tx_abort f d d []
                      else tx_commit f d (update_row d k wp (dt_us current_time)) [Updated_record k])
                 | None \<Rightarrow>
                     (if \<not> write_ok f then tx_abort f d d []
                      else tx_commit f d (insert_row d s wp (dt_us current_time)) [Inserted_record])))))"

definition receive_data_at :: "config \<Rightarrow> faults \<Rightarrow> datetime \<Rightarrow> request \<Rightarrow> db \<Rightarrow> outcome" where
  "receive_data_at cfg f current_time req d =
     (if \<not> is_json req then
        early (Json_response 400 (Error ''Request must be JSON'')) d [Not_json]
      else
        (case get_json req of
           Inl e \<Rightarrow> early (flask_error e) d []
         | Inr data \<Rightarrow>
             (case dict_get data ''sensor_id'' of
                Inl e \<Rightarrow> early (flask_error e) d []
              | Inr s \<Rightarrow>
                  (case dict_get data ''water_percentage'' of
                     Inl e \<Rightarrow> early (flask_error e) d []
                   | Inr wp \<Rightarrow>
                       (if valid_reading s wp then
                          (let (opened, printed) = connect_db cfg (connect_ok f) in
                           if opened then
                             (let res = db_transaction_at f d s wp current_time
                              in res\<lparr>logs := printed @ logs res\<rparr>)
                           else early (Json_response 500 (Error ''Database connection failed'')) d printed)
                        else
                          early (Json_response 400
                            (Error ''Invalid data format. Missing sensor_id or water_percentage.''))
                            d [Invalid_data])))))"

section \<open>Properties\<close>

text \<open>
  C35 (the handler on the wall clock, lines 49 and 59). On a valid arrival time the view
  computed on the \<open>datetime\<close> is the view on its microseconds: the same response,
  table, printed lines and cleanup for every request and every answer of the driver. The
  window start line 59 computes is the one the reconciler uses, \<open>now - one_minute\<close>;
  only an arrival within one day and one minute of the start of year 1 makes line 59
  raise, which the handler treats exactly as a failing \<open>SELECT\<close>: both raise inside the
  \<open>try\<close> block after the cursor and before any write.
\<close>

theorem receive_data_at_refines:
  assumes v: "valid_datetime now"
  shows "receive_data_at cfg f now req d =
           receive_data cfg (if dt_us now - one_minute < 86400 * 1000000 then f\<lparr>select_ok := False\<rparr> else f)
             (dt_us now) req d"
proof -
  define f' where "f' = (if dt_us now - one_minute < 86400 * 1000000 then f\<lparr>select_ok := False\<rparr> else f)"
  have c: "connect_ok f' = connect_ok f" by (simp add: f'_def)
  have tx: "db_transaction_at f d s wp now = db_transaction f' d s wp (dt_us now)" for s wp
  proof (cases "one_minute_ago now")
    case (Inl e)
    then have "dt_us now - one_minute < 86400 * 1000000"
      using one_minute_ago_window [OF v, of e] by blast
    with Inl show ?thesis by (simp add: f'_def db_transaction_at_def db_transaction_def tx_abort_def)
  next
    case (Inr w)
    then have "\<not> dt_us now - one_minute < 86400 * 1000000" "dt_us w = dt_us now - one_minute"
      using one_minute_ago_window [OF v, of OverflowError w] by auto
    with Inr show ?thesis by (simp add: f'_def db_transaction_at_def db_transaction_def)
  qed
  show ?thesis unfolding f'_def [symmetric] receive_data_at_def receive_data_def tx c ..
qed

lemma receive_data_at_refines_witness:
  "valid_datetime \<lparr>year = 1, month = 1, day = 1, hour = 0, minute = 0, second = 30, microsecond = 0\<rparr> \<and>
   receive_data_at full_config no_faults
     \<lparr>year = 1, month = 1, day = 1, hour = 0, minute = 0, second = 30, microsecond = 0\<rparr>
     (reading_request (JStr ''tank-1'') (JNum 45)) sample_db =
   \<lparr>response = Json_response 500 (Error ''Failed to process data in DB''), store = sample_db,
    logs = [Connected, Db_error], conn_closed = True\<rparr>"
proof -
  let ?a = "\<lparr>year = 1, month = 1, day = 1, hour = 0, minute = 0, second = 30, microsecond = 0\<rparr>"
  have v: "valid_datetime ?a"
    by (simp add: valid_datetime_def valid_date_def days_in_month_def is_leap_def DAYS_IN_MONTH_def)
  have o: "dt_us ?a - one_minute < 86400 * 1000000"
    by (simp add: dt_us_def toordinal_def ymd2ord_def days_before_year_def days_before_month_def
        DAYS_BEFORE_MONTH_def is_leap_def one_minute_def)
  have "sample_db\<lparr>next_id := next_id sample_db\<rparr> = sample_db" by simp
  then show ?thesis
    using v o receive_data_at_refines [OF v, of full_config no_faults "reading_request (JStr ''tank-1'') (JNum 45)" sample_db]
    by (simp add: receive_data_reading valid_reading_def no_faults_def db_transaction_def tx_abort_def
        rollback_def)
qed

end
