(* ===== verification/Concurrency.thy ===== *)
theory Concurrency
  imports Reconciler
begin

text \<open>
  Concurrent requests. Flask serves requests in parallel, each with its own connection
  and transaction (\<open>src/server.py\<close>, lines 52--104). Under PostgreSQL's default
  isolation a transaction's \<open>SELECT\<close> sees the table as last committed, and its write
  becomes visible to the others when it commits. A request is therefore two atomic steps
  on the shared committed table: the \<open>SELECT\<close> (lines 59--69), which fixes the branch,
  and the write with its commit (lines 71--92), applied to the table as it is then. The
  steps of different requests interleave in any order: an inductive step relation.
  The theory shows that one request run on its own is the reconciler, that the
  interleaving of two readings of one sensor can leave two rows inside one minute (the
  race the specification's section 5 names), that keys stay keys and other sensors' rows
  stay untouched under every interleaving, and that running the requests one after
  another is one of the interleavings, which commits what the serial server commits.
\<close>

section \<open>Requests in flight\<close>

text \<open>
  Where a request is: not yet selected, selected with the key it found (or none), or
  committed.
\<close>

datatype tphase = Ready | Chose "row_key option" | Finished

record req_thread =
  t_sensor :: json
  t_value :: json
  t_time :: time
  t_phase :: tphase

record sys =
  committed :: db
  threads :: "req_thread list"

text \<open>The write a request chose: the \<open>UPDATE\<close> of the key it found, or the \<open>INSERT\<close>.\<close>

definition apply_choice :: "db \<Rightarrow> row_key option \<Rightarrow> json \<Rightarrow> json \<Rightarrow> time \<Rightarrow> db" where
  "apply_choice d c s wp t = (case c of Some k \<Rightarrow> update_row d k wp t | None \<Rightarrow> insert_row d s wp t)"

text \<open>Request \<open>i\<close> runs its \<open>SELECT\<close> on the committed table.\<close>

definition select_thread :: "sys \<Rightarrow> nat \<Rightarrow> sys" where
  "select_thread S i =
     (let th = threads S ! i
      in S\<lparr>threads := (threads S)[i := th\<lparr>t_phase :=
            Chose (select_latest (rows (committed S)) (t_sensor th) (t_time th - one_minute))\<rparr>]\<rparr>)"

text \<open>Request \<open>i\<close> writes what it chose and commits.\<close>

definition write_thread :: "sys \<Rightarrow> nat \<Rightarrow> sys" where
  "write_thread S i =
     (let th = threads S ! i
      in (case t_phase th of
            Chose c \<Rightarrow>
              \<lparr>committed = apply_choice (committed S) c (t_sensor th) (t_value th) (t_time th),
               threads = (threads S)[i := th\<lparr>t_phase := Finished\<rparr>]\<rparr>
          | _ \<Rightarrow> S))"

inductive conc_step :: "sys \<Rightarrow> sys \<Rightarrow> bool" where
  select_step: "i < length (threads S) \<Longrightarrow> t_phase (threads S ! i) = Ready \<Longrightarrow>
    conc_step S (select_thread S i)"
| write_step: "i < length (threads S) \<Longrightarrow> t_phase (threads S ! i) = Chose c \<Longrightarrow>
    conc_step S (write_thread S i)"

text \<open>The requests \<open>(sensor, value, arrival time)\<close> in flight over a committed table.\<close>

definition start :: "db \<Rightarrow> (json \<times> json \<times> time) list \<Rightarrow> sys" where
  "start d reqs =
     \<lparr>committed = d,
      threads = map (\<lambda>(s, wp, t). \<lparr>t_sensor = s, t_value = wp, t_time = t, t_phase = Ready\<rparr>) reqs\<rparr>"

text \<open>A request as a thread in a given phase.\<close>

definition thread_in :: "tphase \<Rightarrow> json \<times> json \<times> time \<Rightarrow> req_thread" where
  "thread_in p q = (case q of (s, wp, t) \<Rightarrow> \<lparr>t_sensor = s, t_value = wp, t_time = t, t_phase = p\<rparr>)"

text \<open>
  What every interleaving keeps: keys are keys, and a request that chose a key chose a
  row of its own sensor, which is still there.
\<close>

definition choice_ok :: "sys \<Rightarrow> bool" where
  "choice_ok S \<longleftrightarrow> wf_db (committed S) \<and>
     (\<forall>th \<in> set (threads S). \<forall>k. t_phase th = Chose (Some k) \<longrightarrow>
        (\<exists>r \<in> set (rows (committed S)). row_id r = k \<and> sensor_id r = t_sensor th))"

section \<open>Lemmas: one step\<close>

inductive_cases conc_stepE: "conc_step S S'"

lemma length_select_thread [simp]: "length (threads (select_thread S i)) = length (threads S)"
  by (simp add: select_thread_def Let_def)

lemma length_write_thread [simp]: "length (threads (write_thread S i)) = length (threads S)"
  by (simp add: write_thread_def Let_def split: tphase.splits)

lemma committed_select_thread [simp]: "committed (select_thread S i) = committed S"
  by (simp add: select_thread_def Let_def)

lemma sensors_select_thread:
  "map t_sensor (threads (select_thread S i)) = map t_sensor (threads S)"
  by (simp add: select_thread_def Let_def map_update map_update_same)

lemma sensors_write_thread:
  "map t_sensor (threads (write_thread S i)) = map t_sensor (threads S)"
  by (simp add: write_thread_def Let_def map_update map_update_same split: tphase.splits)

lemma conc_step_sensors: "conc_step S S' \<Longrightarrow> map t_sensor (threads S') = map t_sensor (threads S)"
  by (induction rule: conc_step.induct) (simp_all add: sensors_select_thread sensors_write_thread)

text \<open>A request running its two steps back to back is the reconciler.\<close>

lemma write_select_thread:
  assumes "i < length (threads S)"
  shows "write_thread (select_thread S i) i =
     \<lparr>committed = snd (reconcile (committed S) (t_sensor (threads S ! i)) (t_value (threads S ! i))
                       (t_time (threads S ! i))),
      threads = (threads S)[i := (threads S ! i)\<lparr>t_phase := Finished\<rparr>]\<rparr>"
  using assms
  by (simp add: write_thread_def select_thread_def Let_def reconcile_def apply_choice_def
      split: option.splits)


lemma phase_select_thread:
  "i < length (threads S) \<Longrightarrow>
   t_phase (threads (select_thread S i) ! j) =
     (if j = i then Chose (select_latest (rows (committed S)) (t_sensor (threads S ! i))
                            (t_time (threads S ! i) - one_minute))
      else t_phase (threads S ! j))"
  by (simp add: select_thread_def Let_def nth_list_update)

lemma committed_write_thread:
  "t_phase (threads S ! i) = Chose c \<Longrightarrow>
   committed (write_thread S i) =
     apply_choice (committed S) c (t_sensor (threads S ! i)) (t_value (threads S ! i))
       (t_time (threads S ! i))"
  by (simp add: write_thread_def Let_def)

lemma wf_apply_choice: "wf_db d \<Longrightarrow> wf_db (apply_choice d c s wp t)"
  by (simp add: apply_choice_def wf_update_row wf_insert_row split: option.splits)

text \<open>No write removes a row or changes its key or its sensor.\<close>

lemma apply_choice_keeps_row:
  assumes "r \<in> set (rows d)"
  shows "\<exists>r' \<in> set (rows (apply_choice d c s wp t)). row_id r' = row_id r \<and> sensor_id r' = sensor_id r"
proof (cases c)
  case None
  with assms show ?thesis by (auto simp: apply_choice_def store_simps)
next
  case (Some k)
  show ?thesis
  proof (cases "row_id r = k")
    case True
    with assms Some show ?thesis
      by (intro bexI [of _ "r\<lparr>water_percentage := wp, timestamp := t\<rparr>"])
         (auto simp: apply_choice_def set_rows_update_row)
  next
    case False
    with assms Some show ?thesis by (auto simp: apply_choice_def set_rows_update_row)
  qed
qed

lemma set_threads_update:
  "th \<in> set (xs[i := y]) \<Longrightarrow> th = y \<or> th \<in> set xs"
  using set_update_subset_insert by fastforce

lemma conc_step_choice_ok:
  assumes "conc_step S S'" and "choice_ok S"
  shows "choice_ok S'"
  using assms
proof (induction rule: conc_step.induct)
  case (select_step i S)
  let ?th = "threads S ! i"
  let ?c = "select_latest (rows (committed S)) (t_sensor ?th) (t_time ?th - one_minute)"
  have new: "\<exists>r \<in> set (rows (committed S)). row_id r = k \<and> sensor_id r = t_sensor ?th"
    if "?c = Some k" for k
  proof -
    from that obtain r where "r \<in> set (rows (committed S))" "row_id r = k"
        "in_window (t_sensor ?th) (t_time ?th - one_minute) r"
      by (rule select_latest_SomeE) blast+
    then show ?thesis by (auto simp: in_window_def)
  qed
  show ?case
    using select_step.prems new
    by (fastforce simp: choice_ok_def select_thread_def Let_def dest: set_threads_update)
next
  case (write_step i S c)
  let ?th = "threads S ! i"
  let ?d' = "apply_choice (committed S) c (t_sensor ?th) (t_value ?th) (t_time ?th)"
  have wf: "wf_db ?d'"
    using write_step.prems by (simp add: choice_ok_def wf_apply_choice)
  have kept: "\<exists>r \<in> set (rows ?d'). row_id r = k \<and> sensor_id r = t_sensor th"
    if "th \<in> set (threads S)" "t_phase th = Chose (Some k)" for th k
  proof -
    from write_step.prems that obtain r where "r \<in> set (rows (committed S))" "row_id r = k"
        "sensor_id r = t_sensor th"
      by (auto simp: choice_ok_def)
    then show ?thesis using apply_choice_keeps_row by metis
  qed
  show ?case
    using wf kept write_step.hyps
    by (auto simp: choice_ok_def write_thread_def Let_def dest: set_threads_update)
qed

lemma choice_ok_key:
  assumes "choice_ok S" and "i < length (threads S)" and "t_phase (threads S ! i) = Chose c"
  shows "\<forall>k. c = Some k \<longrightarrow>
           (\<exists>r \<in> set (rows (committed S)). row_id r = k \<and> sensor_id r = t_sensor (threads S ! i))"
  using assms nth_mem [OF assms(2)] unfolding choice_ok_def by blast

text \<open>A write of one sensor's request leaves the rows of every other sensor as they were.\<close>

lemma apply_choice_other_sensor:
  assumes "wf_db d" and "s' \<noteq> s"
    and "\<forall>k. c = Some k \<longrightarrow> (\<exists>r \<in> set (rows d). row_id r = k \<and> sensor_id r = s')"
  shows "filter (\<lambda>r. sensor_id r = s) (rows (apply_choice d c s' wp t)) =
         filter (\<lambda>r. sensor_id r = s) (rows d)"
proof (cases c)
  case None
  with assms(2) show ?thesis by (simp add: apply_choice_def store_simps)
next
  case (Some k)
  with assms(3) obtain r0 where r0: "r0 \<in> set (rows d)" "row_id r0 = k" "sensor_id r0 = s'"
    by blast
  have "\<forall>r \<in> set (rows d). row_id r = k \<longrightarrow> \<not> sensor_id r = s"
    using assms(1,2) r0 unfolding wf_db_def by (metis distinct_map_eq_on_set)
  with Some show ?thesis by (simp add: apply_choice_def store_simps filter_map_where_skip)
qed

lemma write_thread_other_sensor:
  assumes "choice_ok S" and "i < length (threads S)" and "t_phase (threads S ! i) = Chose c"
    and "t_sensor (threads S ! i) \<noteq> s"
  shows "filter (\<lambda>r. sensor_id r = s) (rows (committed (write_thread S i))) =
         filter (\<lambda>r. sensor_id r = s) (rows (committed S))"
  using apply_choice_other_sensor [OF _ assms(4) choice_ok_key [OF assms(1-3)]] assms(1,3)
  by (simp add: committed_write_thread choice_ok_def)

lemma conc_step_isolation:
  assumes "conc_step S S'" and "choice_ok S" and "\<forall>th \<in> set (threads S). t_sensor th \<noteq> s"
  shows "filter (\<lambda>r. sensor_id r = s) (rows (committed S')) =
         filter (\<lambda>r. sensor_id r = s) (rows (committed S))"
  using assms
proof (induction rule: conc_step.induct)
  case (select_step i S)
  then show ?case by simp
next
  case (write_step i S c)
  then show ?case by (intro write_thread_other_sensor) simp_all
qed

lemma select_write_steps:
  assumes "i < length (threads S)" and "t_phase (threads S ! i) = Ready"
  shows "conc_step\<^sup>*\<^sup>* S (write_thread (select_thread S i) i)"
proof -
  have s1: "conc_step S (select_thread S i)" using assms by (rule select_step)
  have "t_phase (threads (select_thread S i) ! i) = Chose (select_latest (rows (committed S))
      (t_sensor (threads S ! i)) (t_time (threads S ! i) - one_minute))"
    using assms(1) by (simp add: phase_select_thread)
  then have s2: "conc_step (select_thread S i) (write_thread (select_thread S i) i)"
    using assms(1) by (intro write_step) simp_all
  from s1 s2 show ?thesis by simp
qed

lemma start_thread_in: "threads (start d reqs) = map (thread_in Ready) reqs"
  by (simp add: start_def thread_in_def)

text \<open>
  The requests run one after another in the order of the list, each one's \<open>SELECT\<close>
  directly followed by its write.
\<close>

lemma run_serially:
  assumes "threads S = ths @ map (thread_in Ready) reqs"
  shows "\<exists>S'. conc_step\<^sup>*\<^sup>* S S' \<and> threads S' = ths @ map (thread_in Finished) reqs \<and>
              committed S' = reconcile_all (committed S) reqs"
  using assms
proof (induction reqs arbitrary: ths S)
  case Nil
  then show ?case by (intro exI [of _ S]) simp
next
  case (Cons q reqs)
  obtain s wp t where q: "q = (s, wp, t)" by (cases q) auto
  let ?i = "length ths"
  let ?S1 = "write_thread (select_thread S ?i) ?i"
  have i: "?i < length (threads S)" and th: "threads S ! ?i = thread_in Ready q"
    using Cons.prems by simp_all
  then have rd: "t_phase (threads S ! ?i) = Ready" by (simp add: thread_in_def q)
  have run1: "conc_step\<^sup>*\<^sup>* S ?S1" using i rd by (rule select_write_steps)
  have c1: "committed ?S1 = snd (reconcile (committed S) s wp t)"
    using write_select_thread [OF i] th by (simp add: thread_in_def q)
  have t1: "threads ?S1 = (ths @ [thread_in Finished q]) @ map (thread_in Ready) reqs"
    using write_select_thread [OF i] th Cons.prems by (simp add: thread_in_def q)
  from Cons.IH [OF t1] obtain S' where S': "conc_step\<^sup>*\<^sup>* ?S1 S'"
      "threads S' = (ths @ [thread_in Finished q]) @ map (thread_in Finished) reqs"
      "committed S' = reconcile_all (committed ?S1) reqs"
    by blast
  have "conc_step\<^sup>*\<^sup>* S S'" using run1 S'(1) by (rule rtranclp_trans)
  with S'(2,3) c1 q show ?case by (intro exI [of _ S']) simp
qed

section \<open>Properties of interleaved requests\<close>

text \<open>
  C21 (the select-then-write race, specification section 5). Two readings of one sensor
  thirty seconds apart, served concurrently on an empty table, can both find no row and
  both insert: one interleaving of the system commits two rows of the sensor inside one
  minute, which the serial execution never does (C5).
\<close>

theorem conc_race_duplicate:
  "conc_step\<^sup>*\<^sup>* (start empty_db [(JStr ''tank-1'', JNum 42, 0), (JStr ''tank-1'', JNum 45, 30000000)])
     (write_thread (write_thread (select_thread (select_thread
        (start empty_db [(JStr ''tank-1'', JNum 42, 0), (JStr ''tank-1'', JNum 45, 30000000)]) 0) 1) 0) 1) \<and>
   rows (committed (write_thread (write_thread (select_thread (select_thread
        (start empty_db [(JStr ''tank-1'', JNum 42, 0), (JStr ''tank-1'', JNum 45, 30000000)]) 0) 1) 0) 1)) =
     [\<lparr>row_id = 1, sensor_id = JStr ''tank-1'', water_percentage = JNum 42, timestamp = 0\<rparr>,
      \<lparr>row_id = 2, sensor_id = JStr ''tank-1'', water_percentage = JNum 45, timestamp = 30000000\<rparr>]"
proof -
  let ?S0 = "start empty_db [(JStr ''tank-1'', JNum 42, 0), (JStr ''tank-1'', JNum 45, 30000000)]"
  let ?S1 = "select_thread ?S0 0"
  let ?S2 = "select_thread ?S1 1"
  let ?S3 = "write_thread ?S2 0"
  let ?S4 = "write_thread ?S3 1"
  have none: "select_latest (rows empty_db) s w = None" for s w
    by (simp add: select_latest_def empty_db_def)
  have s1: "conc_step ?S0 ?S1" by (rule select_step) (simp_all add: start_def)
  have s2: "conc_step ?S1 ?S2"
    by (rule select_step) (simp_all add: start_def select_thread_def)
  have s3: "conc_step ?S2 ?S3"
    by (rule write_step [where c = None])
       (simp_all add: start_def select_thread_def none)
  have s4: "conc_step ?S3 ?S4"
    by (rule write_step [where c = None])
       (simp_all add: start_def select_thread_def write_thread_def none)
  from s1 s2 s3 s4 have run: "conc_step\<^sup>*\<^sup>* ?S0 ?S4" by simp
  have "rows (committed ?S4) =
     [\<lparr>row_id = 1, sensor_id = JStr ''tank-1'', water_percentage = JNum 42, timestamp = 0\<rparr>,
      \<lparr>row_id = 2, sensor_id = JStr ''tank-1'', water_percentage = JNum 45, timestamp = 30000000\<rparr>]"
    by (simp add: start_def select_thread_def write_thread_def apply_choice_def none
        select_latest_def insert_row_def empty_db_def)
  with run show ?thesis by simp
qed

text \<open>
  C22 (keys and other sensors under every interleaving, P6). From a table whose keys are
  keys, whatever order the steps of the requests in flight take, the keys stay keys, and
  the rows of a sensor that none of the requests is about stay exactly as they were.
\<close>

theorem conc_isolation:
  assumes "conc_step\<^sup>*\<^sup>* S S'" and "choice_ok S"
    and "\<forall>th \<in> set (threads S). t_sensor th \<noteq> s"
  shows "wf_db (committed S') \<and>
         filter (\<lambda>r. sensor_id r = s) (rows (committed S')) =
         filter (\<lambda>r. sensor_id r = s) (rows (committed S))"
proof -
  have "choice_ok S' \<and> map t_sensor (threads S') = map t_sensor (threads S) \<and>
        filter (\<lambda>r. sensor_id r = s) (rows (committed S')) =
        filter (\<lambda>r. sensor_id r = s) (rows (committed S))"
    using assms(1)
  proof (induction rule: rtranclp_induct)
    case base
    then show ?case using assms(2) by simp
  next
    case (step T T')
    then have ok: "choice_ok T" and sens: "map t_sensor (threads T) = map t_sensor (threads S)"
      by simp_all
    have "\<forall>th \<in> set (threads T). t_sensor th \<noteq> s"
    proof
      fix th assume "th \<in> set (threads T)"
      then have "t_sensor th \<in> set (map t_sensor (threads S))"
        using sens by (metis image_eqI list.set_map)
      with assms(3) show "t_sensor th \<noteq> s" by auto
    qed
    with step.hyps(2) ok have "filter (\<lambda>r. sensor_id r = s) (rows (committed T')) =
        filter (\<lambda>r. sensor_id r = s) (rows (committed T))"
      by (rule conc_step_isolation)
    with step conc_step_choice_ok [OF step.hyps(2) ok] conc_step_sensors [OF step.hyps(2)]
    show ?case by simp
  qed
  then show ?thesis by (simp add: choice_ok_def)
qed

lemma conc_isolation_witness:
  "filter (\<lambda>r. sensor_id r = JStr ''tank-2'')
     (rows (committed (write_thread (select_thread
        (start sample_db [(JStr ''tank-1'', JNum 45, 30000000)]) 0) 0))) =
   [\<lparr>row_id = 2, sensor_id = JStr ''tank-2'', water_percentage = JNum 70, timestamp = 5000000\<rparr>]"
proof -
  let ?S = "start sample_db [(JStr ''tank-1'', JNum 45, 30000000)]"
  have h0: "0 < length (threads ?S)" "t_phase (threads ?S ! 0) = Ready" by (simp_all add: start_def)
  have h1: "conc_step\<^sup>*\<^sup>* ?S (write_thread (select_thread ?S 0) 0)"
    by (rule select_write_steps [OF h0])
  have h2: "choice_ok ?S" by (simp add: choice_ok_def start_def wf_db_def sample_db_def)
  have h3: "\<forall>th \<in> set (threads ?S). t_sensor th \<noteq> JStr ''tank-2''" by (simp add: start_def)
  have "filter (\<lambda>r. sensor_id r = JStr ''tank-2'') (rows (committed (write_thread (select_thread ?S 0) 0))) =
        filter (\<lambda>r. sensor_id r = JStr ''tank-2'') (rows (committed ?S))"
    using conc_isolation [OF h1 h2 h3] by (rule conjunct2)
  also have "\<dots> = [\<lparr>row_id = 2, sensor_id = JStr ''tank-2'', water_percentage = JNum 70,
      timestamp = 5000000\<rparr>]"
    by (simp add: start_def sample_db_def)
  finally show ?thesis .
qed


end
