(* ===== verification/Serial.thy ===== *)
theory Serial
  imports Concurrency
begin

text \<open>
  Requests for different sensors are independent (specification section 5). A sensor's
  rows are touched only by the requests for that sensor: its \<open>SELECT\<close> reads them, and
  its \<open>UPDATE\<close> or \<open>INSERT\<close> writes them. This theory shows that every complete
  interleaving of requests for pairwise distinct sensors commits, sensor by sensor, what
  the serial execution \<open>reconcile_all\<close> commits: the same values and timestamps in
  the same order. Only the keys of inserted rows may differ, because the sequence hands
  them out in commit order. Together with the race of two requests for one sensor
  (\<open>Concurrency.conc_race_duplicate\<close>) this is the exact reach of the concurrency
  problem: it needs two requests for the same sensor.
\<close>

section \<open>What a sensor sees of the table\<close>

definition sensor_rows :: "json \<Rightarrow> db \<Rightarrow> row list" where
  "sensor_rows s d = filter (\<lambda>r. sensor_id r = s) (rows d)"

text \<open>The readings of a sensor, in scan order, without the keys.\<close>

definition sensor_view :: "json \<Rightarrow> db \<Rightarrow> (json \<times> time) list" where
  "sensor_view s d = map (\<lambda>r. (water_percentage r, timestamp r)) (sensor_rows s d)"

text \<open>
  What a request has done so far, measured against the table the requests started on:
  before its write, its sensor's rows are still those of the start (and a request that
  has selected chose what it would have chosen there); after its write, its sensor's
  readings are those of the reconciler run on the start.
\<close>

definition thread_ok :: "db \<Rightarrow> db \<Rightarrow> req_thread \<Rightarrow> bool" where
  "thread_ok d D th \<longleftrightarrow>
     (case t_phase th of
        Ready \<Rightarrow> sensor_rows (t_sensor th) D = sensor_rows (t_sensor th) d
      | Chose c \<Rightarrow> sensor_rows (t_sensor th) D = sensor_rows (t_sensor th) d \<and>
                   c = select_latest (rows d) (t_sensor th) (t_time th - one_minute)
      | Finished \<Rightarrow> sensor_view (t_sensor th) D =
                    sensor_view (t_sensor th) (snd (reconcile d (t_sensor th) (t_value th) (t_time th))))"

definition serial_inv :: "db \<Rightarrow> sys \<Rightarrow> bool" where
  "serial_inv d S \<longleftrightarrow> wf_db d \<and> choice_ok S \<and> distinct (map t_sensor (threads S)) \<and>
     list_all (thread_ok d (committed S)) (threads S) \<and>
     (\<forall>s. s \<notin> set (map t_sensor (threads S)) \<longrightarrow> sensor_rows s (committed S) = sensor_rows s d)"

text \<open>The reading a request carries.\<close>

definition req_of :: "req_thread \<Rightarrow> json \<times> json \<times> time" where
  "req_of th = (t_sensor th, t_value th, t_time th)"

section \<open>Lemmas: one sensor's rows\<close>

lemma select_latest_sensor_rows:
  "select_latest (rows d) s w = select_latest (sensor_rows s d) s w"
proof -
  have "filter (in_window s w) (sensor_rows s d) = filter (in_window s w) (rows d)"
    unfolding sensor_rows_def filter_filter in_window_def by (rule filter_cong) auto
  then show ?thesis by (simp add: select_latest_def)
qed

lemma sensor_rows_apply_choice_own:
  assumes "sensor_rows s D = sensor_rows s d"
  shows "sensor_view s (apply_choice D c s wp t) = sensor_view s (apply_choice d c s wp t)"
proof (cases c)
  case None
  with assms show ?thesis
    by (simp add: sensor_view_def sensor_rows_def apply_choice_def store_simps)
next
  case (Some k)
  have "filter (\<lambda>r. sensor_id r = s) (rows (update_row D' k wp t)) =
        map_where (\<lambda>r. row_id r = k) (\<lambda>r. r\<lparr>water_percentage := wp, timestamp := t\<rparr>)
          (sensor_rows s D')" for D'
    by (simp add: store_simps sensor_rows_def filter_map_where)
  with assms Some show ?thesis by (simp add: sensor_view_def sensor_rows_def apply_choice_def)
qed

lemma reconcile_apply_choice:
  "snd (reconcile d s wp t) = apply_choice d (select_latest (rows d) s (t - one_minute)) s wp t"
  by (simp add: reconcile_def apply_choice_def split: option.splits)

lemma reconcile_view_congr:
  "sensor_rows s D = sensor_rows s d \<Longrightarrow>
   sensor_view s (snd (reconcile D s wp t)) = sensor_view s (snd (reconcile d s wp t))"
proof -
  assume eq: "sensor_rows s D = sensor_rows s d"
  have "select_latest (rows D) s (t - one_minute) = select_latest (rows d) s (t - one_minute)"
    using select_latest_sensor_rows [of D] select_latest_sensor_rows [of d] eq by simp
  then show ?thesis
    unfolding reconcile_apply_choice using sensor_rows_apply_choice_own [OF eq] by simp
qed

lemma reconcile_other_sensor:
  assumes "wf_db d" and "s' \<noteq> s"
  shows "sensor_rows s (snd (reconcile d s' wp t)) = sensor_rows s d"
proof -
  have e: "filter (\<lambda>r. sensor_id r = s) (filter (\<lambda>r. sensor_id r \<noteq> s') (rows (snd (reconcile d s' wp t)))) =
        filter (\<lambda>r. sensor_id r = s) (filter (\<lambda>r. sensor_id r \<noteq> s') (rows d))"
    using reconcile_isolation [OF assms(1)] by simp
  have f: "filter (\<lambda>r. sensor_id r = s) (filter (\<lambda>r. sensor_id r \<noteq> s') xs) =
      filter (\<lambda>r. sensor_id r = s) xs" for xs
    using assms(2) by (induction xs) auto
  from e show ?thesis unfolding f sensor_rows_def .
qed


lemma reconcile_all_sensor:
  assumes "wf_db d" and "distinct (map fst reqs)"
  shows "(map_of reqs s = None \<longrightarrow> sensor_rows s (reconcile_all d reqs) = sensor_rows s d) \<and>
         (map_of reqs s = Some (wp, t) \<longrightarrow>
            sensor_view s (reconcile_all d reqs) = sensor_view s (snd (reconcile d s wp t)))"
  using assms
proof (induction reqs arbitrary: d)
  case Nil
  then show ?case by simp
next
  case (Cons q reqs)
  obtain s0 wp0 t0 where q: "q = (s0, wp0, t0)" by (cases q) auto
  let ?d' = "snd (reconcile d s0 wp0 t0)"
  have wf': "wf_db ?d'" using Cons.prems(1) by (rule wf_reconcile)
  have dist: "distinct (map fst reqs)" "s0 \<notin> fst ` set reqs" using Cons.prems(2) q by auto
  note ih = Cons.IH [OF wf' dist(1)]
  show ?case
  proof (cases "s0 = s")
    case True
    then have "map_of reqs s = None" using dist(2) by (simp add: map_of_eq_None_iff)
    with ih have "sensor_rows s (reconcile_all ?d' reqs) = sensor_rows s ?d'" by simp
    with True q show ?thesis by (auto simp: sensor_view_def)
  next
    case False
    have r: "sensor_rows s ?d' = sensor_rows s d"
      using reconcile_other_sensor [OF Cons.prems(1) False] .
    show ?thesis using ih q False r reconcile_view_congr [OF r] by auto
  qed
qed

section \<open>Lemmas: the requests in flight\<close>

lemma req_of_phase [simp]: "req_of (th\<lparr>t_phase := p\<rparr>) = req_of th"
  by (simp add: req_of_def)

lemma conc_step_req_of: "conc_step S S' \<Longrightarrow> map req_of (threads S') = map req_of (threads S)"
  by (induction rule: conc_step.induct)
     (simp_all add: select_thread_def write_thread_def Let_def map_update map_update_same)

lemma req_of_start: "map req_of (threads (start d reqs)) = reqs"
  by (induction reqs) (auto simp: start_def req_of_def)

lemma sensors_req_of: "map t_sensor ths = map fst (map req_of ths)"
  by (simp add: req_of_def)

lemma thread_ok_congr:
  "sensor_rows (t_sensor th) D' = sensor_rows (t_sensor th) D \<Longrightarrow>
   thread_ok d D' th = thread_ok d D th"
  by (simp add: thread_ok_def sensor_view_def split: tphase.splits)

lemma serial_inv_start:
  assumes "wf_db d" and "distinct (map fst reqs)"
  shows "serial_inv d (start d reqs)"
proof -
  have ready: "\<forall>th \<in> set (threads (start d reqs)). t_phase th = Ready" by (auto simp: start_def)
  have "choice_ok (start d reqs)" using assms(1) ready by (auto simp: choice_ok_def start_def)
  moreover have "distinct (map t_sensor (threads (start d reqs)))"
    using assms(2) by (simp only: sensors_req_of req_of_start)
  moreover have "list_all (thread_ok d (committed (start d reqs))) (threads (start d reqs))"
    using ready by (simp add: list_all_iff thread_ok_def start_def)
  ultimately show ?thesis using assms(1) by (simp add: serial_inv_def start_def)
qed

lemma serial_inv_select:
  assumes inv: "serial_inv d S" and i: "i < length (threads S)" and rd: "t_phase (threads S ! i) = Ready"
  shows "serial_inv d (select_thread S i)"
proof -
  let ?th = "threads S ! i"
  let ?c = "select_latest (rows (committed S)) (t_sensor ?th) (t_time ?th - one_minute)"
  have ok: "thread_ok d (committed S) ?th" using inv i by (simp add: serial_inv_def list_all_length)
  then have rows_i: "sensor_rows (t_sensor ?th) (committed S) = sensor_rows (t_sensor ?th) d"
    using rd by (simp add: thread_ok_def)
  have c: "?c = select_latest (rows d) (t_sensor ?th) (t_time ?th - one_minute)"
    using rows_i select_latest_sensor_rows [of "committed S"] select_latest_sensor_rows [of d] by simp
  have new: "thread_ok d (committed S) (?th\<lparr>t_phase := Chose ?c\<rparr>)"
    using rows_i c by (simp add: thread_ok_def)
  have th': "threads (select_thread S i) = (threads S)[i := ?th\<lparr>t_phase := Chose ?c\<rparr>]"
    by (simp add: select_thread_def Let_def)
  have "list_all (thread_ok d (committed S)) (threads (select_thread S i))"
    using inv new unfolding th' serial_inv_def by (simp add: list_all_list_update)
  moreover have "choice_ok (select_thread S i)"
    using inv i rd by (blast intro: conc_step_choice_ok select_step [OF i rd] dest: serial_inv_def [THEN iffD1])
  ultimately show ?thesis
    using inv sensors_select_thread [of S i] by (simp add: serial_inv_def)
qed

lemma serial_inv_write:
  assumes inv: "serial_inv d S" and i: "i < length (threads S)" and ch: "t_phase (threads S ! i) = Chose c"
  shows "serial_inv d (write_thread S i)"
proof -
  let ?th = "threads S ! i"
  let ?s = "t_sensor ?th"
  let ?S' = "write_thread S i"
  have ok: "thread_ok d (committed S) ?th" using inv i by (simp add: serial_inv_def list_all_length)
  then have rows_i: "sensor_rows ?s (committed S) = sensor_rows ?s d"
    and c: "c = select_latest (rows d) ?s (t_time ?th - one_minute)"
    using ch by (simp_all add: thread_ok_def)
  have cok: "choice_ok S" and dist: "distinct (map t_sensor (threads S))"
    using inv by (simp_all add: serial_inv_def)
  have keep: "sensor_rows s (committed ?S') = sensor_rows s (committed S)" if "s \<noteq> ?s" for s
    using write_thread_other_sensor [OF cok i ch] that by (simp add: sensor_rows_def)
  have th': "threads ?S' = (threads S)[i := ?th\<lparr>t_phase := Finished\<rparr>]"
    using ch by (simp add: write_thread_def Let_def)
  have fin: "thread_ok d (committed ?S') (?th\<lparr>t_phase := Finished\<rparr>)"
    using sensor_rows_apply_choice_own [OF rows_i, of c "t_value ?th" "t_time ?th"]
    by (simp add: thread_ok_def committed_write_thread [OF ch] reconcile_apply_choice c)
  have others: "thread_ok d (committed ?S') (threads S ! j)" if "j < length (threads S)" "j \<noteq> i" for j
  proof -
    have "t_sensor (threads S ! j) \<noteq> ?s"
      using dist that i by (simp add: distinct_conv_nth)
    then have "thread_ok d (committed ?S') (threads S ! j) = thread_ok d (committed S) (threads S ! j)"
      by (intro thread_ok_congr keep)
    with inv that show ?thesis by (simp add: serial_inv_def list_all_length)
  qed
  have "list_all (thread_ok d (committed ?S')) (threads ?S')"
    unfolding th' list_all_length
  proof (intro allI impI)
    fix n assume "n < length ((threads S)[i := ?th\<lparr>t_phase := Finished\<rparr>])"
    then show "thread_ok d (committed ?S') ((threads S)[i := ?th\<lparr>t_phase := Finished\<rparr>] ! n)"
      using fin others i by (cases "n = i") simp_all
  qed
  moreover have "choice_ok ?S'" by (rule conc_step_choice_ok [OF write_step [OF i ch] cok])
  moreover have "sensor_rows s (committed ?S') = sensor_rows s d"
    if "s \<notin> set (map t_sensor (threads ?S'))" for s
  proof -
    have "s \<notin> set (map t_sensor (threads S))" using that sensors_write_thread [of S i] by simp
    moreover have "?s \<in> set (map t_sensor (threads S))" using i by simp
    ultimately have "s \<noteq> ?s" by blast
    with keep inv \<open>s \<notin> set (map t_sensor (threads S))\<close> show ?thesis by (simp add: serial_inv_def)
  qed
  ultimately show ?thesis
    using inv sensors_write_thread [of S i] by (simp add: serial_inv_def)
qed

lemma serial_inv_step: "conc_step S S' \<Longrightarrow> serial_inv d S \<Longrightarrow> serial_inv d S'"
  by (induction rule: conc_step.induct) (simp_all add: serial_inv_select serial_inv_write)

lemma serial_inv_run:
  assumes "conc_step\<^sup>*\<^sup>* (start d reqs) S" and "wf_db d" and "distinct (map fst reqs)"
  shows "serial_inv d S \<and> map req_of (threads S) = reqs"
  using assms(1)
proof (induction rule: rtranclp_induct)
  case base
  then show ?case using serial_inv_start [OF assms(2,3)] req_of_start by simp
next
  case (step T T')
  then show ?case using serial_inv_step conc_step_req_of by metis
qed

section \<open>Requests for different sensors\<close>

text \<open>
  C26 (requests for different sensors serialise, specification section 5). Whatever
  the interleaving of the \<open>SELECT\<close> and write steps of requests for pairwise distinct
  sensors, once all of them have committed, every sensor's readings are exactly those the
  server would have committed handling the requests one after another: the same values
  with the same timestamps in the same order. Only the keys of inserted rows may differ.
\<close>

theorem conc_distinct_sensors_serial:
  assumes run: "conc_step\<^sup>*\<^sup>* (start d reqs) S"
    and fin: "list_all (\<lambda>th. t_phase th = Finished) (threads S)"
    and wf: "wf_db d" and dist: "distinct (map fst reqs)"
  shows "sensor_view s (committed S) = sensor_view s (reconcile_all d reqs)"
proof -
  from serial_inv_run [OF run wf dist] have inv: "serial_inv d S"
    and rq: "map req_of (threads S) = reqs" by simp_all
  have sens: "map t_sensor (threads S) = map fst reqs" using rq by (simp add: sensors_req_of)
  show ?thesis
  proof (cases "map_of reqs s")
    case None
    then have "s \<notin> set (map t_sensor (threads S))" using sens by (simp add: map_of_eq_None_iff)
    with inv have "sensor_rows s (committed S) = sensor_rows s d" by (simp add: serial_inv_def)
    with reconcile_all_sensor [OF wf dist, of s] None show ?thesis by (simp add: sensor_view_def)
  next
    case (Some p)
    obtain wp t where p: "p = (wp, t)" by (cases p) auto
    with Some have "(s, wp, t) \<in> set reqs" by (simp add: map_of_SomeD)
    then obtain j where j: "j < length (threads S)" "req_of (threads S ! j) = (s, wp, t)"
      using rq by (metis in_set_conv_nth length_map nth_map)
    have "thread_ok d (committed S) (threads S ! j)" "t_phase (threads S ! j) = Finished"
      using inv fin j(1) by (simp_all add: serial_inv_def list_all_length)
    then have "sensor_view s (committed S) = sensor_view s (snd (reconcile d s wp t))"
      using j(2) by (simp add: thread_ok_def req_of_def)
    with reconcile_all_sensor [OF wf dist, of s wp t] Some p show ?thesis by simp
  qed
qed

lemma conc_distinct_sensors_serial_witness:
  "rows (committed (write_thread (write_thread (select_thread (select_thread
      (start sample_db [(JStr ''tank-3'', JNum 10, 30000000), (JStr ''tank-4'', JNum 20, 30000000)])
      0) 1) 1) 0)) =
     rows sample_db @
       [\<lparr>row_id = 3, sensor_id = JStr ''tank-4'', water_percentage = JNum 20, timestamp = 30000000\<rparr>,
        \<lparr>row_id = 4, sensor_id = JStr ''tank-3'', water_percentage = JNum 10, timestamp = 30000000\<rparr>] \<and>
   rows (reconcile_all sample_db [(JStr ''tank-3'', JNum 10, 30000000), (JStr ''tank-4'', JNum 20, 30000000)]) =
     rows sample_db @
       [\<lparr>row_id = 3, sensor_id = JStr ''tank-3'', water_percentage = JNum 10, timestamp = 30000000\<rparr>,
        \<lparr>row_id = 4, sensor_id = JStr ''tank-4'', water_percentage = JNum 20, timestamp = 30000000\<rparr>] \<and>
   sensor_view (JStr ''tank-3'') (committed (write_thread (write_thread (select_thread (select_thread
      (start sample_db [(JStr ''tank-3'', JNum 10, 30000000), (JStr ''tank-4'', JNum 20, 30000000)])
      0) 1) 1) 0)) =
   sensor_view (JStr ''tank-3'')
     (reconcile_all sample_db [(JStr ''tank-3'', JNum 10, 30000000), (JStr ''tank-4'', JNum 20, 30000000)])"
proof -
  let ?reqs = "[(JStr ''tank-3'', JNum 10, 30000000::time), (JStr ''tank-4'', JNum 20, 30000000::time)]"
  let ?S0 = "start sample_db ?reqs"
  let ?S1 = "select_thread ?S0 0"
  let ?S2 = "select_thread ?S1 1"
  let ?S3 = "write_thread ?S2 1"
  let ?S4 = "write_thread ?S3 0"
  have none: "select_latest (rows sample_db) (JStr s) w = None" if "s \<noteq> ''tank-1''" "s \<noteq> ''tank-2''" for s w
    using that by (simp add: select_latest_def in_window_def sample_db_def)
  have s1: "conc_step ?S0 ?S1" by (rule select_step) (simp_all add: start_def)
  have s2: "conc_step ?S1 ?S2" by (rule select_step) (simp_all add: start_def select_thread_def)
  have s3: "conc_step ?S2 ?S3"
    by (rule write_step [where c = None]) (simp_all add: start_def select_thread_def none)
  have s4: "conc_step ?S3 ?S4"
    by (rule write_step [where c = None]) (simp_all add: start_def select_thread_def write_thread_def none)
  from s1 s2 s3 s4 have run: "conc_step\<^sup>*\<^sup>* ?S0 ?S4" by simp
  have fin: "list_all (\<lambda>th. t_phase th = Finished) (threads ?S4)"
    by (simp add: start_def select_thread_def write_thread_def none)
  have wf: "wf_db sample_db" by (simp add: wf_db_def sample_db_def)
  have dist: "distinct (map fst ?reqs)" by simp
  have r4: "rows (committed ?S4) = rows sample_db @
       [\<lparr>row_id = 3, sensor_id = JStr ''tank-4'', water_percentage = JNum 20, timestamp = 30000000\<rparr>,
        \<lparr>row_id = 4, sensor_id = JStr ''tank-3'', water_percentage = JNum 10, timestamp = 30000000\<rparr>]"
    by (simp add: start_def select_thread_def write_thread_def apply_choice_def none insert_row_def)
       (simp add: sample_db_def)
  have rs: "rows (reconcile_all sample_db ?reqs) = rows sample_db @
       [\<lparr>row_id = 3, sensor_id = JStr ''tank-3'', water_percentage = JNum 10, timestamp = 30000000\<rparr>,
        \<lparr>row_id = 4, sensor_id = JStr ''tank-4'', water_percentage = JNum 20, timestamp = 30000000\<rparr>]"
    by (simp add: reconcile_def insert_row_def select_latest_def in_window_def sample_db_def
        one_minute_def)
  show ?thesis
    using r4 rs conc_distinct_sensors_serial [OF run fin wf dist, of "JStr ''tank-3''"] by simp
qed

end
