(* ===== verification/Entry.thy ===== *)
theory Entry
  imports Json
begin

text \<open>
  The entry point of \<open>src/server.py\<close> (lines 114--120): under \<open>__main__\<close> the
  listen port is \<open>int(os.environ.get("PORT", 5000))\<close> and the Flask application is
  started with \<open>app.run(host='0.0.0.0', port=port, debug=False)\<close>. The theory models
  Python's \<open>int()\<close> of a string in base 10 and \<open>str()\<close> of an integer (ASCII digits
  and whitespace; \<open>int()\<close> also accepts the other Unicode decimal digits and spaces,
  which no deployment sets), and the one check of \<open>app.run\<close> that can fail on the
  value: \<open>socket.bind\<close> refuses a port outside \<open>0..65535\<close> with \<open>OverflowError\<close>.
  It proves that a port written in decimal is read back exactly and what the process
  does for an unset, empty, padded, underscored or out-of-range \<open>PORT\<close>.
\<close>

section \<open>Python's \<open>int(str)\<close> and \<open>str(int)\<close>\<close>

text \<open>
  The digits of \<open>int()\<close>: one or more ASCII digits, single underscores allowed between
  two digits. \<open>prev_digit\<close> records whether the last character was a digit, so that a
  leading, trailing or doubled underscore and the empty string are refused.
\<close>

fun parse_digits :: "int \<Rightarrow> bool \<Rightarrow> string \<Rightarrow> int option" where
  "parse_digits acc prev_digit [] = (if prev_digit then Some acc else None)"
| "parse_digits acc prev_digit (c # cs) =
     (if (48::nat) \<le> of_char c \<and> of_char c \<le> (57::nat)
      then parse_digits (10 * acc + (int (of_char c) - 48)) True cs
      else if c = CHR ''_'' \<and> prev_digit then parse_digits acc False cs
      else None)"

text \<open>
  \<open>int(s)\<close>: surrounding whitespace (\<open>str.isspace\<close> on ASCII: space, \<open>\t \n \v \f \r\<close>
  and the separators \<open>\x1c\<close>--\<open>\x1f\<close>) is stripped, one sign is allowed; anything
  else raises \<open>ValueError\<close>.
\<close>

definition py_int_of_str :: "string \<Rightarrow> py_exc + int" where
  "py_int_of_str s =
     (let isspace = (\<lambda>c. c = CHR '' '' \<or> ((9::nat) \<le> of_char c \<and> of_char c \<le> (13::nat)) \<or>
                          ((28::nat) \<le> of_char c \<and> of_char c \<le> (31::nat)));
          t = rev (dropWhile isspace (rev (dropWhile isspace s)));
          r = (case t of
                 c # cs \<Rightarrow> if c = CHR ''-'' then map_option uminus (parse_digits 0 False cs)
                          else if c = CHR ''+'' then parse_digits 0 False cs
                          else parse_digits 0 False t
               | [] \<Rightarrow> None)
      in case r of None \<Rightarrow> Inl ValueError | Some n \<Rightarrow> Inr n)"

text \<open>\<open>str(n)\<close> of a non-negative integer: its decimal digits, most significant first.\<close>

fun nat_digits :: "nat \<Rightarrow> string" where
  "nat_digits m =
     (if m < 10 then [''0123456789'' ! m]
      else nat_digits (m div 10) @ [''0123456789'' ! (m mod 10)])"

declare nat_digits.simps [simp del]

definition py_str :: "int \<Rightarrow> string" where
  "py_str n = (if n < 0 then CHR ''-'' # nat_digits (nat (- n)) else nat_digits (nat n))"

section \<open>Starting the server\<close>

text \<open>
  \<open>app.run(host, port, debug)\<close>: Werkzeug binds a socket to \<open>(host, port)\<close> and
  serves; \<open>bind\<close> raises \<open>OverflowError\<close> for a port outside \<open>0..65535\<close>. The result
  is the address served and the debug flag.
\<close>

definition app_run :: "string \<Rightarrow> int \<Rightarrow> bool \<Rightarrow> py_exc + string \<times> int \<times> bool" where
  "app_run host port debug =
     (if 0 \<le> port \<and> port \<le> 65535 then Inr (host, port, debug) else Inl OverflowError)"

text \<open>
  The \<open>__main__\<close> block, given the process environment. \<open>os.environ.get("PORT", 5000)\<close>
  is the string set for \<open>PORT\<close>, or the integer 5000 when it is unset, whose \<open>int()\<close> is
  5000. An exception here is not caught: the process stops before serving.
\<close>

definition main :: "(string \<Rightarrow> string option) \<Rightarrow> py_exc + string \<times> int \<times> bool" where
  "main environ =
     (case (case environ ''PORT'' of None \<Rightarrow> Inr 5000 | Some s \<Rightarrow> py_int_of_str s) of
        Inl e \<Rightarrow> Inl e
      | Inr port \<Rightarrow> app_run ''0.0.0.0'' port False)"

section \<open>Lemmas: digits\<close>

lemma digit_char_props:
  assumes "d < 10"
  shows "(48::nat) \<le> of_char (''0123456789'' ! d) \<and> of_char (''0123456789'' ! d) \<le> (57::nat) \<and>
         int (of_char (''0123456789'' ! d)) - 48 = int d \<and>
         \<not> (''0123456789'' ! d = CHR '' '' \<or> ((9::nat) \<le> of_char (''0123456789'' ! d) \<and>
              of_char (''0123456789'' ! d) \<le> (13::nat)) \<or>
            ((28::nat) \<le> of_char (''0123456789'' ! d) \<and> of_char (''0123456789'' ! d) \<le> (31::nat))) \<and>
         ''0123456789'' ! d \<noteq> CHR ''-'' \<and> ''0123456789'' ! d \<noteq> CHR ''+''"
proof -
  have "d = 0 \<or> d = 1 \<or> d = 2 \<or> d = 3 \<or> d = 4 \<or> d = 5 \<or> d = 6 \<or> d = 7 \<or> d = 8 \<or> d = 9"
    using assms by auto
  then show ?thesis by (elim disjE) simp_all
qed

lemma nat_digits_step:
  "\<not> m < 10 \<Longrightarrow> nat_digits m = nat_digits (m div 10) @ [''0123456789'' ! (m mod 10)]"
  by (simp add: nat_digits.simps [of m])

lemma parse_digits_nat_digits:
  "parse_digits acc prev (nat_digits m @ cs) =
     parse_digits (acc * 10 ^ length (nat_digits m) + int m) True cs"
proof (induction m arbitrary: acc prev cs rule: nat_digits.induct)
  case (1 m)
  show ?case
  proof (cases "m < 10")
    case True
    define ch where "ch = ''0123456789'' ! m"
    have n: "nat_digits m = [ch]" using True by (simp add: nat_digits.simps [of m] ch_def)
    have "(48::nat) \<le> of_char ch \<and> of_char ch \<le> (57::nat) \<and> int (of_char ch) - 48 = int m"
      using digit_char_props [OF True] by (simp add: ch_def)
    then show ?thesis unfolding n by (simp add: algebra_simps)
  next
    case False
    define ch where "ch = ''0123456789'' ! (m mod 10)"
    have d: "(48::nat) \<le> of_char ch \<and> of_char ch \<le> (57::nat) \<and> int (of_char ch) - 48 = int (m mod 10)"
      using digit_char_props [of "m mod 10"] by (simp add: ch_def)
    have m: "int m = int (m div 10) * 10 + int (m mod 10)"
      using div_mult_mod_eq [of m 10] by (metis of_nat_add of_nat_mult of_nat_numeral)
    have n: "nat_digits m = nat_digits (m div 10) @ [ch]"
      using nat_digits_step [OF False] by (simp add: ch_def)
    show ?thesis
      using "1.IH" [OF False, of acc prev "ch # cs"] d m unfolding n
      by (simp add: algebra_simps power_add)
  qed
qed

lemma nat_digits_chars:
  "c \<in> set (nat_digits m) \<Longrightarrow> \<exists>d < 10. c = ''0123456789'' ! d"
proof (induction m rule: nat_digits.induct)
  case (1 m)
  show ?case
  proof (cases "m < 10")
    case True
    have "nat_digits m = [''0123456789'' ! m]" using True by (subst nat_digits.simps) (simp only: if_True)
    with "1.prems" True show ?thesis by auto
  next
    case False
    from "1.prems" have "c \<in> set (nat_digits (m div 10)) \<or> c = ''0123456789'' ! (m mod 10)"
      unfolding nat_digits_step [OF False] by (simp only: set_append set_simps Un_iff insert_iff empty_iff simp_thms)
    then show ?thesis
    proof
      assume "c \<in> set (nat_digits (m div 10))"
      then show ?thesis by (rule "1.IH" [OF False])
    next
      assume "c = ''0123456789'' ! (m mod 10)"
      then show ?thesis by (intro exI [of _ "m mod 10"]) simp
    qed
  qed
qed

lemma nat_digits_not_Nil: "nat_digits m \<noteq> []"
  by (subst nat_digits.simps) simp

lemma strip_id:
  assumes "\<forall>c \<in> set s. \<not> P c"
  shows "rev (dropWhile P (rev (dropWhile P s))) = s"
proof -
  have "dropWhile P s = s" using assms by (cases s) auto
  moreover have "dropWhile P (rev s) = rev s" using assms by (cases "rev s") auto
  ultimately show ?thesis by simp
qed

lemma py_int_of_str_py_str: "py_int_of_str (py_str n) = Inr n"
proof -
  let ?P = "\<lambda>c. c = CHR '' '' \<or> ((9::nat) \<le> of_char c \<and> of_char c \<le> (13::nat)) \<or>
                ((28::nat) \<le> of_char c \<and> of_char c \<le> (31::nat))"
  have dig: "\<not> ?P c \<and> c \<noteq> CHR ''-'' \<and> c \<noteq> CHR ''+''" if mem: "c \<in> set (nat_digits m)" for c m
  proof -
    obtain d where "d < 10" "c = ''0123456789'' ! d" using nat_digits_chars [OF mem] by blast
    then show ?thesis using digit_char_props [of d] by simp
  qed
  have sp: "\<forall>c \<in> set (py_str n). \<not> ?P c"
    using dig by (auto simp: py_str_def)
  obtain c cs where cc: "nat_digits (nat \<bar>n\<bar>) = c # cs"
    using nat_digits_not_Nil by (cases "nat_digits (nat \<bar>n\<bar>)") auto
  have c: "c \<noteq> CHR ''-'' \<and> c \<noteq> CHR ''+''"
    using dig [of c "nat \<bar>n\<bar>"] cc by simp
  have p: "parse_digits 0 False (nat_digits (nat \<bar>n\<bar>)) = Some \<bar>n\<bar>"
    using parse_digits_nat_digits [of 0 False "nat \<bar>n\<bar>" "[]"] by simp
  show ?thesis
  proof (cases "n < 0")
    case True
    then show ?thesis using p strip_id [OF sp] by (simp add: py_int_of_str_def py_str_def)
  next
    case False
    then show ?thesis using p c cc strip_id [OF sp] by (simp add: py_int_of_str_def py_str_def)
  qed
qed

text \<open>A string without a decimal digit is not a number.\<close>

lemma parse_digits_no_digit:
  "\<forall>c \<in> set cs. \<not> ((48::nat) \<le> of_char c \<and> of_char c \<le> (57::nat)) \<Longrightarrow> parse_digits acc False cs = None"
  by (cases cs) auto

lemma py_int_of_str_no_digit:
  assumes "\<forall>c \<in> set s. \<not> ((48::nat) \<le> of_char c \<and> of_char c \<le> (57::nat))"
  shows "py_int_of_str s = Inl ValueError"
proof -
  have key: "(case t of
               c # cs \<Rightarrow> if c = CHR ''-'' then map_option uminus (parse_digits 0 False cs)
                        else if c = CHR ''+'' then parse_digits 0 False cs
                        else parse_digits 0 False t
             | [] \<Rightarrow> None) = None"
    if "\<forall>c \<in> set t. \<not> ((48::nat) \<le> of_char c \<and> of_char c \<le> (57::nat))" for t
    using that by (cases t) (auto simp: parse_digits_no_digit)
  have "\<forall>c \<in> set (rev (dropWhile P (rev (dropWhile P s)))). \<not> ((48::nat) \<le> of_char c \<and> of_char c \<le> (57::nat))"
    for P
  proof
    fix c assume "c \<in> set (rev (dropWhile P (rev (dropWhile P s))))"
    then have "c \<in> set s" by (metis set_dropWhileD set_rev)
    with assms show "\<not> ((48::nat) \<le> of_char c \<and> of_char c \<le> (57::nat))" by blast
  qed
  then show ?thesis by (simp add: py_int_of_str_def Let_def key)
qed

section \<open>Properties\<close>

text \<open>
  C31 (the port is read back). When \<open>PORT\<close> holds the decimal form \<open>str(p)\<close> of a port
  \<open>p\<close> in \<open>0..65535\<close>, the server listens on \<open>0.0.0.0\<close> at port \<open>p\<close>, without the
  debugger: \<open>int(str(p)) = p\<close>.
\<close>

lemma main_listens_on_port:
  assumes "0 \<le> p" "p \<le> 65535" "environ ''PORT'' = Some (py_str p)"
  shows "main environ = Inr (''0.0.0.0'', p, False)"
  using assms by (simp add: main_def py_int_of_str_py_str app_run_def)

lemma main_listens_on_port_witness:
  "(0::int) \<le> 8080 \<and> (8080::int) \<le> 65535 \<and>
   (\<lambda>k. if k = ''PORT'' then Some (py_str 8080) else None) ''PORT'' = Some (py_str 8080) \<and>
   main (\<lambda>k. if k = ''PORT'' then Some (py_str 8080) else None) = Inr (''0.0.0.0'', 8080, False)"
  using main_listens_on_port [of 8080 "\<lambda>k. if k = ''PORT'' then Some (py_str 8080) else None"]
  by simp

text \<open>
  C32 (how \<open>PORT\<close> is read, line 118). Unset, the server listens on 5000. Set, it is
  parsed by \<open>int()\<close> and nothing falls back to 5000: a value without any decimal digit,
  the empty string included, raises \<open>ValueError\<close>, and a number outside \<open>0..65535\<close>
  is parsed and then refused by \<open>bind\<close> with \<open>OverflowError\<close>; either way the process
  stops before serving.
\<close>

lemma main_port_cases:
  "(environ ''PORT'' = None \<longrightarrow> main environ = Inr (''0.0.0.0'', 5000, False)) \<and>
   (environ ''PORT'' = Some s \<and> (\<forall>c \<in> set s. \<not> ((48::nat) \<le> of_char c \<and> of_char c \<le> (57::nat))) \<longrightarrow>
      main environ = Inl ValueError) \<and>
   (environ ''PORT'' = Some (py_str p) \<and> (p < 0 \<or> 65535 < p) \<longrightarrow> main environ = Inl OverflowError)"
  using py_int_of_str_no_digit [of s] py_int_of_str_py_str [of p]
  by (auto simp: main_def app_run_def)

lemma main_port_cases_witness:
  "main (\<lambda>k. None) = Inr (''0.0.0.0'', 5000, False) \<and>
   main (\<lambda>k. if k = ''PORT'' then Some '''' else None) = Inl ValueError \<and>
   main (\<lambda>k. if k = ''PORT'' then Some (py_str 70000) else None) = Inl OverflowError"
  using main_port_cases [of "\<lambda>k. None"]
    main_port_cases [of "\<lambda>k. if k = ''PORT'' then Some '''' else None" "''''"]
    main_port_cases [of "\<lambda>k. if k = ''PORT'' then Some (py_str 70000) else None" _ 70000]
  by simp

end
