(* ===== verification/Spec2Isabelle.thy ===== *)
theory Spec2Isabelle
  imports App Clock Serial Entry
begin

text \<open>
  \<^bold>\<open>A verification development of \<open>src/server.py\<close>.\<close>

  \<^bold>\<open>The program.\<close> A Flask server with one endpoint, \<open>POST /data\<close>
  (\<open>receive_data\<close>, lines 43--112). A sensor posts a JSON object with \<open>sensor_id\<close> and
  \<open>water_percentage\<close>; the view opens a PostgreSQL connection (\<open>connect_db\<close>, lines
  19--40, with credentials read from the environment at lines 12--16), looks for the
  sensor's latest row of the last minute (\<open>SELECT \<dots> ORDER BY timestamp DESC LIMIT 1\<close>),
  updates it or inserts a new row, commits, and answers 200; every failure is answered
  400 or 500. The parts interact through the table \<open>sensor_data\<close> only: the view reads
  and writes it inside one transaction per request, and requests run concurrently.

  \<^bold>\<open>The theories.\<close>
  \<^item> \<open>Prelude\<close>: the types \<open>time\<close> (microseconds, an \<open>int\<close>) and \<open>row_key\<close>,
    the rule collections \<open>store_simps\<close> and \<open>handler_simps\<close>, and the list facts on
    conditional maps (\<open>map_where\<close>, the shape of an \<open>UPDATE \<dots> WHERE\<close>) the others share,
    and the facts on integer \<open>div\<close>/\<open>mod\<close> (Python's \<open>divmod\<close>) the calendar needs.
  \<^item> \<open>Json\<close>: the environment of the view, modelled from the libraries: parsed JSON
    values (\<open>json\<close>), Python's truth test (\<open>py_truthy\<close>), \<open>dict.get\<close>
    (\<open>dict_get\<close>, raising \<open>AttributeError\<close> on a non-object, last duplicate key wins),
    Werkzeug's \<open>is_json\<close> and Flask's \<open>get_json\<close>.
  \<^item> \<open>Calendar\<close>: the proleptic Gregorian calendar of Python's \<open>datetime\<close>
    (\<open>_is_leap\<close>, \<open>_days_before_year\<close>, \<open>_ymd2ord\<close>, \<open>_ord2ymd\<close> of CPython's
    \<open>Lib/datetime.py\<close>). Lemmas: \<open>_ord2ymd\<close> and \<open>_ymd2ord\<close> are inverse round
    trips; \<open>_ymd2ord\<close> is strictly increasing in the order of dates.
  \<^item> \<open>Datetime\<close>: \<open>timedelta\<close> and naive \<open>datetime\<close> (\<open>__new__\<close>, \<open>__add__\<close>,
    \<open>__neg__\<close>, \<open>__sub__\<close>), \<open>one_minute\<close>, and the window start of line 59,
    \<open>one_minute_ago\<close>. Lemmas: a \<open>timedelta\<close> is normalised; \<open>datetime\<close>
    addition is exact on microsecond counts \<open>dt_us\<close> and fails only with
    \<open>OverflowError\<close> outside the years 1 to 9999; hence line 59 computes
    \<open>dt_us now - one_minute\<close> (C30), keeps the date within a day (C28), and in the
    first minute of a day gives 23:59 of the day before, whatever month or year ends
    there (C29).
  \<^item> \<open>Store\<close>: the table as a record \<open>db\<close> of rows and a key sequence; the
    \<open>WHERE\<close> clause (\<open>in_window\<close>), \<open>ORDER BY \<dots> LIMIT 1\<close> with \<open>fetchone\<close>
    (\<open>latest\<close>, \<open>select_latest\<close>), the \<open>UPDATE\<close> (\<open>update_row\<close>), the
    \<open>INSERT\<close> (\<open>insert_row\<close>) and \<open>ROLLBACK\<close> (\<open>rollback\<close>, which keeps sequence
    draws). Lemmas: the query meets its SQL contract \<open>select_spec\<close> (C8), which fixes its
    answer whenever no two candidate rows tie (C9); the writes keep keys unique (\<open>wf_db\<close>).
  \<^item> \<open>Reconciler\<close>: lines 57--90 run without faults, \<open>reconcile\<close>, and serial runs
    \<open>reconcile_all\<close>. Lemmas: the specification's P1, P2, P3 and P6 (C1, C2, C3, C6), one
    write per call (C7), and the invariant \<open>live_inv\<close> (all rows in the past, two rows of a
    sensor more than a minute apart), kept by each call (C4), from which "one live record
    per sensor" follows for serial runs (C5); a wall clock set back below a row's
    timestamp makes the update move that row back in time beside an older live row (C27).
  \<^item> \<open>Handler\<close>: the whole view: \<open>config\<close>, \<open>connect_db\<close> with its printed lines,
    the \<open>try\<close>/\<open>except\<close>/\<open>finally\<close> (\<open>db_transaction\<close>, \<open>tx_commit\<close>,
    \<open>tx_abort\<close>) and \<open>receive_data\<close>, returning an \<open>outcome\<close>: response, committed
    table, printed lines, and whether the handler closed its connection. What the driver
    and server do is an oracle, the record \<open>faults\<close> (connect, cursor, select, write,
    commit with a lost acknowledgement as a third outcome, rollback), so every path is a
    value. Lemmas: validation (C10, C11), atomicity (C12), success (C13), a 200 means
    exactly one reconciliation (C14), connection release (C17), logging (C18), and four
    behaviours the specification does not describe (C15, C16, C19, C33).
  \<^item> \<open>Clock\<close>: \<open>receive_data_at\<close> and \<open>db_transaction_at\<close>, the view on the
    \<open>datetime\<close> of line 49 whose \<open>SELECT\<close> uses the window start line 59 computes.
    Lemma: it is the view on the arrival time's microseconds, with line 59's
    \<open>OverflowError\<close> taking the path of a failing \<open>SELECT\<close> (C35).
  \<^item> \<open>App\<close>: the application object of lines 7 and 43: the URL map with Flask's
    static rule and the rule \<open>POST /data\<close> (\<open>url_rules\<close>, \<open>match_rule\<close>,
    \<open>endpoint_methods\<close>), Werkzeug's matching (\<open>url_match\<close>: 404 for an unknown path,
    405 for a known path with another method, 308 to the path with repeated slashes
    merged, \<open>merge_slashes\<close>), Flask's automatic \<open>OPTIONS\<close> reply, and \<open>wsgi_app\<close>,
    which hands \<open>POST /data\<close> to the view. Lemma: every answer is 200, 308, 400, 404, 405
    or 500, only \<open>POST /data\<close> can change the table, and \<open>POST //data\<close> is
    redirected (C20).
  \<^item> \<open>Concurrency\<close>: requests in flight as threads of an inductive step relation
    \<open>conc_step\<close>: a \<open>SELECT\<close> step on the committed table, then a write-and-commit step
    on the table as it then is. Lemmas: the race of section 5 of the specification (C21),
    keys and other sensors' rows under every interleaving by rule induction (C22), and
    that the serial schedule is an interleaving which finishes every request and commits
    exactly what the serial server commits (C23).
  \<^item> \<open>Serial\<close>: what a sensor sees of the table (\<open>sensor_rows\<close>, and
    \<open>sensor_view\<close>, its readings without keys) and a per-request invariant
    \<open>serial_inv\<close> of the step relation (a request that has not written leaves its sensor's
    rows as they started, one that has written leaves the reconciler's result). Lemma: every
    complete interleaving of requests for pairwise distinct sensors commits, sensor by sensor,
    what the serial run \<open>reconcile_all\<close> commits (C26); only the keys of inserted rows
    depend on the order of the commits. With C21 this locates the race of section 5 exactly
    at two requests for one sensor.
  \<^item> \<open>Entry\<close>: the \<open>__main__\<close> block (lines 114--120), \<open>main\<close>, with Python's
    \<open>int()\<close> of a string (\<open>py_int_of_str\<close>), \<open>str()\<close> of an integer (\<open>py_str\<close>) and
    the port check of \<open>app.run\<close> (\<open>app_run\<close>). Lemmas: a port written in decimal is
    served exactly (C31); an unset \<open>PORT\<close> serves on 5000, one without a digit raises
    \<open>ValueError\<close> and one out of range \<open>OverflowError\<close> (C32).
  \<^item> This theory: \<open>serve\<close>, the server handling a sequence of requests one after
    another with arbitrary faults, and the properties that span the components: the
    invariant and its consequences (C24, C25), and the type of the stored readings,
    \<open>table_typed\<close> (a truthy \<open>sensor_id\<close> and a non-null value in every row), kept
    by every request whatever the driver does (C34).

  \<^bold>\<open>Choices of the model.\<close> Time is an integer count of microseconds, as
  PostgreSQL stores a \<open>timestamp\<close>; \<open>one_minute\<close> is \<open>60 * 10^6\<close>. The handler and
  the reconciler take the arrival time in that form. Theory \<open>Datetime\<close> justifies the
  choice: the \<open>datetime\<close> arithmetic of lines 49 and 59 is exact on the microsecond
  reading \<open>dt_us\<close> (C30), so nothing is lost; its only error, \<open>OverflowError\<close>
  within a day of year 1, is raised inside the \<open>try\<close> block and takes the fault
  path of the handler (C35). The window test is the query's inclusive \<open>>=\<close>. No loop of the program runs unboundedly, so no fuel is needed:
  every definition is total and structural, and the witnesses evaluate by \<open>simp\<close>. The
  table is a list in scan order; that order matters only for ties in \<open>ORDER BY\<close>, which
  C9 shows to be the only freedom. Transactions follow PostgreSQL's default isolation
  (read committed): a \<open>SELECT\<close> sees the last committed table; a write becomes visible
  at its commit.

  \<^bold>\<open>Not modelled.\<close> Flask's serving loop behind \<open>app.run\<close> (socket I/O; only its
  port check is modelled), Werkzeug's redirects other than the merging of repeated
  slashes, the headers of a response (\<open>Allow\<close>, \<open>Content-Type\<close>), non-ASCII digits and spaces that \<open>int()\<close> also accepts, the
  text of the printed lines beyond which line was printed (\<open>strftime\<close> of the arrival
  time included), the rounding of JSON floats, database type errors beyond their effect
  (a failing statement, covered by the fault oracle), the clock \<open>datetime.now()\<close>
  itself (an input; the serial theorems assume non-decreasing arrival times, and C27 shows
  what a clock set back does), and PostgreSQL's row locks (a concurrent
  \<open>UPDATE\<close> of the same row waits and then overwrites, which the step relation's
  atomic write-and-commit subsumes).
\<close>

section \<open>Serving requests one after another\<close>

text \<open>
  The server handling its requests in sequence: each with the driver's answers for it,
  its arrival time and the request, on the table the previous one committed.
\<close>

fun serve :: "config \<Rightarrow> db \<Rightarrow> (faults \<times> time \<times> request) list \<Rightarrow> db" where
  "serve cfg d [] = d"
| "serve cfg d ((f, t, req) # reqs) = serve cfg (store (receive_data cfg f t req d)) reqs"

text \<open>
  The type of a stored reading (specification section 3): a present, non-empty
  \<open>sensor_id\<close> and a present \<open>water_percentage\<close>, the guard of line 51.
\<close>

definition row_typed :: "row \<Rightarrow> bool" where
  "row_typed r \<longleftrightarrow> py_truthy (sensor_id r) \<and> water_percentage r \<noteq> JNull"

definition table_typed :: "db \<Rightarrow> bool" where
  "table_typed d \<longleftrightarrow> list_all row_typed (rows d)"

section \<open>Lemmas\<close>

lemma live_inv_same_rows:
  assumes "live_inv d t" and "t \<le> now" and "rows d' = rows d" and "next_id d \<le> next_id d'"
  shows "live_inv d' now"
  using assms unfolding live_inv_def wf_db_def by fastforce

lemma receive_data_live_inv_step:
  assumes "live_inv d t" and "t \<le> now"
  shows "live_inv (store (receive_data cfg f now req d)) now"
  using receive_data_store [of cfg f now req d]
proof
  assume "\<exists>s wp. valid_reading s wp \<and> store (receive_data cfg f now req d) = snd (reconcile d s wp now)"
  then obtain s wp where "store (receive_data cfg f now req d) = snd (reconcile d s wp now)"
    by blast
  with live_inv_reconcile [OF assms] show ?thesis by simp
next
  assume "rows (store (receive_data cfg f now req d)) = rows d \<and>
      next_id d \<le> next_id (store (receive_data cfg f now req d))"
  with assms show ?thesis by (blast intro: live_inv_same_rows)
qed

lemma serve_live_inv:
  "live_inv d t \<Longrightarrow> sorted (t # map (\<lambda>q. fst (snd q)) reqs) \<Longrightarrow>
   live_inv (serve cfg d reqs) (last (t # map (\<lambda>q. fst (snd q)) reqs))"
proof (induction reqs arbitrary: d t)
  case Nil
  then show ?case by simp
next
  case (Cons q reqs)
  obtain f t' req where q: "q = (f, t', req)" by (cases q) auto
  with Cons.prems have "t \<le> t'" and sorted': "sorted (t' # map (\<lambda>q. fst (snd q)) reqs)"
    by auto
  from Cons.prems(1) \<open>t \<le> t'\<close> have "live_inv (store (receive_data cfg f t' req d)) t'"
    by (rule receive_data_live_inv_step)
  from Cons.IH [OF this sorted'] show ?case
    by (simp add: q)
qed


lemma no_faults_connects: "connect_ok no_faults"
  by (simp add: no_faults_def)

lemmas serve_eval = receive_data_reading valid_reading_def no_faults_connects db_transaction_no_faults
  reconcile_def select_latest_def in_window_def one_minute_def insert_row_def update_row_def
  empty_db_def

lemma reconcile_typed:
  "valid_reading s wp \<Longrightarrow> table_typed d \<Longrightarrow> table_typed (snd (reconcile d s wp now))"
  by (auto simp: table_typed_def row_typed_def valid_reading_def list_all_iff reconcile_def
      set_rows_update_row rows_insert_row split: option.splits)

lemma receive_data_typed:
  assumes "table_typed d"
  shows "table_typed (store (receive_data cfg f now req d))"
  using receive_data_store [of cfg f now req d]
proof
  assume "\<exists>s wp. valid_reading s wp \<and> store (receive_data cfg f now req d) = snd (reconcile d s wp now)"
  with reconcile_typed [OF _ assms] show ?thesis by auto
next
  assume "rows (store (receive_data cfg f now req d)) = rows d \<and>
      next_id d \<le> next_id (store (receive_data cfg f now req d))"
  with assms show ?thesis by (simp add: table_typed_def)
qed

section \<open>Properties across the components\<close>

text \<open>
  C24 (the invariant through the handler, whatever the driver does). Whatever the request
  and whatever the driver's answers (failed connection, statement, commit or rollback,
  lost commit acknowledgement), a request arriving no earlier than the last keeps the
  invariant of the table: rows in the past, two rows of a sensor more than a minute apart.
\<close>

theorem receive_data_preserves_live_inv:
  assumes "live_inv d t" and "t \<le> now"
  shows "live_inv (store (receive_data cfg f now req d)) now"
  using assms by (rule receive_data_live_inv_step)

lemma receive_data_preserves_live_inv_witness:
  "live_inv (store (receive_data full_config (no_faults\<lparr>commit_result := Commit_ack_lost\<rparr>)
     30000000 (reading_request (JStr ''tank-1'') (JNum 45)) sample_db)) 30000000"
proof -
  have h1: "live_inv sample_db 5000000"
    by (simp add: live_inv_def wf_db_def sample_db_def one_minute_def)
  have h2: "(5000000::time) \<le> 30000000" by simp
  show ?thesis by (rule receive_data_preserves_live_inv [OF h1 h2])
qed

text \<open>
  C25 (one live record per sensor, end to end). A server that handles its requests one
  after another, from an empty table, with arrival times that never go back and any
  answers of the driver: two rows of one sensor whose timestamps both lie within the
  minute before the last arrival are the same row.
\<close>

theorem serve_one_live_record:
  assumes "sorted (map (\<lambda>q. fst (snd q)) reqs)" and "reqs \<noteq> []"
    and "r \<in> set (rows (serve cfg empty_db reqs))"
    and "r' \<in> set (rows (serve cfg empty_db reqs))"
    and "sensor_id r = sensor_id r'"
    and "fst (snd (last reqs)) - one_minute \<le> timestamp r"
    and "fst (snd (last reqs)) - one_minute \<le> timestamp r'"
  shows "r = r'"
proof -
  let ?t0 = "fst (snd (hd reqs))"
  have "sorted (?t0 # map (\<lambda>q. fst (snd q)) reqs)"
    using assms(1,2) by (cases reqs) auto
  with live_inv_empty_db have "live_inv (serve cfg empty_db reqs)
      (last (?t0 # map (\<lambda>q. fst (snd q)) reqs))"
    by (rule serve_live_inv)
  moreover have "last (?t0 # map (\<lambda>q. fst (snd q)) reqs) = fst (snd (last reqs))"
    using assms(2) by (simp add: last_map)
  ultimately show ?thesis
    using assms(3-7) live_inv_one_live_record by metis
qed

lemma serve_one_live_record_witness:
  "\<lparr>row_id = 1, sensor_id = JStr ''tank-1'', water_percentage = JNum 45, timestamp = 30000000\<rparr>
     \<in> set (rows (serve full_config empty_db
          [(no_faults, 0, reading_request (JStr ''tank-1'') (JNum 42)),
           (no_faults, 30000000, reading_request (JStr ''tank-1'') (JNum 45))])) \<and>
   \<lparr>row_id = 1, sensor_id = JStr ''tank-1'', water_percentage = JNum 45, timestamp = 30000000\<rparr> =
   \<lparr>row_id = 1, sensor_id = JStr ''tank-1'', water_percentage = JNum 45, timestamp = 30000000\<rparr>"
proof -
  let ?reqs = "[(no_faults, 0, reading_request (JStr ''tank-1'') (JNum 42)),
                (no_faults, 30000000::time, reading_request (JStr ''tank-1'') (JNum 45))]"
  let ?r = "\<lparr>row_id = 1, sensor_id = JStr ''tank-1'', water_percentage = JNum 45,
              timestamp = 30000000\<rparr>"
  have h1: "sorted (map (\<lambda>q. fst (snd q)) ?reqs)" by simp
  have h2: "?reqs \<noteq> []" by simp
  have h3: "?r \<in> set (rows (serve full_config empty_db ?reqs))"
    by (simp add: serve_eval)
  have h4: "fst (snd (last ?reqs)) - one_minute \<le> timestamp ?r"
    by (simp add: one_minute_def)
  have "?r = ?r" by (rule serve_one_live_record [OF h1 h2 h3 h3 refl h4 h4])
  with h3 show ?thesis by simp
qed

text \<open>
  C34 (the type of the stored readings, specification section 3). Whatever the requests,
  their arrival times and the driver's answers, a server started on a table of readings
  with a present, non-empty sensor and a present value keeps only such readings: no
  request stores a row with a missing or false \<open>sensor_id\<close> or a \<open>null\<close> value.
\<close>

theorem serve_typed:
  assumes "table_typed d"
  shows "table_typed (serve cfg d reqs)"
  using assms
proof (induction reqs arbitrary: d)
  case Nil
  then show ?case by simp
next
  case (Cons q reqs)
  obtain f t req where "q = (f, t, req)" by (cases q) auto
  with Cons.IH receive_data_typed [OF Cons.prems] show ?case by simp
qed

lemma serve_typed_witness:
  "table_typed (serve full_config sample_db
     [(no_faults, 30000000, reading_request (JStr ''tank-1'') (JNum 45)),
      (no_faults, 40000000, reading_request (JStr '''') (JNum 50)),
      (no_faults, 50000000, reading_request (JStr ''tank-3'') JNull)])"
proof -
  have "table_typed sample_db" by (simp add: table_typed_def row_typed_def sample_db_def)
  then show ?thesis by (rule serve_typed)
qed

end
